(* ===== verification/Float64.thy ===== *)
theory Float64
  imports Prelude
begin

text \<open>
  IEEE-754 binary64, the type \<open>float64\<close> of every metric value, target and threshold.
  A number is a sign and a magnitude; the magnitude is the integer in the low 63 bits of
  the encoding (\<open>math.Float64bits\<close>), so the order of non-NaN numbers is the order of
  these integers, and the infinity is the magnitude \<open>inf_mag\<close>.  All finite numbers are
  integer multiples of \<open>2 ^ -1074\<close>, which is the unit the exact arithmetic works in; each
  operation rounds the exact result to nearest, ties to even.  NaN payloads are not
  modelled (the program never looks at them).
\<close>

datatype f64 = NaN | F bool nat

definition inf_mag :: nat where "inf_mag = 2047 * 2 ^ 52"

text \<open>The value of a magnitude, in units of \<open>2 ^ -1074\<close>.\<close>

definition mag_units :: "nat \<Rightarrow> nat" where
  "mag_units k = (if k < 2 ^ 52 then k else (2 ^ 52 + k mod 2 ^ 52) * 2 ^ (k div 2 ^ 52 - 1))"

fun log2 :: "nat \<Rightarrow> nat" where
  "log2 n = (if n < 2 then 0 else Suc (log2 (n div 2)))"

declare log2.simps [simp del]

text \<open>The greatest magnitude whose value is at most \<open>n\<close> units.\<close>

definition units_floor :: "nat \<Rightarrow> nat" where
  "units_floor n =
     (if n < 2 ^ 53 then n else (let l = log2 n - 52 in l * 2 ^ 52 + n div 2 ^ l))"

text \<open>The magnitude nearest to \<open>num / den\<close> units, the even one of two equally near.\<close>

definition round_mag :: "nat \<Rightarrow> nat \<Rightarrow> nat" where
  "round_mag num den =
     (let k = units_floor (num div den);
          mid = (mag_units k + mag_units (Suc k)) * den
      in if 2 * num < mid then k
         else if mid < 2 * num then Suc k
         else if even k then k else Suc k)"

definition f64_round :: "bool \<Rightarrow> nat \<Rightarrow> nat \<Rightarrow> f64" where
  "f64_round s num den = F s (min inf_mag (round_mag num den))"

definition unit_exp :: nat where "unit_exp = 2 ^ 1074"

definition f64_of_ratio :: "nat \<Rightarrow> nat \<Rightarrow> f64" where
  "f64_of_ratio n d = f64_round False (n * unit_exp) d"

definition f64_of_nat :: "nat \<Rightarrow> f64" where
  "f64_of_nat n = f64_of_ratio n 1"

definition f64_of_int :: "int \<Rightarrow> f64" where
  "f64_of_int i = f64_round (i < 0) (nat \<bar>i\<bar> * unit_exp) 1"

section \<open>Classes, comparison and arithmetic\<close>

fun f64_is_nan :: "f64 \<Rightarrow> bool" where
  "f64_is_nan NaN = True"
| "f64_is_nan (F s k) = False"

fun f64_is_inf :: "f64 \<Rightarrow> bool" where
  "f64_is_inf NaN = False"
| "f64_is_inf (F s k) = (inf_mag \<le> k)"

fun f64_is_finite :: "f64 \<Rightarrow> bool" where
  "f64_is_finite NaN = False"
| "f64_is_finite (F s k) = (k < inf_mag)"

text \<open>The order key: sign and magnitude as one integer; both zeros have key 0.\<close>

fun f64_key :: "f64 \<Rightarrow> int" where
  "f64_key NaN = 0"
| "f64_key (F s k) = (if s then - int k else int k)"

definition f64_lt :: "f64 \<Rightarrow> f64 \<Rightarrow> bool" where
  "f64_lt x y \<longleftrightarrow> \<not> f64_is_nan x \<and> \<not> f64_is_nan y \<and> f64_key x < f64_key y"

definition f64_le :: "f64 \<Rightarrow> f64 \<Rightarrow> bool" where
  "f64_le x y \<longleftrightarrow> \<not> f64_is_nan x \<and> \<not> f64_is_nan y \<and> f64_key x \<le> f64_key y"

definition f64_eq :: "f64 \<Rightarrow> f64 \<Rightarrow> bool" where
  "f64_eq x y \<longleftrightarrow> \<not> f64_is_nan x \<and> \<not> f64_is_nan y \<and> f64_key x = f64_key y"

fun f64_neg :: "f64 \<Rightarrow> f64" where
  "f64_neg NaN = NaN"
| "f64_neg (F s k) = F (\<not> s) k"

fun f64_units :: "f64 \<Rightarrow> int" where
  "f64_units NaN = 0"
| "f64_units (F s k) = (if s then - int (mag_units k) else int (mag_units k))"

fun f64_add :: "f64 \<Rightarrow> f64 \<Rightarrow> f64" where
  "f64_add NaN y = NaN"
| "f64_add (F s j) NaN = NaN"
| "f64_add (F s j) (F t k) =
     (if inf_mag \<le> j \<and> inf_mag \<le> k then (if s = t then F s j else NaN)
      else if inf_mag \<le> j then F s j
      else if inf_mag \<le> k then F t k
      else let z = f64_units (F s j) + f64_units (F t k)
           in if z = 0 then F (s \<and> t) 0 else f64_round (z < 0) (nat \<bar>z\<bar>) 1)"

definition f64_sub :: "f64 \<Rightarrow> f64 \<Rightarrow> f64" where
  "f64_sub x y = f64_add x (f64_neg y)"

fun f64_mul :: "f64 \<Rightarrow> f64 \<Rightarrow> f64" where
  "f64_mul NaN y = NaN"
| "f64_mul (F s j) NaN = NaN"
| "f64_mul (F s j) (F t k) =
     (if inf_mag \<le> j \<or> inf_mag \<le> k
      then (if j = 0 \<or> k = 0 then NaN else F (s \<noteq> t) inf_mag)
      else f64_round (s \<noteq> t) (mag_units j * mag_units k) unit_exp)"

fun f64_div :: "f64 \<Rightarrow> f64 \<Rightarrow> f64" where
  "f64_div NaN y = NaN"
| "f64_div (F s j) NaN = NaN"
| "f64_div (F s j) (F t k) =
     (if inf_mag \<le> j then (if inf_mag \<le> k then NaN else F (s \<noteq> t) inf_mag)
      else if inf_mag \<le> k then F (s \<noteq> t) 0
      else if k = 0 then (if j = 0 then NaN else F (s \<noteq> t) inf_mag)
      else f64_round (s \<noteq> t) (mag_units j * unit_exp) (mag_units k))"

section \<open>The magnitude scale\<close>

lemma log2_bounds: "0 < n \<Longrightarrow> 2 ^ log2 n \<le> n \<and> n < 2 ^ Suc (log2 n)"
proof (induction n rule: log2.induct)
  case (1 n)
  show ?case
  proof (cases "n < 2")
    case True
    with "1.prems" show ?thesis by (simp add: log2.simps [of n])
  next
    case False
    with "1.IH" have "2 ^ log2 (n div 2) \<le> n div 2" "n div 2 < 2 ^ Suc (log2 (n div 2))"
      by auto
    with False show ?thesis by (auto simp: log2.simps [of n])
  qed
qed

lemma mag_units_small [simp]: "k < 2 ^ 53 \<Longrightarrow> mag_units k = k"
proof -
  assume k: "k < 2 ^ 53"
  show ?thesis
  proof (cases "k < 2 ^ 52")
    case False
    with k have "k div 2 ^ 52 = 1" "k mod 2 ^ 52 = k - 2 ^ 52"
      by (simp_all add: div_nat_eqI le_mod_geq)
    with False show ?thesis by (simp add: mag_units_def)
  qed (simp add: mag_units_def)
qed

lemma mag_units_scaled:
  assumes "2 ^ 52 \<le> m" "m \<le> 2 ^ 53"
  shows "mag_units (l * 2 ^ 52 + m) = m * 2 ^ l"
proof (cases "m = 2 ^ 53")
  case True
  then have "l * 2 ^ 52 + m = (l + 2) * 2 ^ 52" by simp
  then show ?thesis using True by (simp add: mag_units_def)
next
  case False
  define r where "r = m - 2 ^ 52"
  with assms False have r: "r < 2 ^ 52" "m = 2 ^ 52 + r" by simp_all
  then have e: "l * 2 ^ 52 + m = Suc l * 2 ^ 52 + r" by simp
  have "(Suc l * 2 ^ 52 + r) div 2 ^ 52 = Suc l" "(Suc l * 2 ^ 52 + r) mod 2 ^ 52 = r"
    using r(1) by (simp_all only: div_mult_self3 mod_mult_self3, simp_all)
  then show ?thesis using r by (simp add: mag_units_def e)
qed

lemma mag_units_Suc: "mag_units k < mag_units (Suc k)"
proof (cases "k < 2 ^ 52")
  case True
  then show ?thesis by simp
next
  case False
  define l r where "l = k div 2 ^ 52 - 1" and "r = k mod 2 ^ 52"
  have "1 \<le> k div 2 ^ 52" using False by (simp add: div_greater_zero_iff Suc_le_eq)
  then have k: "k = l * 2 ^ 52 + (2 ^ 52 + r)"
    using div_mult_mod_eq [of k "2 ^ 52"] by (simp add: l_def r_def diff_mult_distrib)
  have r: "r < 2 ^ 52" by (simp add: r_def)
  have "mag_units k = (2 ^ 52 + r) * 2 ^ l"
    using r unfolding k by (intro mag_units_scaled) simp_all
  moreover have "mag_units (Suc k) = (2 ^ 52 + Suc r) * 2 ^ l"
  proof -
    have e: "Suc k = l * 2 ^ 52 + (2 ^ 52 + Suc r)" by (simp add: k)
    show ?thesis using r unfolding e by (intro mag_units_scaled) simp_all
  qed
  ultimately show ?thesis by simp
qed

lemma strict_mono_mag_units: "strict_mono mag_units"
  by (simp add: strict_mono_Suc_iff mag_units_Suc)

lemma mag_units_less_iff [simp]: "mag_units j < mag_units k \<longleftrightarrow> j < k"
  using strict_mono_less [OF strict_mono_mag_units] .

lemma mag_units_le_iff [simp]: "mag_units j \<le> mag_units k \<longleftrightarrow> j \<le> k"
  using strict_mono_less_eq [OF strict_mono_mag_units] .

lemma mag_units_eq_iff [simp]: "mag_units j = mag_units k \<longleftrightarrow> j = k"
  using strict_mono_eq [OF strict_mono_mag_units] .

lemma units_floor_bounds: "mag_units (units_floor n) \<le> n \<and> n < mag_units (Suc (units_floor n))"
proof (cases "n < 2 ^ 53")
  case True
  then show ?thesis using mag_units_Suc [of n] by (simp add: units_floor_def)
next
  case False
  define l where "l = log2 n - 52"
  have b: "2 ^ log2 n \<le> n" "n < 2 ^ Suc (log2 n)" using log2_bounds [of n] False by simp_all
  have "(2::nat) ^ 53 < 2 ^ Suc (log2 n)" using False b(2) by linarith
  then have "53 < Suc (log2 n)" by (simp only: power_strict_increasing_iff)
  then have l: "log2 n = 52 + l" "0 < l" by (simp_all add: l_def)
  define m where "m = n div 2 ^ l"
  have m: "2 ^ 52 \<le> m" "m < 2 ^ 53"
    using b l by (simp_all add: m_def power_add less_eq_div_iff_mult_less_eq div_less_iff_less_mult)
  have k: "units_floor n = l * 2 ^ 52 + m" using False by (simp add: units_floor_def l_def m_def Let_def)
  have "mag_units (units_floor n) = m * 2 ^ l" "mag_units (Suc (units_floor n)) = Suc m * 2 ^ l"
    using m mag_units_scaled [of m l] mag_units_scaled [of "Suc m" l] by (simp_all add: k)
  moreover have "m * 2 ^ l \<le> n" "n < Suc m * 2 ^ l"
    by (simp_all add: m_def div_times_less_eq_dividend dividend_less_div_times)
  ultimately show ?thesis by simp
qed

lemma le_units_floor_iff: "k \<le> units_floor n \<longleftrightarrow> mag_units k \<le> n"
proof
  assume "k \<le> units_floor n"
  then have "mag_units k \<le> mag_units (units_floor n)" by simp
  with units_floor_bounds [of n] show "mag_units k \<le> n" by linarith
next
  assume "mag_units k \<le> n"
  with units_floor_bounds [of n] have "mag_units k < mag_units (Suc (units_floor n))" by linarith
  then show "k \<le> units_floor n" by simp
qed

lemma units_floor_mag_units [simp]: "units_floor (mag_units k) = k"
proof (rule order_antisym)
  have "mag_units (units_floor (mag_units k)) \<le> mag_units k"
    using units_floor_bounds by blast
  then show "units_floor (mag_units k) \<le> k" by (simp only: mag_units_le_iff)
  show "k \<le> units_floor (mag_units k)" by (simp add: le_units_floor_iff)
qed

lemma units_floor_mono: "m \<le> n \<Longrightarrow> units_floor m \<le> units_floor n"
  using units_floor_bounds [of m] by (simp add: le_units_floor_iff)

lemma representable:
  assumes "m \<le> 2 ^ 53"
  shows "mag_units (units_floor (m * 2 ^ j)) = m * 2 ^ j"
proof (cases "m * 2 ^ j < 2 ^ 53")
  case True
  then show ?thesis by (simp add: units_floor_def)
next
  case big: False
  have "\<exists>k. mag_units k = m * 2 ^ j"
    using assms big
  proof (induction j arbitrary: m)
    case 0
    then have "m = 2 ^ 53" by simp
    then show ?case using mag_units_scaled [of "2 ^ 53" 0] by auto
  next
    case (Suc j)
    show ?case
    proof (cases "2 ^ 52 \<le> m")
      case True
      with Suc.prems(1) mag_units_scaled [of m "Suc j"] show ?thesis by blast
    next
      case False
      then have "2 * m \<le> 2 ^ 53" "\<not> 2 * m * 2 ^ j < 2 ^ 53" using Suc.prems(2) by (simp_all add: ac_simps)
      with Suc.IH obtain k where "mag_units k = 2 * m * 2 ^ j" by blast
      then show ?thesis by (auto simp: ac_simps)
    qed
  qed
  then obtain k where "mag_units k = m * 2 ^ j" by blast
  then show ?thesis by (metis units_floor_mag_units)
qed

section \<open>Rounding\<close>

lemma round_mag_bounds:
  "units_floor (num div den) \<le> round_mag num den \<and> round_mag num den \<le> Suc (units_floor (num div den))"
  by (simp add: round_mag_def Let_def)

lemma round_mag_exact [simp]: "0 < den \<Longrightarrow> round_mag (mag_units k * den) den = k"
  using mag_units_Suc [of k] by (simp add: round_mag_def Let_def)

lemma round_mag_exact1 [simp]: "round_mag (mag_units k) 1 = k" "round_mag (mag_units k) (Suc 0) = k"
  using round_mag_exact [of 1 k] by simp_all

lemma round_mag_mono:
  assumes d: "0 < d1" "0 < d2" and le: "n1 * d2 \<le> n2 * d1"
  shows "round_mag n1 d1 \<le> round_mag n2 d2"
proof -
  define k1 k2 where "k1 = units_floor (n1 div d1)" and "k2 = units_floor (n2 div d2)"
  have "(n1 div d1) * d1 * d2 \<le> n2 * d1"
    using le mult_le_mono1 [OF div_times_less_eq_dividend [of n1 d1], of d2] by linarith
  then have "(n1 div d1) * d2 \<le> n2" using d by (simp add: ac_simps)
  then have "n1 div d1 \<le> n2 div d2" using d by (simp add: less_eq_div_iff_mult_less_eq)
  then have k: "k1 \<le> k2" by (simp add: k1_def k2_def units_floor_mono)
  show ?thesis
  proof (cases "k1 = k2")
    case False
    with k have "Suc k1 \<le> k2" by simp
    then show ?thesis using round_mag_bounds [of n1 d1] round_mag_bounds [of n2 d2]
      by (simp add: k1_def k2_def)
  next
    case True
    define s where "s = mag_units k1 + mag_units (Suc k1)"
    have a: "2 * n1 < s * d1" if "2 * n2 < s * d2"
    proof -
      have "2 * n1 * d2 \<le> 2 * n2 * d1" using le by simp
      also have "\<dots> < s * d2 * d1" using that d by simp
      finally show ?thesis using d by (simp add: ac_simps)
    qed
    have b: "2 * n1 \<le> s * d1" if "2 * n2 \<le> s * d2"
    proof -
      have "2 * n1 * d2 \<le> 2 * n2 * d1" using le by simp
      also have "\<dots> \<le> s * d2 * d1" using that d by simp
      finally show ?thesis using d by (simp add: ac_simps)
    qed
    have r: "round_mag n1 d1 = (if 2 * n1 < s * d1 then k1 else if s * d1 < 2 * n1 then Suc k1
        else if even k1 then k1 else Suc k1)"
      "round_mag n2 d2 = (if 2 * n2 < s * d2 then k1 else if s * d2 < 2 * n2 then Suc k1
        else if even k1 then k1 else Suc k1)"
      using True by (simp_all add: round_mag_def Let_def s_def k1_def k2_def)
    from a b show ?thesis unfolding r by auto
  qed
qed

lemma round_mag_zero [simp]: "round_mag 0 den = 0"
  by (simp add: round_mag_def units_floor_def)

lemma round_mag_nearest:
  assumes "0 < den"
  shows "\<bar>int (mag_units (round_mag num den) * den) - int num\<bar>
       \<le> \<bar>int (mag_units j * den) - int num\<bar>"
proof -
  define k where "k = units_floor (num div den)"
  define lo hi where "lo = mag_units k * den" and "hi = mag_units (Suc k) * den"
  have "mag_units k \<le> num div den" "num div den < mag_units (Suc k)"
    using units_floor_bounds [of "num div den"] by (simp_all add: k_def)
  then have b: "lo \<le> num" "num < hi"
    using assms by (simp_all add: lo_def hi_def less_eq_div_iff_mult_less_eq div_less_iff_less_mult)
  define y where "y = mag_units j * den"
  have j: "y \<le> lo \<or> hi \<le> y"
    by (cases "j \<le> k") (simp_all add: lo_def hi_def y_def)
  have r: "mag_units (round_mag num den) * den =
      (if 2 * num < lo + hi then lo else if lo + hi < 2 * num then hi
       else if even k then lo else hi)"
    by (simp add: round_mag_def Let_def lo_def hi_def k_def distrib_right)
  from b j have "\<bar>int (mag_units (round_mag num den) * den) - int num\<bar> \<le> \<bar>int y - int num\<bar>"
    unfolding r by (simp only: split: if_split) arith
  then show ?thesis by (simp only: y_def)
qed

fun f64_wf :: "f64 \<Rightarrow> bool" where
  "f64_wf NaN = True"
| "f64_wf (F s k) = (k \<le> inf_mag)"

lemma f64_round_wf [simp]: "f64_wf (f64_round s n d)"
  by (simp add: f64_round_def)

lemma f64_round_not_nan [simp]: "\<not> f64_is_nan (f64_round s n d)"
  by (simp add: f64_round_def)

lemma f64_neg_wf [simp]: "f64_wf x \<Longrightarrow> f64_wf (f64_neg x)"
  by (cases x) simp_all

lemma f64_add_wf [simp]: "f64_wf x \<Longrightarrow> f64_wf y \<Longrightarrow> f64_wf (f64_add x y)"
  by (cases "(x, y)" rule: f64_add.cases) (auto simp: Let_def simp del: f64_units.simps)

lemma f64_mul_wf [simp]: "f64_wf x \<Longrightarrow> f64_wf y \<Longrightarrow> f64_wf (f64_mul x y)"
  by (cases "(x, y)" rule: f64_mul.cases) auto

lemma f64_div_wf [simp]: "f64_wf x \<Longrightarrow> f64_wf y \<Longrightarrow> f64_wf (f64_div x y)"
  by (cases "(x, y)" rule: f64_div.cases) auto

lemma unit_exp_pos [simp]: "0 < unit_exp" "unit_exp \<noteq> 0"
  by (simp_all add: unit_exp_def)

lemma inf_mag_pos [simp]: "0 < inf_mag" "\<not> inf_mag \<le> 0"
  by (simp_all add: inf_mag_def)

lemma mag_units_inf_mag: "mag_units inf_mag = 2 ^ 1024 * unit_exp"
proof -
  have "inf_mag = 2046 * 2 ^ 52 + 2 ^ 52" by (simp add: inf_mag_def)
  moreover have "mag_units (2046 * 2 ^ 52 + 2 ^ 52) = 2 ^ 52 * 2 ^ 2046"
    by (rule mag_units_scaled) simp_all
  ultimately have "mag_units inf_mag = 2 ^ 52 * 2 ^ 2046" by (simp only:)
  also have "\<dots> = 2 ^ (52 + 2046)" by (simp only: power_add)
  also have "52 + 2046 = (1024 + 1074 :: nat)" by simp
  also have "(2::nat) ^ (1024 + 1074) = 2 ^ 1024 * 2 ^ 1074" by (simp only: power_add)
  finally show ?thesis by (simp only: unit_exp_def)
qed

text \<open>The magnitude of a natural number.\<close>

definition nat_mag :: "nat \<Rightarrow> nat" where
  "nat_mag n = round_mag (n * unit_exp) 1"

lemma nat_mag_zero [simp]: "nat_mag 0 = 0"
  by (simp add: nat_mag_def)

lemma nat_mag_exact: "n \<le> 2 ^ 53 \<Longrightarrow> mag_units (nat_mag n) = n * unit_exp"
  using representable [of n 1074] round_mag_exact1(1) [of "units_floor (n * unit_exp)"]
  by (simp only: nat_mag_def unit_exp_def)

lemma nat_mag_pow2: "mag_units (nat_mag (2 ^ j)) = 2 ^ j * unit_exp"
proof -
  have "(2::nat) ^ j * unit_exp = 1 * 2 ^ (j + 1074)" by (simp only: unit_exp_def power_add mult_1)
  moreover have "mag_units (units_floor (1 * 2 ^ (j + 1074))) = 1 * 2 ^ (j + 1074)"
    by (rule representable) simp
  ultimately have "mag_units (units_floor (2 ^ j * unit_exp)) = 2 ^ j * unit_exp" by simp
  then show ?thesis
    using round_mag_exact1(1) [of "units_floor (2 ^ j * unit_exp)"] by (simp only: nat_mag_def)
qed

lemma nat_mag_mono: "m \<le> n \<Longrightarrow> nat_mag m \<le> nat_mag n"
  unfolding nat_mag_def by (rule round_mag_mono) simp_all

lemma nat_mag_finite: "n \<le> 2 ^ 1023 \<Longrightarrow> nat_mag n < inf_mag"
proof -
  assume "n \<le> 2 ^ 1023"
  then have "nat_mag n \<le> nat_mag (2 ^ 1023)" by (rule nat_mag_mono)
  moreover have "mag_units (nat_mag (2 ^ 1023)) < mag_units inf_mag"
    unfolding nat_mag_pow2 mag_units_inf_mag by (simp only: mult_less_cancel2 unit_exp_pos, simp)
  ultimately show ?thesis by simp
qed

lemma nat_mag_less_iff [simp]: 
  assumes "m \<le> 2 ^ 53" "n \<le> 2 ^ 53"
  shows "nat_mag m < nat_mag n \<longleftrightarrow> m < n"
  using assms mag_units_less_iff [of "nat_mag m" "nat_mag n"] by (simp add: nat_mag_exact del: mag_units_less_iff)

section \<open>Order\<close>

lemma f64_le_refl: "\<not> f64_is_nan x \<Longrightarrow> f64_le x x"
  by (simp add: f64_le_def)

lemma f64_le_trans: "f64_le x y \<Longrightarrow> f64_le y z \<Longrightarrow> f64_le x z"
  by (simp add: f64_le_def)

lemma f64_lt_le_trans: "f64_lt x y \<Longrightarrow> f64_le y z \<Longrightarrow> f64_lt x z"
  by (simp add: f64_le_def f64_lt_def)

lemma f64_le_lt_trans: "f64_le x y \<Longrightarrow> f64_lt y z \<Longrightarrow> f64_lt x z"
  by (simp add: f64_le_def f64_lt_def)

lemma f64_lt_irrefl [simp]: "\<not> f64_lt x x"
  by (simp add: f64_lt_def)

lemma f64_lt_imp_le: "f64_lt x y \<Longrightarrow> f64_le x y"
  by (simp add: f64_le_def f64_lt_def)

lemma f64_not_lt: "\<not> f64_is_nan x \<Longrightarrow> \<not> f64_is_nan y \<Longrightarrow> \<not> f64_lt x y \<longleftrightarrow> f64_le y x"
  by (auto simp: f64_le_def f64_lt_def)

lemma f64_not_le: "\<not> f64_is_nan x \<Longrightarrow> \<not> f64_is_nan y \<Longrightarrow> \<not> f64_le x y \<longleftrightarrow> f64_lt y x"
  by (auto simp: f64_le_def f64_lt_def)

lemma f64_le_NaN [simp]: "\<not> f64_le NaN y" "\<not> f64_le x NaN"
  by (simp_all add: f64_le_def)

lemma f64_lt_NaN [simp]: "\<not> f64_lt NaN y" "\<not> f64_lt x NaN"
  by (simp_all add: f64_lt_def)

lemma f64_le_F [simp]: "f64_le (F False j) (F False k) \<longleftrightarrow> j \<le> k"
  by (simp add: f64_le_def)

lemma f64_lt_F [simp]: "f64_lt (F False j) (F False k) \<longleftrightarrow> j < k"
  by (simp add: f64_lt_def)

section \<open>Natural numbers as floats\<close>

lemma f64_of_nat_F: "f64_of_nat n = F False (min inf_mag (nat_mag n))"
  by (simp add: f64_of_nat_def f64_of_ratio_def f64_round_def nat_mag_def)

lemma f64_of_nat_mag: "n \<le> 2 ^ 1023 \<Longrightarrow> f64_of_nat n = F False (nat_mag n)"
  using nat_mag_finite [of n] by (simp add: f64_of_nat_F)

lemma le_53_1023: "n \<le> 2 ^ 53 \<Longrightarrow> n \<le> (2 ^ 1023 :: nat)"
proof -
  have "(2::nat) ^ 53 \<le> 2 ^ 1023" by (rule power_increasing) simp_all
  then show "n \<le> 2 ^ 53 \<Longrightarrow> n \<le> (2 ^ 1023 :: nat)" by (rule order_trans [rotated])
qed

lemma f64_of_nat_small: "n \<le> 2 ^ 53 \<Longrightarrow> f64_of_nat n = F False (nat_mag n)"
  by (rule f64_of_nat_mag) (rule le_53_1023)

lemma nat_mag_fin_small: "n \<le> 2 ^ 53 \<Longrightarrow> nat_mag n < inf_mag"
  by (rule nat_mag_finite) (rule le_53_1023)

lemma f64_of_nat_not_nan [simp]: "\<not> f64_is_nan (f64_of_nat n)"
  by (simp add: f64_of_nat_F)

lemma f64_of_nat_wf [simp]: "f64_wf (f64_of_nat n)"
  by (simp add: f64_of_nat_F)

lemma f64_of_nat_0: "f64_of_nat 0 = F False 0"
  by (simp add: f64_of_nat_F)

lemma f64_of_nat_mono: "m \<le> n \<Longrightarrow> f64_le (f64_of_nat m) (f64_of_nat n)"
  using nat_mag_mono [of m n] by (simp add: f64_of_nat_F min_le_iff_disj)

lemma f64_of_nat_nonneg [simp]: "f64_le (f64_of_nat 0) (f64_of_nat n)"
  by (simp add: f64_of_nat_F)

lemma f64_of_nat_lt_iff [simp]:
  "m \<le> 2 ^ 53 \<Longrightarrow> n \<le> 2 ^ 53 \<Longrightarrow> f64_lt (f64_of_nat m) (f64_of_nat n) \<longleftrightarrow> m < n"
  by (simp only: f64_of_nat_small f64_lt_F nat_mag_less_iff)

lemma f64_of_nat_le_iff [simp]:
  "m \<le> 2 ^ 53 \<Longrightarrow> n \<le> 2 ^ 53 \<Longrightarrow> f64_le (f64_of_nat m) (f64_of_nat n) \<longleftrightarrow> m \<le> n"
  using f64_of_nat_lt_iff [of n m] f64_not_le [of "f64_of_nat m" "f64_of_nat n"] by auto

lemma f64_of_nat_inject [simp]:
  "m \<le> 2 ^ 53 \<Longrightarrow> n \<le> 2 ^ 53 \<Longrightarrow> f64_of_nat m = f64_of_nat n \<longleftrightarrow> m = n"
  by (metis f64_lt_irrefl f64_of_nat_lt_iff linorder_neqE_nat)

lemma f64_round_nat [simp]: "f64_round False (n * unit_exp) 1 = f64_of_nat n"
  by (simp add: f64_of_nat_def f64_of_ratio_def)

lemma nat_mag_eq_0_iff [simp]: "nat_mag n = 0 \<longleftrightarrow> n = 0"
proof
  assume z: "nat_mag n = 0"
  show "n = 0"
  proof (rule ccontr)
    assume "n \<noteq> 0"
    then have "nat_mag 1 \<le> nat_mag n" by (intro nat_mag_mono) simp
    moreover have "nat_mag 0 < nat_mag 1" by (rule nat_mag_less_iff [THEN iffD2]) simp_all
    ultimately show False using z by simp
  qed
qed simp

lemma f64_of_nat_pos_iff [simp]: "f64_lt (f64_of_nat 0) (f64_of_nat n) \<longleftrightarrow> 0 < n"
  by (simp add: f64_of_nat_F) (simp add: neq0_conv [symmetric] del: neq0_conv)

lemma f64_add_of_nat [simp]:
  assumes "m + n \<le> 2 ^ 53"
  shows "f64_add (f64_of_nat m) (f64_of_nat n) = f64_of_nat (m + n)"
proof -
  have b: "m \<le> 2 ^ 53" "n \<le> 2 ^ 53" using assms by simp_all
  define z where "z = (m + n) * unit_exp"
  have z: "f64_units (F False (nat_mag m)) + f64_units (F False (nat_mag n)) = int z"
    using b by (simp add: nat_mag_exact z_def algebra_simps)
  show ?thesis
  proof (cases "m + n = 0")
    case True
    then show ?thesis by (simp add: f64_of_nat_0)
  next
    case False
    then have "z \<noteq> 0" by (simp add: z_def)
    then have "f64_add (F False (nat_mag m)) (F False (nat_mag n)) = f64_round False z 1"
      using nat_mag_fin_small [OF b(1)] nat_mag_fin_small [OF b(2)]
      by (simp add: Let_def z del: f64_units.simps)
    then show ?thesis
      by (simp only: f64_of_nat_small [OF b(1)] f64_of_nat_small [OF b(2)] z_def f64_round_nat)
  qed
qed

lemma f64_mul_of_nat [simp]:
  assumes "m \<le> 2 ^ 53" "n \<le> 2 ^ 53"
  shows "f64_mul (f64_of_nat m) (f64_of_nat n) = f64_of_nat (m * n)"
proof -
  have "round_mag (mag_units (nat_mag m) * mag_units (nat_mag n)) unit_exp = nat_mag (m * n)"
    unfolding nat_mag_def [of "m * n"]
    by (intro order_antisym round_mag_mono)
      (simp_all add: nat_mag_exact [OF assms(1)] nat_mag_exact [OF assms(2)] ac_simps)
  then show ?thesis
    using nat_mag_fin_small [OF assms(1)] nat_mag_fin_small [OF assms(2)]
    by (simp add: f64_of_nat_small [OF assms(1)] f64_of_nat_small [OF assms(2)]
        f64_of_nat_F [of "m * n"] f64_round_def)
qed

lemma f64_div_of_nat:
  assumes "m \<le> 2 ^ 53" "n \<le> 2 ^ 53" "0 < n"
  shows "f64_div (f64_of_nat m) (f64_of_nat n) = f64_of_ratio m n"
proof -
  have "round_mag (mag_units (nat_mag m) * unit_exp) (mag_units (nat_mag n)) = round_mag (m * unit_exp) n"
    by (intro order_antisym round_mag_mono)
      (simp_all add: nat_mag_exact [OF assms(1)] nat_mag_exact [OF assms(2)] assms(3-) ac_simps)
  then show ?thesis
    using nat_mag_fin_small [OF assms(1)] nat_mag_fin_small [OF assms(2)] assms
    by (simp add: f64_of_nat_small [OF assms(1)] f64_of_nat_small [OF assms(2)]
        f64_of_ratio_def f64_round_def)
qed

lemma f64_of_ratio_nat [simp]: "0 < n \<Longrightarrow> f64_of_ratio (q * n) n = f64_of_nat q"
proof -
  assume "0 < n"
  then have "round_mag (q * n * unit_exp) n = round_mag (q * unit_exp) 1"
    by (intro order_antisym round_mag_mono) (simp_all add: ac_simps)
  then show ?thesis by (simp add: f64_of_nat_def f64_of_ratio_def f64_round_def)
qed

lemma f64_of_ratio_mono:
  "0 < b \<Longrightarrow> 0 < d \<Longrightarrow> a * d \<le> c * b \<Longrightarrow> f64_le (f64_of_ratio a b) (f64_of_ratio c d)"
proof -
  assume h: "0 < b" "0 < d" "a * d \<le> c * b"
  have "(a * unit_exp) * d \<le> (c * unit_exp) * b"
    using mult_le_mono1 [OF h(3), of unit_exp] by (simp only: ac_simps)
  then have "round_mag (a * unit_exp) b \<le> round_mag (c * unit_exp) d"
    using h by (intro round_mag_mono)
  then show ?thesis by (simp add: f64_of_ratio_def f64_round_def min_le_iff_disj)
qed

section \<open>Rounding between bounds\<close>

lemma round_mag_ge: "0 < den \<Longrightarrow> mag_units k * den \<le> num \<Longrightarrow> k \<le> round_mag num den"
  using round_mag_bounds [of num den] le_units_floor_iff [of k "num div den"]
  by (simp add: less_eq_div_iff_mult_less_eq)

lemma round_mag_le: "0 < den \<Longrightarrow> num \<le> mag_units k * den \<Longrightarrow> round_mag num den \<le> k"
  using round_mag_mono [of den den num "mag_units k * den"] by simp

lemma unit_exp_split: "unit_exp = 2 ^ 53 * 2 ^ 1021"
  by (simp only: unit_exp_def power_add [symmetric]) simp

text \<open>The float nearest to a ratio in \<open>[1/2, 1)\<close> that lies in the lower half of its gap.\<close>

lemma ratio_mag:
  assumes "2 ^ 52 \<le> m" "m < 2 ^ 53" "0 < d" "m * d \<le> n * 2 ^ 53" "2 * (n * 2 ^ 53) < (2 * m + 1) * d"
  shows "round_mag (n * unit_exp) d = 1021 * 2 ^ 52 + m"
proof -
  let ?k = "1021 * 2 ^ 52 + m"
  have mk: "mag_units ?k = m * 2 ^ 1021" using assms by (intro mag_units_scaled) simp_all
  have "mag_units (1021 * 2 ^ 52 + Suc m) = Suc m * 2 ^ 1021" using assms by (intro mag_units_scaled) simp_all
  then have ms: "mag_units (Suc ?k) = Suc m * 2 ^ 1021" by simp
  have nu: "n * unit_exp = (n * 2 ^ 53) * 2 ^ 1021" by (simp only: unit_exp_split mult.assoc)
  have lo: "m * 2 ^ 1021 \<le> n * unit_exp div d"
  proof -
    have "(m * d) * 2 ^ 1021 \<le> (n * 2 ^ 53) * 2 ^ 1021" using assms(4) by (rule mult_le_mono1)
    then show ?thesis using assms(3) unfolding nu by (simp only: less_eq_div_iff_mult_less_eq ac_simps)
  qed
  have hi: "n * unit_exp div d < Suc m * 2 ^ 1021"
  proof -
    have "n * 2 ^ 53 < Suc m * d" using assms(5) by (simp add: add_mult_distrib)
    then have "(n * 2 ^ 53) * 2 ^ 1021 < (Suc m * d) * 2 ^ 1021" by (rule mult_less_mono1) simp
    then show ?thesis using assms(3) unfolding nu by (simp only: div_less_iff_less_mult ac_simps)
  qed
  have fl: "units_floor (n * unit_exp div d) = ?k"
  proof (rule order_antisym)
    have "mag_units (units_floor (n * unit_exp div d)) < mag_units (Suc ?k)"
      using units_floor_bounds [of "n * unit_exp div d"] hi unfolding ms by linarith
    then show "units_floor (n * unit_exp div d) \<le> ?k" by (simp only: mag_units_less_iff less_Suc_eq_le)
    show "?k \<le> units_floor (n * unit_exp div d)" using lo by (simp only: le_units_floor_iff mk)
  qed
  have "2 * (n * unit_exp) < (mag_units ?k + mag_units (Suc ?k)) * d"
  proof -
    have "(2 * (n * 2 ^ 53)) * 2 ^ 1021 < ((2 * m + 1) * d) * 2 ^ 1021" using assms(5) by (rule mult_less_mono1) simp
    moreover have "((2 * m + 1) * d) * 2 ^ 1021 = (m * 2 ^ 1021 + Suc m * 2 ^ 1021) * d" by (simp add: algebra_simps)
    ultimately show ?thesis unfolding mk ms nu by (simp only: mult.assoc)
  qed
  then show ?thesis by (simp only: round_mag_def fl Let_def if_True)
qed

end
