(* ===== verification/Profiles.thy ===== *)
theory Profiles
  imports Float64
begin

text \<open>
  \<open>pkg/profiles\<close>: the metric types and the built-in scaling profiles.  A \<open>MetricType\<close> is
  a string type in the source, so unknown values exist and are rejected by
  \<open>ValidMetricType\<close>.
\<close>

section \<open>Metric types\<close>

type_synonym metric_type = string

definition MetricGPUUtilization :: metric_type where "MetricGPUUtilization = ''gpu_utilization''"
definition MetricMemoryUtilization :: metric_type where "MetricMemoryUtilization = ''memory_utilization''"
definition MetricMemoryUsedMiB :: metric_type where "MetricMemoryUsedMiB = ''memory_used_mib''"
definition MetricMemoryUsedPercent :: metric_type where "MetricMemoryUsedPercent = ''memory_used_percent''"
definition MetricTemperature :: metric_type where "MetricTemperature = ''temperature''"
definition MetricPowerDraw :: metric_type where "MetricPowerDraw = ''power_draw''"
definition MetricPCIeTxKBps :: metric_type where "MetricPCIeTxKBps = ''pcie_tx_kbps''"
definition MetricPCIeRxKBps :: metric_type where "MetricPCIeRxKBps = ''pcie_rx_kbps''"
definition MetricNVLinkTxMBps :: metric_type where "MetricNVLinkTxMBps = ''nvlink_tx_mbps''"
definition MetricNVLinkRxMBps :: metric_type where "MetricNVLinkRxMBps = ''nvlink_rx_mbps''"
definition MetricVLLMQueueDepth :: metric_type where "MetricVLLMQueueDepth = ''vllm_queue_depth''"
definition MetricVLLMKVCacheUsage :: metric_type where "MetricVLLMKVCacheUsage = ''vllm_kv_cache_usage''"
definition MetricTritonQueueWaitMs :: metric_type where "MetricTritonQueueWaitMs = ''triton_queue_wait_ms''"
definition MetricTritonRequestRate :: metric_type where "MetricTritonRequestRate = ''triton_request_rate''"

lemmas metric_type_defs =
  MetricGPUUtilization_def MetricMemoryUtilization_def MetricMemoryUsedMiB_def
  MetricMemoryUsedPercent_def MetricTemperature_def MetricPowerDraw_def
  MetricPCIeTxKBps_def MetricPCIeRxKBps_def MetricNVLinkTxMBps_def MetricNVLinkRxMBps_def
  MetricVLLMQueueDepth_def MetricVLLMKVCacheUsage_def
  MetricTritonQueueWaitMs_def MetricTritonRequestRate_def

definition AllMetricTypes :: "metric_type list" where
  "AllMetricTypes =
     [MetricGPUUtilization, MetricMemoryUtilization, MetricMemoryUsedMiB,
      MetricMemoryUsedPercent, MetricTemperature, MetricPowerDraw,
      MetricPCIeTxKBps, MetricPCIeRxKBps, MetricNVLinkTxMBps, MetricNVLinkRxMBps,
      MetricVLLMQueueDepth, MetricVLLMKVCacheUsage,
      MetricTritonQueueWaitMs, MetricTritonRequestRate]"

definition IsVLLMMetric :: "metric_type \<Rightarrow> bool" where
  "IsVLLMMetric t \<longleftrightarrow> t = MetricVLLMQueueDepth \<or> t = MetricVLLMKVCacheUsage"

definition IsTritonMetric :: "metric_type \<Rightarrow> bool" where
  "IsTritonMetric t \<longleftrightarrow> t = MetricTritonQueueWaitMs \<or> t = MetricTritonRequestRate"

definition ValidMetricType :: "metric_type \<Rightarrow> bool" where
  "ValidMetricType t \<longleftrightarrow>
     t = MetricGPUUtilization \<or> t = MetricMemoryUtilization \<or> t = MetricMemoryUsedMiB \<or>
     t = MetricMemoryUsedPercent \<or> t = MetricTemperature \<or> t = MetricPowerDraw \<or>
     t = MetricPCIeTxKBps \<or> t = MetricPCIeRxKBps \<or> t = MetricNVLinkTxMBps \<or>
     t = MetricNVLinkRxMBps \<or> t = MetricVLLMQueueDepth \<or> t = MetricVLLMKVCacheUsage \<or>
     t = MetricTritonQueueWaitMs \<or> t = MetricTritonRequestRate"

section \<open>Profiles\<close>

record profile =
  Name :: string
  MetricName :: string
  Description :: string
  TargetValue :: f64
  ActivationValue :: f64
  MetricType :: metric_type
  CooldownSeconds :: int
  ScaleUpStabilize :: int
  ScaleDownStabilize :: int

text \<open>The UTF-8 encoding of the em dash the descriptions contain.\<close>

definition em_dash :: string where
  "em_dash = [char_of (226::nat), char_of (128::nat), char_of (148::nat)]"

text \<open>The map \<open>builtinProfiles\<close>, as its list of keys and values.\<close>

definition builtin_profiles :: "(string \<times> profile) list" where
  "builtin_profiles =
    [(''distributed-training'',
      \<lparr>Name = ''distributed-training'', MetricName = ''keda_gpu_distributed_training'',
       Description = ''Data-parallel training on NVLink systems'',
       TargetValue = f64_of_nat 50000, ActivationValue = f64_of_nat 5000,
       MetricType = MetricNVLinkTxMBps,
       CooldownSeconds = 300, ScaleUpStabilize = 60, ScaleDownStabilize = 300\<rparr>),
     (''vllm-inference'',
      \<lparr>Name = ''vllm-inference'', MetricName = ''keda_gpu_vllm_inference'',
       Description = ''vLLM / LLM serving '' @ em_dash @ '' memory-based, supports scale-to-zero'',
       TargetValue = f64_of_nat 80, ActivationValue = f64_of_nat 5,
       MetricType = MetricMemoryUsedPercent,
       CooldownSeconds = 60, ScaleUpStabilize = 15, ScaleDownStabilize = 120\<rparr>),
     (''vllm-queue-depth'',
      \<lparr>Name = ''vllm-queue-depth'', MetricName = ''keda_gpu_vllm_queue_depth'',
       Description = ''vLLM queue depth '' @ em_dash @ '' scale on pending inference requests'',
       TargetValue = f64_of_nat 5, ActivationValue = f64_of_nat 1,
       MetricType = MetricVLLMQueueDepth,
       CooldownSeconds = 30, ScaleUpStabilize = 10, ScaleDownStabilize = 60\<rparr>),
     (''triton-inference'',
      \<lparr>Name = ''triton-inference'', MetricName = ''keda_gpu_triton_inference'',
       Description = ''Triton Inference Server '' @ em_dash @ '' GPU compute utilization'',
       TargetValue = f64_of_nat 75, ActivationValue = f64_of_nat 10,
       MetricType = MetricGPUUtilization,
       CooldownSeconds = 30, ScaleUpStabilize = 10, ScaleDownStabilize = 90\<rparr>),
     (''triton-queue-wait'',
      \<lparr>Name = ''triton-queue-wait'', MetricName = ''keda_gpu_triton_queue_wait'',
       Description = ''Triton Inference Server '' @ em_dash @
         '' scale on average inference queue wait time via the engine API'',
       TargetValue = f64_of_nat 50, ActivationValue = f64_of_nat 5,
       MetricType = MetricTritonQueueWaitMs,
       CooldownSeconds = 30, ScaleUpStabilize = 10, ScaleDownStabilize = 60\<rparr>),
     (''triton-request-rate'',
      \<lparr>Name = ''triton-request-rate'', MetricName = ''keda_gpu_triton_request_rate'',
       Description = ''Triton Inference Server '' @ em_dash @
         '' scale on inference request rate via the engine API'',
       TargetValue = f64_of_nat 50, ActivationValue = f64_of_nat 1,
       MetricType = MetricTritonRequestRate,
       CooldownSeconds = 30, ScaleUpStabilize = 10, ScaleDownStabilize = 90\<rparr>),
     (''training'',
      \<lparr>Name = ''training'', MetricName = ''keda_gpu_training'',
       Description = ''Training jobs '' @ em_dash @ '' high GPU util target, no scale-to-zero'',
       TargetValue = f64_of_nat 90, ActivationValue = f64_of_nat 0,
       MetricType = MetricGPUUtilization,
       CooldownSeconds = 300, ScaleUpStabilize = 60, ScaleDownStabilize = 300\<rparr>),
     (''batch'',
      \<lparr>Name = ''batch'', MetricName = ''keda_gpu_batch'',
       Description = ''Batch inference '' @ em_dash @ '' aggressive scale-down and scale-to-zero'',
       TargetValue = f64_of_nat 70, ActivationValue = f64_of_nat 1,
       MetricType = MetricMemoryUsedPercent,
       CooldownSeconds = 30, ScaleUpStabilize = 5, ScaleDownStabilize = 60\<rparr>),
     (''ollama'',
      \<lparr>Name = ''ollama'', MetricName = ''keda_gpu_ollama'',
       Description = ''Ollama LLM serving '' @ em_dash @ '' memory-based, supports scale-to-zero'',
       TargetValue = f64_of_nat 70, ActivationValue = f64_of_nat 3,
       MetricType = MetricMemoryUsedPercent,
       CooldownSeconds = 60, ScaleUpStabilize = 10, ScaleDownStabilize = 120\<rparr>),
     (''tgi-inference'',
      \<lparr>Name = ''tgi-inference'', MetricName = ''keda_gpu_tgi_inference'',
       Description = ''HuggingFace TGI serving '' @ em_dash @ '' memory-based, supports scale-to-zero'',
       TargetValue = f64_of_nat 75, ActivationValue = f64_of_nat 5,
       MetricType = MetricMemoryUsedPercent,
       CooldownSeconds = 45, ScaleUpStabilize = 15, ScaleDownStabilize = 90\<rparr>)]"

text \<open>\<open>Get\<close>: the map lookup, \<open>None\<close> for \<open>ok = false\<close>.\<close>

definition Get :: "string \<Rightarrow> profile option" where
  "Get name = map_of builtin_profiles name"

text \<open>\<open>List\<close>: Go's map iteration order is not fixed; this is one of the orders.\<close>

definition List_profiles :: "string list" where
  "List_profiles = map fst builtin_profiles"

section \<open>Facts\<close>

lemma metric_types_distinct: "distinct AllMetricTypes"
  by (simp add: AllMetricTypes_def metric_type_defs)

lemma profile_names_distinct: "distinct (map fst builtin_profiles)"
  by (simp add: builtin_profiles_def)

lemma Get_Some_iff: "Get n = Some p \<longleftrightarrow> (n, p) \<in> set builtin_profiles"
  by (simp add: Get_def profile_names_distinct)

lemma Get_None_iff: "Get n = None \<longleftrightarrow> n \<notin> set List_profiles"
  by (simp add: Get_def List_profiles_def map_of_eq_None_iff)

lemma valid_metric_type_iff: "ValidMetricType t \<longleftrightarrow> t \<in> set AllMetricTypes"
  by (simp add: ValidMetricType_def AllMetricTypes_def)

lemma engine_metrics_disjoint: "\<not> (IsVLLMMetric t \<and> IsTritonMetric t)"
  by (auto simp: IsVLLMMetric_def IsTritonMetric_def metric_type_defs)

lemma builtin_profile_ok:
  "list_all (\<lambda>(n, p). Name p = n \<and> ValidMetricType (MetricType p) \<and>
     f64_le (f64_of_nat 0) (ActivationValue p) \<and> f64_lt (ActivationValue p) (TargetValue p))
   builtin_profiles"
  by (simp add: builtin_profiles_def ValidMetricType_def)

end
