(* ===== verification/GoStrings.thy ===== *)
theory GoStrings
  imports Prelude
begin

text \<open>
  The functions of Go's \<open>strings\<close> and \<open>bufio\<close> packages that the program calls.  A Go
  string is a byte string, so a \<open>char\<close> is a byte and a character beyond ASCII is its
  UTF-8 encoding.
\<close>

definition byte :: "char \<Rightarrow> nat" where "byte c = of_char c"

definition is_digit :: "char \<Rightarrow> bool" where
  "is_digit c \<longleftrightarrow> 48 \<le> byte c \<and> byte c \<le> 57"

definition is_alpha :: "char \<Rightarrow> bool" where
  "is_alpha c \<longleftrightarrow> 65 \<le> byte c \<and> byte c \<le> 90 \<or> 97 \<le> byte c \<and> byte c \<le> 122"

text \<open>\<open>strings.IndexByte\<close>; \<open>None\<close> is -1.\<close>

fun index_byte :: "string \<Rightarrow> char \<Rightarrow> nat option" where
  "index_byte [] c = None"
| "index_byte (x # xs) c = (if x = c then Some 0 else map_option Suc (index_byte xs c))"

definition has_prefix :: "string \<Rightarrow> string \<Rightarrow> bool" where
  "has_prefix s p \<longleftrightarrow> take (length p) s = p"

definition trim_prefix :: "string \<Rightarrow> string \<Rightarrow> string" where
  "trim_prefix s p = (if has_prefix s p then drop (length p) s else s)"

text \<open>\<open>strings.Split\<close> with a one-byte separator: always at least one part.\<close>

fun split_byte :: "char \<Rightarrow> string \<Rightarrow> string list" where
  "split_byte c [] = [[]]"
| "split_byte c (x # xs) =
     (if x = c then [] # split_byte c xs
      else (case split_byte c xs of [] \<Rightarrow> [[x]] | p # ps \<Rightarrow> (x # p) # ps))"

section \<open>White space\<close>

text \<open>
  \<open>unicode.IsSpace\<close> on the rune a byte string starts with: the number of bytes of that
  rune if it is white space, 0 otherwise.  None of the lead bytes C2, E1, E2, E3 can
  stand inside another rune, so scanning byte by byte finds the same runes as Go's
  decoding does, also in invalid UTF-8.
\<close>

definition space_len :: "string \<Rightarrow> nat" where
  "space_len s = (case map byte (take 3 s) of
     [] \<Rightarrow> 0
   | b # bs \<Rightarrow>
       if b = 32 \<or> 9 \<le> b \<and> b \<le> 13 then 1
       else case bs of
         [] \<Rightarrow> 0
       | c # cs \<Rightarrow>
           if b = 194 \<and> (c = 133 \<or> c = 160) then 2
           else case cs of
             [] \<Rightarrow> 0
           | d # _ \<Rightarrow>
               if b = 225 \<and> c = 154 \<and> d = 128
                  \<or> b = 226 \<and> c = 128 \<and> (128 \<le> d \<and> d \<le> 138 \<or> d = 168 \<or> d = 169 \<or> d = 175)
                  \<or> b = 226 \<and> c = 129 \<and> d = 159
                  \<or> b = 227 \<and> c = 128 \<and> d = 128
               then 3 else 0)"

lemma space_len_Nil [simp]: "space_len [] = 0"
  by (simp add: space_len_def)

lemma space_len_le: "space_len s \<le> length s"
  by (cases s rule: remdups_adj.cases; cases "tl (tl s)")
    (auto simp: space_len_def split: list.splits if_splits)

text \<open>\<open>strings.Fields\<close>: \<open>cur\<close> is the word being read.\<close>

function str_fields_from :: "string \<Rightarrow> string \<Rightarrow> string list" where
  "str_fields_from cur s =
     (if s = [] then (if cur = [] then [] else [cur])
      else if space_len s = 0 then str_fields_from (cur @ [hd s]) (tl s)
      else (if cur = [] then [] else [cur]) @ str_fields_from [] (drop (space_len s) s))"
  by pat_completeness auto
termination
  by (relation "measure (\<lambda>(cur, s). length s)") auto

declare str_fields_from.simps [simp del]

definition str_fields :: "string \<Rightarrow> string list" where
  "str_fields s = str_fields_from [] s"

text \<open>\<open>strings.TrimSpace\<close>: white space runes dropped at both ends.\<close>

function trim_left :: "string \<Rightarrow> string" where
  "trim_left s = (if space_len s = 0 then s else trim_left (drop (space_len s) s))"
  by pat_completeness auto
termination
proof (relation "measure length", goal_cases)
  case (2 s)
  then show ?case using space_len_le [of s] by (cases s) auto
qed simp

declare trim_left.simps [simp del]

definition space_suffix_len :: "string \<Rightarrow> nat" where
  "space_suffix_len s =
     (if 1 \<le> length s \<and> space_len (drop (length s - 1) s) = 1 then 1
      else if 2 \<le> length s \<and> space_len (drop (length s - 2) s) = 2 then 2
      else if 3 \<le> length s \<and> space_len (drop (length s - 3) s) = 3 then 3
      else 0)"

lemma space_suffix_len_le: "space_suffix_len s \<le> length s"
  by (simp add: space_suffix_len_def)

function trim_right :: "string \<Rightarrow> string" where
  "trim_right s =
     (if space_suffix_len s = 0 then s else trim_right (take (length s - space_suffix_len s) s))"
  by pat_completeness auto
termination
proof (relation "measure length", goal_cases)
  case (2 s)
  then show ?case using space_suffix_len_le [of s] by simp
qed simp

declare trim_right.simps [simp del]

definition trim_space :: "string \<Rightarrow> string" where
  "trim_space s = trim_right (trim_left s)"

section \<open>Case\<close>

text \<open>
  \<open>strings.ToLower\<close>, used for comparing with ASCII literals only.  ASCII letters are
  mapped; so are the two runes beyond ASCII whose lower case is ASCII (U+0130, C4 B0, to
  \<open>i\<close>; U+212A, E2 84 AA, to \<open>k\<close>).  Other bytes are kept, which is Go's result on ASCII;
  a string Go maps to something else beyond ASCII is not an ASCII string either way.
\<close>

definition lower_byte :: "char \<Rightarrow> char" where
  "lower_byte c = (if 65 \<le> byte c \<and> byte c \<le> 90 then char_of (byte c + 32) else c)"

fun to_lower :: "string \<Rightarrow> string" where
  "to_lower (a # b # c # s) =
     (if byte a = 226 \<and> byte b = 132 \<and> byte c = 170 then CHR ''k'' # to_lower s
      else if byte a = 196 \<and> byte b = 176 then CHR ''i'' # to_lower (c # s)
      else lower_byte a # to_lower (b # c # s))"
| "to_lower [a, b] =
     (if byte a = 196 \<and> byte b = 176 then ''i'' else [lower_byte a, lower_byte b])"
| "to_lower [a] = [lower_byte a]"
| "to_lower [] = []"

section \<open>Lines\<close>

text \<open>
  \<open>bufio.Scanner\<close> with \<open>ScanLines\<close>: the token of a line without its newline and one
  trailing carriage return.  A line of \<open>max_token\<close> bytes or more fills the buffer before a
  newline or the end of the input is seen and stops the scan with \<open>ErrTooLong\<close>; an error
  of the reader ends the input and is reported after the last token.
\<close>

definition max_token :: nat where "max_token = 65536"

datatype scan_error = ErrTooLong | ErrRead string

definition drop_cr :: "string \<Rightarrow> string" where
  "drop_cr l = (if l \<noteq> [] \<and> byte (last l) = 13 then butlast l else l)"

text \<open>The tokens of a list of newline-separated pieces, the last one ended by the input's end.\<close>

fun scan_pieces :: "string list \<Rightarrow> string list \<times> bool" where
  "scan_pieces [] = ([], False)"
| "scan_pieces [l] =
     (if max_token \<le> length l then ([], True) else if l = [] then ([], False) else ([drop_cr l], False))"
| "scan_pieces (l # m # ls) =
     (if max_token \<le> length l then ([], True)
      else (let (ts, e) = scan_pieces (m # ls) in (drop_cr l # ts, e)))"

text \<open>The lines a scanner returns, and what its \<open>Err\<close> method returns afterwards.\<close>

definition scan_lines :: "string \<Rightarrow> string option \<Rightarrow> string list \<times> scan_error option" where
  "scan_lines body rerr =
     (let (ts, too_long) = scan_pieces (split_byte (char_of (10::nat)) body)
      in (ts, if too_long then Some ErrTooLong else map_option ErrRead rerr))"

section \<open>Facts\<close>

text \<open>Printable ASCII other than the space: bytes that no white space rune contains.\<close>

definition plain :: "char \<Rightarrow> bool" where
  "plain c \<longleftrightarrow> 33 \<le> byte c \<and> byte c \<le> 126"

lemma space_len_plain: "plain c \<Longrightarrow> space_len (c # s) = 0"
  by (simp add: space_len_def plain_def split: list.split)

lemma str_fields_from_word:
  "list_all plain w \<Longrightarrow> str_fields_from cur (w @ s) = str_fields_from (cur @ w) s"
proof (induction w arbitrary: cur)
  case (Cons c w)
  then show ?case using str_fields_from.simps [of cur "c # w @ s"] by (simp add: space_len_plain)
qed simp

lemma space_len_blank: "space_len (CHR '' '' # s) = 1"
  by (simp add: space_len_def byte_def)

lemma str_fields_two:
  assumes "list_all plain v" "v \<noteq> []" "list_all plain w" "w \<noteq> []"
  shows "str_fields (v @ CHR '' '' # w) = [v, w]"
proof -
  have "str_fields_from [] w = [w]"
    using str_fields_from_word [OF assms(3), of "[]" "[]"] assms(4) by (simp add: str_fields_from.simps [of w])
  then show ?thesis
    using str_fields_from_word [OF assms(1), of "[]" "CHR '' '' # w"] assms(2)
    by (simp add: str_fields_def str_fields_from.simps [of v] space_len_blank)
qed

lemma index_byte_append [simp]: "c \<notin> set xs \<Longrightarrow> index_byte (xs @ c # ys) c = Some (length xs)"
  by (induction xs) auto

lemma index_byte_None [simp]: "index_byte xs c = None \<longleftrightarrow> c \<notin> set xs"
  by (induction xs) auto

lemma digit_plain: "is_digit c \<Longrightarrow> plain c"
  by (simp add: is_digit_def plain_def)

lemma split_byte_append [simp]: "c \<notin> set xs \<Longrightarrow> split_byte c (xs @ c # ys) = xs # split_byte c ys"
  by (induction xs) (auto split: list.split)

lemma split_byte_single [simp]: "c \<notin> set xs \<Longrightarrow> split_byte c xs = [xs]"
  by (induction xs) auto

end
