(* ===== verification/GoNet.thy ===== *)
theory GoNet
  imports GoStrings
begin

text \<open>
  What the endpoint guard uses of \<open>net/url\<close> and \<open>net\<close>: \<open>url.Parse\<close> with the \<open>Scheme\<close> and
  \<open>Hostname()\<close> of its result, and \<open>net.ParseIP\<close> with the two link-local predicates, as in
  the Go 1.26 the module asks for.
\<close>

section \<open>Percent-encoding\<close>

definition is_hex :: "char \<Rightarrow> bool" where
  "is_hex c \<longleftrightarrow> is_digit c \<or> 97 \<le> byte (lower_byte c) \<and> byte (lower_byte c) \<le> 102"

definition unhex :: "char \<Rightarrow> nat" where
  "unhex c = (if is_digit c then byte c - 48 else byte (lower_byte c) - 87)"

datatype url_error =
    CtlByte | MissingProtocolScheme | FirstSegmentColon | InvalidUserinfo
  | EscapeError string | InvalidHostByte char | MissingBracket | InvalidIPLiteral
  | InvalidPort string | InvalidHost string

datatype encoding = EncHost | EncZone | EncOther

text \<open>\<open>shouldEscape(c, encodeHost)\<close>: letters, digits and these marks stand for themselves.\<close>

definition host_byte_ok :: "char \<Rightarrow> bool" where
  "host_byte_ok c \<longleftrightarrow> is_alpha c \<or> is_digit c \<or>
     c \<in> set ''!$&()*+,;=:[]<>-_.~'' \<or> byte c = 34 \<or> byte c = 39"

definition escape_ok :: "encoding \<Rightarrow> char \<Rightarrow> char \<Rightarrow> bool" where
  "escape_ok mode a b \<longleftrightarrow>
     (let v = 16 * unhex a + unhex b in
      case mode of
        EncHost \<Rightarrow> 8 \<le> unhex a \<or> v = 37
      | EncZone \<Rightarrow> v = 37 \<or> v = 32 \<or> host_byte_ok (char_of v)
      | EncOther \<Rightarrow> True)"

fun unescape :: "encoding \<Rightarrow> string \<Rightarrow> (url_error, string) result" where
  "unescape mode [] = Inr []"
| "unescape mode (c # cs) =
     (if c = CHR ''%'' then
        (case cs of
           a # b # r \<Rightarrow>
             if is_hex a \<and> is_hex b \<and> escape_ok mode a b
             then res_bind (unescape mode r) (\<lambda>t. Inr (char_of (16 * unhex a + unhex b) # t))
             else Inl (EscapeError [c, a, b])
         | _ \<Rightarrow> Inl (EscapeError (c # cs)))
      else if mode \<noteq> EncOther \<and> byte c < 128 \<and> \<not> host_byte_ok c then Inl (InvalidHostByte c)
      else res_bind (unescape mode cs) (\<lambda>t. Inr (c # t)))"

section \<open>IP addresses\<close>

record ipaddr =
  octets :: "nat list"
  zone :: string

text \<open>Four decimal fields between dots, none empty, above 255 or with a leading zero.\<close>

definition v4_field :: "string \<Rightarrow> nat option" where
  "v4_field f =
     (if f = [] \<or> \<not> list_all is_digit f \<or> (hd f = CHR ''0'' \<and> 1 < length f) then None
      else let v = fold (\<lambda>c n. 10 * n + (byte c - 48)) f 0 in if 255 < v then None else Some v)"

definition v4_fields :: "string \<Rightarrow> nat list option" where
  "v4_fields s =
     (let ps = split_byte (CHR ''.'') s
      in if length ps = 4 then those (map v4_field ps) else None)"

definition hex_value :: "string \<Rightarrow> nat" where
  "hex_value s = fold (\<lambda>c n. 16 * n + unhex c) s 0"

text \<open>
  The group loop of \<open>parseIPv6\<close>: \<open>ip\<close> holds the bytes read so far, \<open>ell\<close> the position of
  the \<open>::\<close>.  It returns them with the unread rest.
\<close>

function v6_loop ::
  "nat list \<Rightarrow> nat option \<Rightarrow> string \<Rightarrow> (nat list \<times> nat option \<times> string) option" where
  "v6_loop ip ell s =
     (if 16 \<le> length ip then Some (ip, ell, s)
      else let run = takeWhile is_hex s; rest = dropWhile is_hex s in
        if run = [] \<or> 4 < length run then None
        else if rest \<noteq> [] \<and> hd rest = CHR ''.'' then
          (if ell = None \<and> length ip \<noteq> 12 \<or> 16 < length ip + 4 then None
           else map_option (\<lambda>f. (ip @ f, ell, [])) (v4_fields s))
        else let ip' = ip @ [hex_value run div 256, hex_value run mod 256] in
          if rest = [] then Some (ip', ell, [])
          else if hd rest \<noteq> CHR '':'' \<or> tl rest = [] then None
          else if hd (tl rest) = CHR '':'' then
            (if ell \<noteq> None then None
             else if tl (tl rest) = [] then Some (ip', Some (length ip'), [])
             else v6_loop ip' (Some (length ip')) (tl (tl rest)))
          else v6_loop ip' ell (tl rest))"
  by pat_completeness auto
termination
proof (relation "measure (\<lambda>(ip, ell, s). length s)", goal_cases)
  case (2 ip ell s)
  then show ?case
    using length_dropWhile_le [of is_hex s] by (cases "dropWhile is_hex s") auto
next
  case (3 ip ell s)
  then show ?case
    using length_dropWhile_le [of is_hex s] by (cases "dropWhile is_hex s") auto
qed simp

declare v6_loop.simps [simp del]

definition v6_finish :: "nat list \<Rightarrow> nat option \<Rightarrow> nat list option" where
  "v6_finish ip ell = (case ell of
     None \<Rightarrow> if length ip < 16 then None else Some ip
   | Some e \<Rightarrow> if length ip < 16 then Some (take e ip @ replicate (16 - length ip) 0 @ drop e ip) else None)"

definition parse_ipv6 :: "string \<Rightarrow> ipaddr option" where
  "parse_ipv6 s0 =
     (let s = takeWhile (\<lambda>c. c \<noteq> CHR ''%'') s0;
          zoned = CHR ''%'' \<in> set s0;
          z = drop (Suc (length s)) s0
      in if zoned \<and> z = [] then None
         else if has_prefix s ''::'' \<and> length s = 2 then Some \<lparr>octets = replicate 16 0, zone = z\<rparr>
         else let ell = (if has_prefix s ''::'' then Some 0 else None);
                  body = (if has_prefix s ''::'' then drop 2 s else s)
              in case v6_loop [] ell body of
                   None \<Rightarrow> None
                 | Some (ip, ell', rest) \<Rightarrow>
                     if rest \<noteq> [] then None
                     else map_option (\<lambda>os. \<lparr>octets = os, zone = z\<rparr>) (v6_finish ip ell'))"

text \<open>\<open>netip.ParseAddr\<close>: the first dot, colon or percent sign decides.\<close>

definition parse_addr :: "string \<Rightarrow> ipaddr option" where
  "parse_addr s =
     (case dropWhile (\<lambda>c. c \<notin> set ''.:%'') s of
        [] \<Rightarrow> None
      | c # _ \<Rightarrow>
          if c = CHR ''.'' then map_option (\<lambda>os. \<lparr>octets = os, zone = []\<rparr>) (v4_fields s)
          else if c = CHR '':'' then parse_ipv6 s
          else None)"

definition is4 :: "ipaddr \<Rightarrow> bool" where "is4 a \<longleftrightarrow> length (octets a) = 4"

definition v4_in_v6_prefix :: "nat list" where
  "v4_in_v6_prefix = replicate 10 0 @ [255, 255]"

text \<open>\<open>net.ParseIP\<close>: the 16-byte form; an address with a zone is refused.\<close>

definition parse_ip :: "string \<Rightarrow> nat list option" where
  "parse_ip s = (case parse_addr s of
     None \<Rightarrow> None
   | Some a \<Rightarrow> if zone a \<noteq> [] then None
              else Some (if is4 a then v4_in_v6_prefix @ octets a else octets a))"

definition to4 :: "nat list \<Rightarrow> nat list option" where
  "to4 ip = (if length ip = 4 then Some ip
     else if length ip = 16 \<and> take 12 ip = v4_in_v6_prefix then Some (drop 12 ip) else None)"

definition is_link_local_unicast :: "nat list \<Rightarrow> bool" where
  "is_link_local_unicast ip = (case to4 ip of
     Some q \<Rightarrow> q ! 0 = 169 \<and> q ! 1 = 254
   | None \<Rightarrow> length ip = 16 \<and> ip ! 0 = 254 \<and> ip ! 1 div 64 = 2)"

definition is_link_local_multicast :: "nat list \<Rightarrow> bool" where
  "is_link_local_multicast ip = (case to4 ip of
     Some q \<Rightarrow> q ! 0 = 224 \<and> q ! 1 = 0 \<and> q ! 2 = 0
   | None \<Rightarrow> length ip = 16 \<and> ip ! 0 = 255 \<and> ip ! 1 mod 16 = 2)"

section \<open>URLs\<close>

record url =
  Scheme :: string
  Host :: string

text \<open>\<open>getScheme\<close>: \<open>acc\<close> is the part before the byte looked at; \<open>raw\<close> the whole input.\<close>

fun get_scheme_from :: "string \<Rightarrow> string \<Rightarrow> string \<Rightarrow> (url_error, string \<times> string) result" where
  "get_scheme_from raw acc [] = Inr ([], raw)"
| "get_scheme_from raw acc (c # cs) =
     (if is_alpha c then get_scheme_from raw (acc @ [c]) cs
      else if is_digit c \<or> c \<in> set ''+-.'' then
        (if acc = [] then Inr ([], raw) else get_scheme_from raw (acc @ [c]) cs)
      else if c = CHR '':'' then (if acc = [] then Inl MissingProtocolScheme else Inr (acc, cs))
      else Inr ([], raw))"

definition valid_optional_port :: "string \<Rightarrow> bool" where
  "valid_optional_port p \<longleftrightarrow> p = [] \<or> hd p = CHR '':'' \<and> list_all is_digit (tl p)"

text \<open>The text before and the text from the last occurrence of a byte on.\<close>

definition before_last :: "char \<Rightarrow> string \<Rightarrow> string" where
  "before_last c s = rev (tl (dropWhile (\<lambda>x. x \<noteq> c) (rev s)))"

definition after_last :: "char \<Rightarrow> string \<Rightarrow> string" where
  "after_last c s = rev (takeWhile (\<lambda>x. x \<noteq> c) (rev s))"

text \<open>The position of \<open>%25\<close> in a bracketed host: the address before it, the zone from it on.\<close>

fun split_zone :: "string \<Rightarrow> string \<times> string" where
  "split_zone [] = ([], [])"
| "split_zone (c # cs) =
     (if has_prefix (c # cs) ''%25'' then ([], c # cs)
      else (case split_zone cs of (a, z) \<Rightarrow> (c # a, z)))"

definition parse_bracketed_host :: "string \<Rightarrow> (url_error, string) result" where
  "parse_bracketed_host h =
     (if CHR '']'' \<notin> set h then Inl MissingBracket
      else let port = after_last (CHR '']'') h; name = tl (before_last (CHR '']'') h) in
        if \<not> valid_optional_port port then Inl (InvalidPort port)
        else res_bind (unescape EncHost port) (\<lambda>port'.
          (case split_zone name of (a, z) \<Rightarrow>
             res_bind (unescape EncHost a) (\<lambda>a'.
             res_bind (unescape EncZone z) (\<lambda>z'.
               case parse_addr (a' @ z') of
                 None \<Rightarrow> Inl (InvalidHost (a' @ z'))
               | Some ip \<Rightarrow> if is4 ip then Inl InvalidIPLiteral
                           else Inr (''['' @ a' @ z' @ '']'' @ port'))))))"

definition parse_host :: "string \<Rightarrow> (url_error, string) result" where
  "parse_host h =
     (if h \<noteq> [] \<and> CHR ''['' \<in> set (tl h) then Inl InvalidIPLiteral
      else if h \<noteq> [] \<and> hd h = CHR ''['' then parse_bracketed_host h
      else let port = dropWhile (\<lambda>c. c \<noteq> CHR '':'') h in
        if \<not> valid_optional_port port then Inl (InvalidPort port) else unescape EncHost h)"

definition userinfo_byte_ok :: "char \<Rightarrow> bool" where
  "userinfo_byte_ok c \<longleftrightarrow> is_alpha c \<or> is_digit c \<or>
     c \<in> set ''-._:~!$&()*+,;=%@'' \<or> byte c = 39"

text \<open>\<open>parseAuthority\<close>, of which only the host is used later.\<close>

definition parse_authority :: "string \<Rightarrow> (url_error, string) result" where
  "parse_authority a =
     (if CHR ''@'' \<notin> set a then parse_host a
      else res_bind (parse_host (after_last (CHR ''@'') a)) (\<lambda>host.
        let u = before_last (CHR ''@'') a in
        if \<not> list_all userinfo_byte_ok u then Inl InvalidUserinfo
        else res_bind (unescape EncOther u) (\<lambda>_. Inr host)))"

definition until_byte :: "char \<Rightarrow> string \<Rightarrow> string" where
  "until_byte c s = takeWhile (\<lambda>x. x \<noteq> c) s"

definition has_ctl_byte :: "string \<Rightarrow> bool" where
  "has_ctl_byte s \<longleftrightarrow> list_ex (\<lambda>c. byte c < 32 \<or> byte c = 127) s"

text \<open>
  \<open>url.parse\<close>: the fragment is cut off before, the query here.  A rest without a leading
  slash is opaque when there is a scheme and leaves the host empty.
\<close>

definition parse_no_frag :: "string \<Rightarrow> (url_error, url) result" where
  "parse_no_frag raw =
     (if has_ctl_byte raw then Inl CtlByte
      else if raw = ''*'' then Inr \<lparr>Scheme = [], Host = []\<rparr>
      else res_bind (get_scheme_from raw [] raw) (\<lambda>(scheme0, rest0).
        let scheme = to_lower scheme0; rest = until_byte (CHR ''?'') rest0 in
        if \<not> has_prefix rest ''/'' \<and> scheme \<noteq> [] then Inr \<lparr>Scheme = scheme, Host = []\<rparr>
        else if \<not> has_prefix rest ''/'' \<and> CHR '':'' \<in> set (until_byte (CHR ''/'') rest)
        then Inl FirstSegmentColon
        else if (scheme \<noteq> [] \<or> \<not> has_prefix rest ''///'') \<and> has_prefix rest ''//'' then
          (let auth = until_byte (CHR ''/'') (drop 2 rest);
               path = drop (length auth) (drop 2 rest)
           in res_bind (parse_authority auth) (\<lambda>host.
              res_bind (unescape EncOther path) (\<lambda>_. Inr \<lparr>Scheme = scheme, Host = host\<rparr>)))
        else res_bind (unescape EncOther rest) (\<lambda>_. Inr \<lparr>Scheme = scheme, Host = []\<rparr>)))"

definition url_parse :: "string \<Rightarrow> (url_error, url) result" where
  "url_parse raw =
     res_bind (parse_no_frag (until_byte (CHR ''#'') raw)) (\<lambda>u.
       res_bind (unescape EncOther (drop (Suc (length (until_byte (CHR ''#'') raw))) raw)) (\<lambda>_. Inr u))"

text \<open>\<open>URL.Hostname\<close>: the host without a port and without brackets.\<close>

definition hostname :: "url \<Rightarrow> string" where
  "hostname u =
     (let h = Host u;
          p = CHR '':'' # after_last (CHR '':'') h;
          h' = (if CHR '':'' \<in> set h \<and> valid_optional_port p then before_last (CHR '':'') h else h)
      in if h' \<noteq> [] \<and> hd h' = CHR ''['' \<and> last h' = CHR '']'' \<and> 1 < length h'
         then butlast (tl h') else h')"

end
