(* ===== verification/Endpoint.thy ===== *)
theory Endpoint
  imports GoNet
begin

text \<open>
  \<open>validateVLLMEndpoint\<close> of \<open>pkg/scaler/server.go\<close>: the guard both engine endpoints pass
  before a client is made for them.
\<close>

datatype endpoint_error =
    InvalidURL url_error
  | UnsupportedScheme string
  | MissingHostname
  | LinkLocalAddress "nat list"
  | MetadataAddress "nat list"
  | MetadataHostname string

definition blocked_hosts :: "string list" where
  "blocked_hosts = [''metadata.google.internal'', ''metadata.goog'']"

definition metadata_ip :: "nat list" where
  "metadata_ip = v4_in_v6_prefix @ [169, 254, 169, 254]"

definition check_ip :: "string \<Rightarrow> (endpoint_error, unit) result" where
  "check_ip host = (case parse_ip host of
     None \<Rightarrow> Inr ()
   | Some ip \<Rightarrow>
       if is_link_local_unicast ip \<or> is_link_local_multicast ip then Inl (LinkLocalAddress ip)
       else if ip = metadata_ip then Inl (MetadataAddress ip)
       else Inr ())"

definition validateVLLMEndpoint :: "string \<Rightarrow> (endpoint_error, unit) result" where
  "validateVLLMEndpoint endpoint =
     res_bind (map_err InvalidURL (url_parse endpoint)) (\<lambda>u.
       let scheme = to_lower (Scheme u); host = hostname u in
       if scheme \<noteq> ''http'' \<and> scheme \<noteq> ''https'' then Inl (UnsupportedScheme (Scheme u))
       else if host = [] then Inl MissingHostname
       else res_bind (check_ip host) (\<lambda>_.
         if to_lower host \<in> set blocked_hosts then Inl (MetadataHostname host) else Inr ()))"

section \<open>Properties\<close>

lemma accepted_iff:
  "validateVLLMEndpoint e = Inr () \<longleftrightarrow>
     (\<exists>u. url_parse e = Inr u \<and> to_lower (Scheme u) \<in> {''http'', ''https''} \<and> hostname u \<noteq> [] \<and>
        check_ip (hostname u) = Inr () \<and> to_lower (hostname u) \<notin> set blocked_hosts)"
  by (auto simp: validateVLLMEndpoint_def Let_def res_bind_Inr_iff)

lemma check_ip_accepts: "check_ip h = Inr () \<Longrightarrow> parse_ip h = Some ip \<Longrightarrow>
    \<not> is_link_local_unicast ip \<and> \<not> is_link_local_multicast ip"
  by (simp add: check_ip_def split: if_splits)

lemma metadata_is_link_local: "is_link_local_unicast metadata_ip"
  by code_simp

text \<open>
  What the guard lets through: a URL with scheme http or https and a host that is not empty, not a
  link-local unicast or multicast address in any spelling the address parser reads (so not the
  metadata address either), and not one of the blocked names in any case.\<close>

theorem accepted_endpoint_safe:
  assumes "validateVLLMEndpoint e = Inr ()"
  shows "\<exists>u. url_parse e = Inr u \<and> to_lower (Scheme u) \<in> {''http'', ''https''} \<and> hostname u \<noteq> [] \<and>
    (case parse_ip (hostname u) of None \<Rightarrow> True
     | Some ip \<Rightarrow> \<not> is_link_local_unicast ip \<and> \<not> is_link_local_multicast ip \<and> ip \<noteq> metadata_ip) \<and>
    to_lower (hostname u) \<notin> set blocked_hosts"
  using assms metadata_is_link_local
  by (fastforce simp: accepted_iff dest: check_ip_accepts split: option.split)

lemma accepted_endpoint_safe_witness:
  "\<exists>u. url_parse ''http://v:80/metrics'' = Inr u \<and> to_lower (Scheme u) \<in> {''http'', ''https''}"
proof -
  have "validateVLLMEndpoint ''http://v:80/metrics'' = Inr ()" by code_simp
  from accepted_endpoint_safe [OF this] show ?thesis by blast
qed

text \<open>
  The test for the metadata address is dead code: it follows the link-local test, which already
  covers 169.254.169.254, so no endpoint is ever rejected by it.\<close>

theorem metadata_check_is_dead:
  "validateVLLMEndpoint e \<noteq> Inl (MetadataAddress ip)"
proof -
  have "check_ip h \<noteq> Inl (MetadataAddress ip)" for h
    using metadata_is_link_local by (auto simp: check_ip_def split: option.split)
  then show ?thesis
    by (auto simp: validateVLLMEndpoint_def Let_def res_bind_def map_err_def split: sum.splits if_splits)
qed

text \<open>
  The guard looks at the spelling of the host, not at where it leads.  The metadata service is
  rejected by its address, plain or mapped into IPv6, and by its name in any case; the same name with
  the root dot, the same address as one decimal number and a link-local IPv6 address with a zone
  pass.\<close>

theorem guard_is_by_spelling:
  "validateVLLMEndpoint ''http://169.254.169.254/latest'' = Inl (LinkLocalAddress metadata_ip) \<and>
   validateVLLMEndpoint ''http://[::ffff:169.254.169.254]/'' = Inl (LinkLocalAddress metadata_ip) \<and>
   validateVLLMEndpoint ''http://Metadata.Google.Internal/'' = Inl (MetadataHostname ''Metadata.Google.Internal'') \<and>
   validateVLLMEndpoint ''http://metadata.google.internal./'' = Inr () \<and>
   validateVLLMEndpoint ''http://2852039166/'' = Inr () \<and>
   validateVLLMEndpoint ''http://[fe80::1%25eth0]/'' = Inr ()"
  by (intro conjI; code_simp)

end
