(* ===== verification/GoStrconv.thy ===== *)
theory GoStrconv
  imports GoStrings Float64
begin

text \<open>
  The functions of Go's \<open>strconv\<close> package that the program calls: \<open>Atoi\<close>, \<open>Itoa\<close> and
  \<open>FormatUint\<close> in base 10, and \<open>ParseFloat\<close> at 64 bits.
\<close>

datatype num_error = ErrSyntax | ErrRange

definition digit_val :: "char \<Rightarrow> nat" where
  "digit_val c = byte c - 48"

section \<open>Integers\<close>

text \<open>
  The digit loop of \<open>ParseUint(s, 10, 64)\<close>: it stops at the first byte that is no digit
  and at the first digit that does not fit into 64 bits.
\<close>

fun scan_uint :: "nat \<Rightarrow> string \<Rightarrow> (num_error, nat) result" where
  "scan_uint n [] = Inr n"
| "scan_uint n (c # cs) =
     (if \<not> is_digit c then Inl ErrSyntax
      else if 2 ^ 64 div 10 + 1 \<le> n then Inl ErrRange
      else if 2 ^ 64 \<le> 10 * n + digit_val c then Inl ErrRange
      else scan_uint (10 * n + digit_val c) cs)"

definition parse_uint :: "string \<Rightarrow> (num_error, nat) result" where
  "parse_uint s = (if s = [] then Inl ErrSyntax else scan_uint 0 s)"

definition atoi :: "string \<Rightarrow> (num_error, int) result" where
  "atoi s =
     (let neg = (s \<noteq> [] \<and> hd s = CHR ''-'');
          ds = (if s \<noteq> [] \<and> (hd s = CHR ''-'' \<or> hd s = CHR ''+'') then tl s else s)
      in res_bind (parse_uint ds) (\<lambda>n.
           if \<not> neg \<and> 2 ^ 63 \<le> n then Inl ErrRange
           else if neg \<and> 2 ^ 63 < n then Inl ErrRange
           else Inr (if neg then - int n else int n)))"

definition digit_char :: "nat \<Rightarrow> char" where
  "digit_char d = char_of (d + 48)"

fun format_uint :: "nat \<Rightarrow> string" where
  "format_uint n = (if n < 10 then [digit_char n] else format_uint (n div 10) @ [digit_char (n mod 10)])"

declare format_uint.simps [simp del]

definition itoa :: "int \<Rightarrow> string" where
  "itoa i = (if i < 0 then CHR ''-'' # format_uint (nat (- i)) else format_uint (nat i))"

text \<open>\<open>FormatUint\<close> of a machine word.\<close>

definition format_word :: "'a::len word \<Rightarrow> string" where
  "format_word w = format_uint (unat w)"

section \<open>Floating point\<close>

definition lower_is :: "char \<Rightarrow> char \<Rightarrow> bool" where
  "lower_is c l \<longleftrightarrow> lower_byte c = l"

text \<open>The special values, in any case: \<open>nan\<close>, and \<open>inf\<close> or \<open>infinity\<close> with an optional sign.\<close>

definition parse_special :: "string \<Rightarrow> f64 option" where
  "parse_special s =
     (let signed = (s \<noteq> [] \<and> (hd s = CHR ''+'' \<or> hd s = CHR ''-''));
          neg = (signed \<and> hd s = CHR ''-'');
          w = map lower_byte (if signed then tl s else s)
      in if w = ''inf'' \<or> w = ''infinity'' then Some (F neg inf_mag)
         else if \<not> signed \<and> w = ''nan'' then Some NaN
         else None)"

record mantissa =
  mant :: nat
  frac_digits :: nat
  sawdot :: bool
  sawdigits :: bool
  underscores :: bool

definition hex_val :: "char \<Rightarrow> nat" where
  "hex_val c = byte (lower_byte c) - 87"

definition is_hex_letter :: "char \<Rightarrow> bool" where
  "is_hex_letter c \<longleftrightarrow> 97 \<le> byte (lower_byte c) \<and> byte (lower_byte c) \<le> 102"

definition push_digit :: "nat \<Rightarrow> nat \<Rightarrow> mantissa \<Rightarrow> mantissa" where
  "push_digit base d m = m\<lparr>mant := base * mant m + d,
     frac_digits := (if sawdot m then Suc (frac_digits m) else frac_digits m), sawdigits := True\<rparr>"

text \<open>
  The mantissa loop of \<open>readFloat\<close>; it returns the unread rest.  Go keeps 19 significant
  digits and a flag and falls back to exact arithmetic where they do not decide the
  result; the model keeps all digits.
\<close>

fun read_mantissa :: "bool \<Rightarrow> mantissa \<Rightarrow> string \<Rightarrow> mantissa \<times> string" where
  "read_mantissa hex m [] = (m, [])"
| "read_mantissa hex m (c # cs) =
     (if c = CHR ''_'' then read_mantissa hex (m\<lparr>underscores := True\<rparr>) cs
      else if c = CHR ''.'' then
        (if sawdot m then (m, c # cs) else read_mantissa hex (m\<lparr>sawdot := True\<rparr>) cs)
      else if is_digit c then
        read_mantissa hex (push_digit (if hex then 16 else 10) (digit_val c) m) cs
      else if hex \<and> is_hex_letter c then read_mantissa hex (push_digit 16 (hex_val c) m) cs
      else (m, c # cs))"

text \<open>The digits of the exponent; like the code, the value stops growing at 10000.\<close>

fun read_exp :: "nat \<Rightarrow> bool \<Rightarrow> string \<Rightarrow> nat \<times> bool \<times> string" where
  "read_exp e u [] = (e, u, [])"
| "read_exp e u (c # cs) =
     (if c = CHR ''_'' then read_exp e True cs
      else if is_digit c then read_exp (if e < 10000 then 10 * e + digit_val c else e) u cs
      else (e, u, c # cs))"

text \<open>\<open>underscoreOK\<close>: an underscore stands between digits or after a base prefix.\<close>

datatype saw = SawStart | SawDigit | SawUnderscore | SawOther

fun underscores_scan :: "bool \<Rightarrow> saw \<Rightarrow> string \<Rightarrow> bool" where
  "underscores_scan hex w [] = (w \<noteq> SawUnderscore)"
| "underscores_scan hex w (c # cs) =
     (if is_digit c \<or> hex \<and> is_hex_letter c then underscores_scan hex SawDigit cs
      else if c = CHR ''_'' then w = SawDigit \<and> underscores_scan hex SawUnderscore cs
      else w \<noteq> SawUnderscore \<and> underscores_scan hex SawOther cs)"

definition underscore_ok :: "string \<Rightarrow> bool" where
  "underscore_ok s0 =
     (let s = (if s0 \<noteq> [] \<and> (hd s0 = CHR ''-'' \<or> hd s0 = CHR ''+'') then tl s0 else s0)
      in if 2 \<le> length s \<and> hd s = CHR ''0'' \<and> lower_byte (s ! 1) \<in> {CHR ''b'', CHR ''o'', CHR ''x''}
         then underscores_scan (lower_is (s ! 1) (CHR ''x'')) SawDigit (drop 2 s)
         else underscores_scan False SawStart s)"

text \<open>The value of mantissa and exponent, rounded; a result that rounds to infinity is a range error.\<close>

definition scale_float :: "bool \<Rightarrow> nat \<Rightarrow> nat \<Rightarrow> int \<Rightarrow> (num_error, f64) result" where
  "scale_float neg m base e =
     (let x = (if 0 \<le> e then f64_round neg (m * base ^ nat e * unit_exp) 1
               else f64_round neg (m * unit_exp) (base ^ nat (- e)))
      in if f64_is_inf x then Inl ErrRange else Inr x)"

text \<open>The optional exponent part: its signed value, the underscore flag and the unread rest.\<close>

definition read_exp_part :: "bool \<Rightarrow> bool \<Rightarrow> string \<Rightarrow> (int \<times> bool \<times> string) option" where
  "read_exp_part hex u s =
     (if s \<noteq> [] \<and> lower_is (hd s) (if hex then CHR ''p'' else CHR ''e'') then
        (let r = tl s;
             eneg = (r \<noteq> [] \<and> hd r = CHR ''-'');
             ds = (if r \<noteq> [] \<and> (hd r = CHR ''-'' \<or> hd r = CHR ''+'') then tl r else r)
         in if ds = [] \<or> \<not> is_digit (hd ds) then None
            else (let (e, u', rest) = read_exp 0 u ds in Some (if eneg then - int e else int e, u', rest)))
      else if hex then None
      else Some (0, u, s))"

definition empty_mantissa :: mantissa where
  "empty_mantissa = \<lparr>mant = 0, frac_digits = 0, sawdot = False, sawdigits = False, underscores = False\<rparr>"

definition parse_float :: "string \<Rightarrow> (num_error, f64) result" where
  "parse_float s = (case parse_special s of Some x \<Rightarrow> Inr x | None \<Rightarrow>
     (let neg = (s \<noteq> [] \<and> hd s = CHR ''-'');
          body = (if s \<noteq> [] \<and> (hd s = CHR ''+'' \<or> hd s = CHR ''-'') then tl s else s);
          hex = (2 < length body \<and> hd body = CHR ''0'' \<and> lower_is (body ! 1) (CHR ''x''));
          (m, r) = read_mantissa hex empty_mantissa (if hex then drop 2 body else body)
      in if \<not> sawdigits m then Inl ErrSyntax
         else case read_exp_part hex (underscores m) r of
           None \<Rightarrow> Inl ErrSyntax
         | Some (e, u, rest) \<Rightarrow>
             if rest \<noteq> [] \<or> u \<and> \<not> underscore_ok s then Inl ErrSyntax
             else if hex then scale_float neg (mant m) 2 (e - 4 * int (frac_digits m))
             else scale_float neg (mant m) 10 (e - int (frac_digits m))))"

section \<open>Facts\<close>

lemma digit_char_props [simp]:
  "d < 10 \<Longrightarrow> is_digit (digit_char d)"
  "d < 10 \<Longrightarrow> digit_val (digit_char d) = d"
  by (simp_all add: is_digit_def digit_val_def digit_char_def byte_def)

lemma is_digit_not_special:
  "is_digit c \<Longrightarrow> c \<noteq> CHR ''-'' \<and> c \<noteq> CHR ''+'' \<and> c \<noteq> CHR ''_'' \<and> c \<noteq> CHR ''.''"
  by (auto simp: is_digit_def byte_def)

lemma format_uint_digits: "list_all is_digit (format_uint n)"
proof (induction n rule: format_uint.induct)
  case (1 n)
  then show ?case by (cases "n < 10") (simp_all add: format_uint.simps [of n])
qed

lemma format_uint_nonempty [simp]: "format_uint n \<noteq> []"
  by (simp add: format_uint.simps [of n])

definition dec_val :: "nat \<Rightarrow> string \<Rightarrow> nat" where
  "dec_val n ds = fold (\<lambda>c m. 10 * m + digit_val c) ds n"

lemma dec_val_simps [simp]:
  "dec_val n [] = n"
  "dec_val n (c # cs) = dec_val (10 * n + digit_val c) cs"
  "dec_val n (xs @ ys) = dec_val (dec_val n xs) ys"
  by (simp_all add: dec_val_def)

lemma dec_val_ge: "n \<le> dec_val n ds"
proof (induction ds arbitrary: n)
  case (Cons c cs)
  have "n \<le> 10 * n + digit_val c" by simp
  also have "\<dots> \<le> dec_val (10 * n + digit_val c) cs" by (rule Cons.IH)
  finally show ?case by simp
qed simp

lemma dec_val_format_uint [simp]: "dec_val 0 (format_uint n) = n"
proof (induction n rule: format_uint.induct)
  case (1 n)
  then show ?case by (cases "n < 10") (simp_all add: format_uint.simps [of n])
qed

lemma scan_uint_digits:
  "list_all is_digit ds \<Longrightarrow> dec_val n ds < 2 ^ 64 \<Longrightarrow> scan_uint n ds = Inr (dec_val n ds)"
proof (induction ds arbitrary: n)
  case (Cons c cs)
  have "10 * n + digit_val c < 2 ^ 64"
    using Cons.prems(2) dec_val_ge [of "10 * n + digit_val c" cs] by simp
  with Cons show ?case by simp
qed simp

lemma scan_uint_Inr: "scan_uint n ds = Inr m \<Longrightarrow> n < 2 ^ 64 \<Longrightarrow> m < 2 ^ 64"
  by (induction n ds rule: scan_uint.induct) (auto split: if_splits)

lemma parse_uint_format_uint: "n < 2 ^ 64 \<Longrightarrow> parse_uint (format_uint n) = Inr n"
  by (simp add: parse_uint_def scan_uint_digits format_uint_digits)

lemma format_uint_hd: "is_digit (hd (format_uint n))"
  using format_uint_digits [of n] by (cases "format_uint n") simp_all

lemma atoi_itoa: "in_int64 i \<Longrightarrow> atoi (itoa i) = Inr i"
proof (cases "i < 0")
  case True
  assume "in_int64 i"
  with True have b: "nat (- i) \<le> 2 ^ 63" by (simp add: in_int64_def min_int64_def nat_le_iff)
  then have "parse_uint (format_uint (nat (- i))) = Inr (nat (- i))"
    by (intro parse_uint_format_uint) simp
  with True b show ?thesis by (simp add: atoi_def itoa_def Let_def)
next
  case False
  assume "in_int64 i"
  with False have b: "nat i < 2 ^ 63" by (simp add: in_int64_def max_int64_def nat_less_iff)
  then have "parse_uint (format_uint (nat i)) = Inr (nat i)"
    by (intro parse_uint_format_uint) simp
  moreover have "hd (format_uint (nat i)) \<noteq> CHR ''-''" "hd (format_uint (nat i)) \<noteq> CHR ''+''"
    using is_digit_not_special [OF format_uint_hd] by blast+
  ultimately show ?thesis using False b by (simp add: atoi_def itoa_def Let_def)
qed

lemma atoi_in_int64: "atoi s = Inr i \<Longrightarrow> in_int64 i"
  by (auto simp: atoi_def Let_def in_int64_def min_int64_def max_int64_def
      elim!: res_bind_InrE split: if_splits)

lemma read_mantissa_digits:
  "list_all is_digit ds \<Longrightarrow> ds \<noteq> [] \<Longrightarrow> \<not> sawdot m \<Longrightarrow>
   read_mantissa False m ds = (m\<lparr>mant := dec_val (mant m) ds, sawdigits := True\<rparr>, [])"
proof (induction ds arbitrary: m)
  case (Cons c cs)
  then show ?case
    using is_digit_not_special [of c] by (cases "cs = []") (simp_all add: push_digit_def)
qed simp

lemma lower_byte_digit: "is_digit c \<Longrightarrow> lower_byte c = c"
  by (simp add: is_digit_def lower_byte_def)

lemma parse_special_digit: "s \<noteq> [] \<Longrightarrow> is_digit (hd s) \<Longrightarrow> parse_special s = None"
proof -
  assume s: "s \<noteq> []" "is_digit (hd s)"
  then obtain c cs where c: "s = c # cs" "is_digit c" by (cases s) simp_all
  have "c \<noteq> CHR ''i''" "c \<noteq> CHR ''n''" "c \<noteq> CHR ''+''" "c \<noteq> CHR ''-''"
    using c(2) by (auto simp: is_digit_def byte_def)
  then show ?thesis using c by (simp add: parse_special_def lower_byte_digit Let_def)
qed

lemma parse_float_format_uint:
  assumes "n \<le> 2 ^ 1023"
  shows "parse_float (format_uint n) = Inr (f64_of_nat n)"
proof -
  let ?s = "format_uint n"
  have d: "list_all is_digit ?s" by (rule format_uint_digits)
  have h: "hd ?s \<noteq> CHR ''-''" "hd ?s \<noteq> CHR ''+''"
    using is_digit_not_special [OF format_uint_hd] by blast+
  have x: "(2 < length ?s \<and> hd ?s = CHR ''0'' \<and> lower_is (?s ! Suc 0) (CHR ''x'')) = False"
  proof (rule ccontr)
    assume "(2 < length ?s \<and> hd ?s = CHR ''0'' \<and> lower_is (?s ! Suc 0) (CHR ''x'')) \<noteq> False"
    then have a: "2 < length ?s" "lower_is (?s ! Suc 0) (CHR ''x'')" by simp_all
    with d have "is_digit (?s ! Suc 0)" by (simp add: list_all_length)
    with a have "is_digit (CHR ''x'')" by (simp add: lower_is_def lower_byte_digit)
    then show False by (simp add: is_digit_def byte_def)
  qed
  have m: "read_mantissa False empty_mantissa ?s =
      (empty_mantissa\<lparr>mant := n, sawdigits := True\<rparr>, [])"
    using d by (simp add: read_mantissa_digits empty_mantissa_def)
  have "scale_float False n 10 0 = Inr (f64_of_nat n)"
    using nat_mag_finite [OF assms]
    by (simp add: scale_float_def f64_of_nat_def f64_of_ratio_def Let_def f64_round_def nat_mag_def)
  then show ?thesis
    using h m parse_special_digit [OF format_uint_nonempty format_uint_hd, of n]
    by (simp add: parse_float_def Let_def x read_exp_part_def empty_mantissa_def)
qed

lemma format_uint_plain [simp]: "list_all plain (format_uint n)"
  using format_uint_digits [of n] by (auto simp: list_all_iff digit_plain)

lemma format_uint_brace [simp]: "CHR ''{'' \<notin> set (format_uint n)" "CHR ''}'' \<notin> set (format_uint n)"
  using format_uint_digits [of n] by (auto simp: list_all_iff is_digit_def byte_def)

end
