(* ===== verification/Config.thy ===== *)
theory Config
  imports Profiles Endpoint GoStrconv
begin

text \<open>
  \<open>scalerConfig\<close> and \<open>parseMetadata\<close> of \<open>pkg/scaler/server.go\<close>: the trigger metadata of a
  ScaledObject, a map from strings to strings, becomes a configuration or the first error
  found.  Every \<open>if v, ok := metadata[...]\<close> block of the source is a definition of its
  own, and \<open>parseMetadata\<close> runs them in the source's order.
\<close>

record scaler_config =
  metricName :: string
  metricType :: metric_type
  targetValue :: f64
  activationThreshold :: f64
  gpuIndex :: int
  aggregation :: string
  pollIntervalSeconds :: int
  cooldownSeconds :: int
  vllmEndpoint :: string
  tritonEndpoint :: string

datatype config_error =
    UnknownProfile string
  | InvalidMetricType string
  | InvalidFloat string string num_error
  | InvalidInt string string num_error
  | GpuIndexBelowMinusOne int
  | InvalidAggregation string
  | NegativeCooldown int
  | MissingVLLMEndpoint metric_type
  | MissingTritonEndpoint metric_type
  | InvalidVLLMEndpoint endpoint_error
  | InvalidTritonEndpoint endpoint_error

type_synonym metadata = "string \<rightharpoonup> string"
type_synonym cfg_result = "(config_error, scaler_config) result"

definition default_config :: scaler_config where
  "default_config = \<lparr>metricName = ''keda_gpu_metric'', metricType = MetricGPUUtilization,
     targetValue = f64_of_nat 80, activationThreshold = f64_of_nat 0, gpuIndex = -1,
     aggregation = ''max'', pollIntervalSeconds = 10, cooldownSeconds = 60,
     vllmEndpoint = [], tritonEndpoint = []\<rparr>"

definition set_profile :: "metadata \<Rightarrow> scaler_config \<Rightarrow> cfg_result" where
  "set_profile md cfg = (case md ''profile'' of
     None \<Rightarrow> Inr cfg
   | Some n \<Rightarrow> (case Get n of
       None \<Rightarrow> Inl (UnknownProfile n)
     | Some p \<Rightarrow> Inr (cfg\<lparr>metricName := MetricName p, metricType := MetricType p,
                      targetValue := TargetValue p, activationThreshold := ActivationValue p\<rparr>)))"

definition set_metricName :: "metadata \<Rightarrow> scaler_config \<Rightarrow> cfg_result" where
  "set_metricName md cfg = (case md ''metricName'' of
     None \<Rightarrow> Inr cfg | Some v \<Rightarrow> Inr (cfg\<lparr>metricName := v\<rparr>))"

definition set_metricType :: "metadata \<Rightarrow> scaler_config \<Rightarrow> cfg_result" where
  "set_metricType md cfg = (case md ''metricType'' of
     None \<Rightarrow> Inr cfg
   | Some v \<Rightarrow> if \<not> ValidMetricType v then Inl (InvalidMetricType v) else Inr (cfg\<lparr>metricType := v\<rparr>))"

text \<open>The error wrapping the four float-valued and three integer-valued keys share.\<close>

definition float_key :: "string \<Rightarrow> string \<Rightarrow> (config_error, f64) result" where
  "float_key k v = map_err (InvalidFloat k v) (parse_float v)"

definition int_key :: "string \<Rightarrow> string \<Rightarrow> (config_error, int) result" where
  "int_key k v = map_err (InvalidInt k v) (atoi v)"

definition set_targetValue :: "metadata \<Rightarrow> scaler_config \<Rightarrow> cfg_result" where
  "set_targetValue md cfg = (case md ''targetValue'' of
     None \<Rightarrow> Inr cfg
   | Some v \<Rightarrow> res_bind (float_key ''targetValue'' v) (\<lambda>f. Inr (cfg\<lparr>targetValue := f\<rparr>)))"

definition set_targetGpuUtilization :: "metadata \<Rightarrow> scaler_config \<Rightarrow> cfg_result" where
  "set_targetGpuUtilization md cfg = (case md ''targetGpuUtilization'' of
     None \<Rightarrow> Inr cfg
   | Some v \<Rightarrow> res_bind (float_key ''targetGpuUtilization'' v) (\<lambda>f.
       Inr (cfg\<lparr>targetValue := f, metricType := MetricGPUUtilization\<rparr>)))"

definition set_targetMemoryUtilization :: "metadata \<Rightarrow> scaler_config \<Rightarrow> cfg_result" where
  "set_targetMemoryUtilization md cfg = (case md ''targetMemoryUtilization'' of
     None \<Rightarrow> Inr cfg
   | Some v \<Rightarrow> res_bind (float_key ''targetMemoryUtilization'' v) (\<lambda>f.
       Inr (cfg\<lparr>targetValue := f, metricType := MetricMemoryUsedPercent\<rparr>)))"

definition set_activationThreshold :: "metadata \<Rightarrow> scaler_config \<Rightarrow> cfg_result" where
  "set_activationThreshold md cfg = (case md ''activationThreshold'' of
     None \<Rightarrow> Inr cfg
   | Some v \<Rightarrow> res_bind (float_key ''activationThreshold'' v) (\<lambda>f.
       Inr (cfg\<lparr>activationThreshold := f\<rparr>)))"

definition set_gpuIndex :: "metadata \<Rightarrow> scaler_config \<Rightarrow> cfg_result" where
  "set_gpuIndex md cfg = (case md ''gpuIndex'' of
     None \<Rightarrow> Inr cfg
   | Some v \<Rightarrow> res_bind (int_key ''gpuIndex'' v) (\<lambda>i.
       if i < -1 then Inl (GpuIndexBelowMinusOne i) else Inr (cfg\<lparr>gpuIndex := i\<rparr>)))"

definition aggregations :: "string list" where
  "aggregations = [''max'', ''min'', ''avg'', ''sum'', ''p95'', ''p99'']"

definition set_aggregation :: "metadata \<Rightarrow> scaler_config \<Rightarrow> cfg_result" where
  "set_aggregation md cfg = (case md ''aggregation'' of
     None \<Rightarrow> Inr cfg
   | Some v \<Rightarrow> if v \<in> set aggregations then Inr (cfg\<lparr>aggregation := v\<rparr>) else Inl (InvalidAggregation v))"

definition set_cooldownSeconds :: "metadata \<Rightarrow> scaler_config \<Rightarrow> cfg_result" where
  "set_cooldownSeconds md cfg = (case md ''cooldownSeconds'' of
     None \<Rightarrow> Inr cfg
   | Some v \<Rightarrow> res_bind (int_key ''cooldownSeconds'' v) (\<lambda>i.
       if i < 0 then Inl (NegativeCooldown i) else Inr (cfg\<lparr>cooldownSeconds := i\<rparr>)))"

definition set_pollIntervalSeconds :: "metadata \<Rightarrow> scaler_config \<Rightarrow> cfg_result" where
  "set_pollIntervalSeconds md cfg = (case md ''pollIntervalSeconds'' of
     None \<Rightarrow> Inr cfg
   | Some v \<Rightarrow> res_bind (int_key ''pollIntervalSeconds'' v) (\<lambda>i.
       Inr (cfg\<lparr>pollIntervalSeconds := i\<rparr>)))"

definition set_endpoints :: "metadata \<Rightarrow> scaler_config \<Rightarrow> cfg_result" where
  "set_endpoints md cfg =
     Inr (let c = (case md ''vllmEndpoint'' of None \<Rightarrow> cfg | Some v \<Rightarrow> cfg\<lparr>vllmEndpoint := v\<rparr>)
          in case md ''tritonEndpoint'' of None \<Rightarrow> c | Some v \<Rightarrow> c\<lparr>tritonEndpoint := v\<rparr>)"

text \<open>The checks at the end: engine metrics need their endpoint, and a given endpoint is vetted.\<close>

definition check_required :: "scaler_config \<Rightarrow> cfg_result" where
  "check_required cfg =
     (if IsVLLMMetric (metricType cfg) \<and> vllmEndpoint cfg = []
      then Inl (MissingVLLMEndpoint (metricType cfg))
      else if IsTritonMetric (metricType cfg) \<and> tritonEndpoint cfg = []
      then Inl (MissingTritonEndpoint (metricType cfg))
      else Inr cfg)"

definition check_vllm_endpoint :: "scaler_config \<Rightarrow> cfg_result" where
  "check_vllm_endpoint cfg =
     (if vllmEndpoint cfg = [] then Inr cfg
      else res_bind (map_err InvalidVLLMEndpoint (validateVLLMEndpoint (vllmEndpoint cfg))) (\<lambda>_. Inr cfg))"

definition check_triton_endpoint :: "scaler_config \<Rightarrow> cfg_result" where
  "check_triton_endpoint cfg =
     (if tritonEndpoint cfg = [] then Inr cfg
      else res_bind (map_err InvalidTritonEndpoint (validateVLLMEndpoint (tritonEndpoint cfg))) (\<lambda>_. Inr cfg))"

definition parseMetadata :: "metadata \<Rightarrow> cfg_result" where
  "parseMetadata md =
     res_bind (set_profile md default_config) (\<lambda>c.
     res_bind (set_metricName md c) (\<lambda>c.
     res_bind (set_metricType md c) (\<lambda>c.
     res_bind (set_targetValue md c) (\<lambda>c.
     res_bind (set_targetGpuUtilization md c) (\<lambda>c.
     res_bind (set_targetMemoryUtilization md c) (\<lambda>c.
     res_bind (set_activationThreshold md c) (\<lambda>c.
     res_bind (set_gpuIndex md c) (\<lambda>c.
     res_bind (set_aggregation md c) (\<lambda>c.
     res_bind (set_cooldownSeconds md c) (\<lambda>c.
     res_bind (set_pollIntervalSeconds md c) (\<lambda>c.
     res_bind (set_endpoints md c) (\<lambda>c.
     res_bind (check_required c) (\<lambda>c.
     res_bind (check_vllm_endpoint c) (\<lambda>c.
     check_triton_endpoint c))))))))))))))"

section \<open>What a parse yields\<close>

text \<open>
  Each block either rejects its key or applies an update.  \<open>key_ok\<close> and \<open>key_or\<close> read one
  optional key: whether its value is acceptable, and its value with a default.
\<close>

definition key_ok :: "metadata \<Rightarrow> string \<Rightarrow> (string \<Rightarrow> bool) \<Rightarrow> bool" where
  "key_ok md k ok = (case md k of None \<Rightarrow> True | Some v \<Rightarrow> ok v)"

definition key_or :: "metadata \<Rightarrow> string \<Rightarrow> (string \<Rightarrow> 'a) \<Rightarrow> 'a \<Rightarrow> 'a" where
  "key_or md k f d = (case md k of None \<Rightarrow> d | Some v \<Rightarrow> f v)"

definition well_formed_keys :: "metadata \<Rightarrow> bool" where
  "well_formed_keys md \<longleftrightarrow>
     key_ok md ''profile'' (\<lambda>v. Get v \<noteq> None) \<and>
     key_ok md ''metricType'' ValidMetricType \<and>
     key_ok md ''targetValue'' (\<lambda>v. is_ok (parse_float v)) \<and>
     key_ok md ''targetGpuUtilization'' (\<lambda>v. is_ok (parse_float v)) \<and>
     key_ok md ''targetMemoryUtilization'' (\<lambda>v. is_ok (parse_float v)) \<and>
     key_ok md ''activationThreshold'' (\<lambda>v. is_ok (parse_float v)) \<and>
     key_ok md ''gpuIndex'' (\<lambda>v. is_ok (atoi v) \<and> -1 \<le> ok_of (atoi v)) \<and>
     key_ok md ''aggregation'' (\<lambda>v. v \<in> set aggregations) \<and>
     key_ok md ''cooldownSeconds'' (\<lambda>v. is_ok (atoi v) \<and> 0 \<le> ok_of (atoi v)) \<and>
     key_ok md ''pollIntervalSeconds'' (\<lambda>v. is_ok (atoi v))"

text \<open>The configuration the keys ask for, field by field, the strongest key outermost.\<close>

definition from_profile :: "metadata \<Rightarrow> (profile \<Rightarrow> 'a) \<Rightarrow> 'a \<Rightarrow> 'a" where
  "from_profile md f d = key_or md ''profile'' (\<lambda>v. f (the (Get v))) d"

definition effective_config :: "metadata \<Rightarrow> scaler_config" where
  "effective_config md =
     \<lparr>metricName = key_or md ''metricName'' id (from_profile md MetricName ''keda_gpu_metric''),
      metricType =
        key_or md ''targetMemoryUtilization'' (\<lambda>_. MetricMemoryUsedPercent)
          (key_or md ''targetGpuUtilization'' (\<lambda>_. MetricGPUUtilization)
            (key_or md ''metricType'' id (from_profile md MetricType MetricGPUUtilization))),
      targetValue =
        key_or md ''targetMemoryUtilization'' (\<lambda>v. ok_of (parse_float v))
          (key_or md ''targetGpuUtilization'' (\<lambda>v. ok_of (parse_float v))
            (key_or md ''targetValue'' (\<lambda>v. ok_of (parse_float v))
              (from_profile md TargetValue (f64_of_nat 80)))),
      activationThreshold =
        key_or md ''activationThreshold'' (\<lambda>v. ok_of (parse_float v))
          (from_profile md ActivationValue (f64_of_nat 0)),
      gpuIndex = key_or md ''gpuIndex'' (\<lambda>v. ok_of (atoi v)) (-1),
      aggregation = key_or md ''aggregation'' id ''max'',
      pollIntervalSeconds = key_or md ''pollIntervalSeconds'' (\<lambda>v. ok_of (atoi v)) 10,
      cooldownSeconds = key_or md ''cooldownSeconds'' (\<lambda>v. ok_of (atoi v)) 60,
      vllmEndpoint = key_or md ''vllmEndpoint'' id [],
      tritonEndpoint = key_or md ''tritonEndpoint'' id []\<rparr>"

definition endpoints_ok :: "scaler_config \<Rightarrow> bool" where
  "endpoints_ok cfg \<longleftrightarrow>
     (IsVLLMMetric (metricType cfg) \<longrightarrow> vllmEndpoint cfg \<noteq> []) \<and>
     (IsTritonMetric (metricType cfg) \<longrightarrow> tritonEndpoint cfg \<noteq> []) \<and>
     (vllmEndpoint cfg \<noteq> [] \<longrightarrow> validateVLLMEndpoint (vllmEndpoint cfg) = Inr ()) \<and>
     (tritonEndpoint cfg \<noteq> [] \<longrightarrow> validateVLLMEndpoint (tritonEndpoint cfg) = Inr ())"

named_theorems parse_block "what each block of parseMetadata accepts and does"

lemma set_profile_Inr [parse_block]: "set_profile md c = Inr c' \<longleftrightarrow>
    key_ok md ''profile'' (\<lambda>v. Get v \<noteq> None) \<and>
    c' = c\<lparr>metricName := from_profile md MetricName (metricName c),
           metricType := from_profile md MetricType (metricType c),
           targetValue := from_profile md TargetValue (targetValue c),
           activationThreshold := from_profile md ActivationValue (activationThreshold c)\<rparr>"
  by (auto simp: set_profile_def key_ok_def from_profile_def key_or_def split: option.split)

lemma set_metricName_Inr [parse_block]: "set_metricName md c = Inr c' \<longleftrightarrow>
    c' = c\<lparr>metricName := key_or md ''metricName'' id (metricName c)\<rparr>"
  by (auto simp: set_metricName_def key_or_def split: option.split)

lemma set_metricType_Inr [parse_block]: "set_metricType md c = Inr c' \<longleftrightarrow>
    key_ok md ''metricType'' ValidMetricType \<and>
    c' = c\<lparr>metricType := key_or md ''metricType'' id (metricType c)\<rparr>"
  by (auto simp: set_metricType_def key_ok_def key_or_def split: option.split)

lemma float_key_Inr [simp]: "float_key k v = Inr f \<longleftrightarrow> is_ok (parse_float v) \<and> f = ok_of (parse_float v)"
  by (cases "parse_float v") (auto simp: float_key_def)

lemma int_key_Inr [simp]: "int_key k v = Inr i \<longleftrightarrow> is_ok (atoi v) \<and> i = ok_of (atoi v)"
  by (cases "atoi v") (auto simp: int_key_def)

lemma set_targetValue_Inr [parse_block]: "set_targetValue md c = Inr c' \<longleftrightarrow>
    key_ok md ''targetValue'' (\<lambda>v. is_ok (parse_float v)) \<and>
    c' = c\<lparr>targetValue := key_or md ''targetValue'' (\<lambda>v. ok_of (parse_float v)) (targetValue c)\<rparr>"
  by (auto simp: set_targetValue_def key_ok_def key_or_def res_bind_Inr_iff split: option.split)

lemma set_targetGpuUtilization_Inr [parse_block]: "set_targetGpuUtilization md c = Inr c' \<longleftrightarrow>
    key_ok md ''targetGpuUtilization'' (\<lambda>v. is_ok (parse_float v)) \<and>
    c' = c\<lparr>targetValue := key_or md ''targetGpuUtilization'' (\<lambda>v. ok_of (parse_float v)) (targetValue c),
           metricType := key_or md ''targetGpuUtilization'' (\<lambda>_. MetricGPUUtilization) (metricType c)\<rparr>"
  by (auto simp: set_targetGpuUtilization_def key_ok_def key_or_def res_bind_Inr_iff split: option.split)

lemma set_targetMemoryUtilization_Inr [parse_block]: "set_targetMemoryUtilization md c = Inr c' \<longleftrightarrow>
    key_ok md ''targetMemoryUtilization'' (\<lambda>v. is_ok (parse_float v)) \<and>
    c' = c\<lparr>targetValue := key_or md ''targetMemoryUtilization'' (\<lambda>v. ok_of (parse_float v)) (targetValue c),
           metricType := key_or md ''targetMemoryUtilization'' (\<lambda>_. MetricMemoryUsedPercent) (metricType c)\<rparr>"
  by (auto simp: set_targetMemoryUtilization_def key_ok_def key_or_def res_bind_Inr_iff split: option.split)

lemma set_activationThreshold_Inr [parse_block]: "set_activationThreshold md c = Inr c' \<longleftrightarrow>
    key_ok md ''activationThreshold'' (\<lambda>v. is_ok (parse_float v)) \<and>
    c' = c\<lparr>activationThreshold := key_or md ''activationThreshold'' (\<lambda>v. ok_of (parse_float v)) (activationThreshold c)\<rparr>"
  by (auto simp: set_activationThreshold_def key_ok_def key_or_def res_bind_Inr_iff split: option.split)

lemma set_gpuIndex_Inr [parse_block]: "set_gpuIndex md c = Inr c' \<longleftrightarrow>
    key_ok md ''gpuIndex'' (\<lambda>v. is_ok (atoi v) \<and> -1 \<le> ok_of (atoi v)) \<and>
    c' = c\<lparr>gpuIndex := key_or md ''gpuIndex'' (\<lambda>v. ok_of (atoi v)) (gpuIndex c)\<rparr>"
  by (auto simp: set_gpuIndex_def key_ok_def key_or_def res_bind_Inr_iff split: option.split if_splits)

lemma set_aggregation_Inr [parse_block]: "set_aggregation md c = Inr c' \<longleftrightarrow>
    key_ok md ''aggregation'' (\<lambda>v. v \<in> set aggregations) \<and>
    c' = c\<lparr>aggregation := key_or md ''aggregation'' id (aggregation c)\<rparr>"
  by (auto simp: set_aggregation_def key_ok_def key_or_def split: option.split)

lemma set_cooldownSeconds_Inr [parse_block]: "set_cooldownSeconds md c = Inr c' \<longleftrightarrow>
    key_ok md ''cooldownSeconds'' (\<lambda>v. is_ok (atoi v) \<and> 0 \<le> ok_of (atoi v)) \<and>
    c' = c\<lparr>cooldownSeconds := key_or md ''cooldownSeconds'' (\<lambda>v. ok_of (atoi v)) (cooldownSeconds c)\<rparr>"
  by (auto simp: set_cooldownSeconds_def key_ok_def key_or_def res_bind_Inr_iff split: option.split if_splits)

lemma set_pollIntervalSeconds_Inr [parse_block]: "set_pollIntervalSeconds md c = Inr c' \<longleftrightarrow>
    key_ok md ''pollIntervalSeconds'' (\<lambda>v. is_ok (atoi v)) \<and>
    c' = c\<lparr>pollIntervalSeconds := key_or md ''pollIntervalSeconds'' (\<lambda>v. ok_of (atoi v)) (pollIntervalSeconds c)\<rparr>"
  by (auto simp: set_pollIntervalSeconds_def key_ok_def key_or_def res_bind_Inr_iff split: option.split)

lemma set_endpoints_Inr [parse_block]: "set_endpoints md c = Inr c' \<longleftrightarrow>
    c' = c\<lparr>vllmEndpoint := key_or md ''vllmEndpoint'' id (vllmEndpoint c),
           tritonEndpoint := key_or md ''tritonEndpoint'' id (tritonEndpoint c)\<rparr>"
  by (auto simp: set_endpoints_def key_or_def Let_def split: option.split)

lemma checks_Inr:
  "res_bind (check_required c) (\<lambda>c. res_bind (check_vllm_endpoint c) (\<lambda>c. check_triton_endpoint c)) = Inr c'
     \<longleftrightarrow> endpoints_ok c \<and> c' = c"
  by (auto simp: check_required_def check_vllm_endpoint_def check_triton_endpoint_def endpoints_ok_def
      res_bind_Inr_iff)

lemma parse_Inr_iff:
  "parseMetadata md = Inr cfg \<longleftrightarrow>
     well_formed_keys md \<and> endpoints_ok (effective_config md) \<and> cfg = effective_config md"
  unfolding parseMetadata_def
  by (simp add: res_bind_Inr_iff [of "set_profile md c" for c] res_bind_Inr_iff [of "set_metricName md c" for c]
      res_bind_Inr_iff [of "set_metricType md c" for c] res_bind_Inr_iff [of "set_targetValue md c" for c]
      res_bind_Inr_iff [of "set_targetGpuUtilization md c" for c]
      res_bind_Inr_iff [of "set_targetMemoryUtilization md c" for c]
      res_bind_Inr_iff [of "set_activationThreshold md c" for c] res_bind_Inr_iff [of "set_gpuIndex md c" for c]
      res_bind_Inr_iff [of "set_aggregation md c" for c] res_bind_Inr_iff [of "set_cooldownSeconds md c" for c]
      res_bind_Inr_iff [of "set_pollIntervalSeconds md c" for c] res_bind_Inr_iff [of "set_endpoints md c" for c]
      parse_block checks_Inr well_formed_keys_def effective_config_def default_config_def)

section \<open>Properties\<close>

definition config_valid :: "scaler_config \<Rightarrow> bool" where
  "config_valid cfg \<longleftrightarrow>
     ValidMetricType (metricType cfg) \<and> aggregation cfg \<in> set aggregations \<and>
     -1 \<le> gpuIndex cfg \<and> in_int64 (gpuIndex cfg) \<and>
     0 \<le> cooldownSeconds cfg \<and> in_int64 (cooldownSeconds cfg) \<and>
     in_int64 (pollIntervalSeconds cfg) \<and> endpoints_ok cfg"

lemma atoi_ok_in_int64: "is_ok (atoi v) \<Longrightarrow> in_int64 (ok_of (atoi v))"
  by (auto simp: is_ok_iff intro: atoi_in_int64)

lemma valid_consts:
  "ValidMetricType MetricGPUUtilization" "ValidMetricType MetricMemoryUsedPercent"
  by (simp_all add: ValidMetricType_def)

lemma Get_valid: "Get n = Some p \<Longrightarrow> ValidMetricType (MetricType p)"
  using builtin_profile_ok by (auto simp: Get_Some_iff list_all_iff)

lemma effective_metricType_valid:
  assumes "well_formed_keys md"
  shows "ValidMetricType (metricType (effective_config md))"
proof -
  have "key_ok md ''profile'' (\<lambda>v. Get v \<noteq> None)" using assms by (simp add: well_formed_keys_def)
  then have p: "ValidMetricType (from_profile md MetricType MetricGPUUtilization)"
    by (auto simp: from_profile_def key_ok_def key_or_def valid_consts dest: Get_valid split: option.splits)
  have "key_ok md ''metricType'' ValidMetricType" using assms by (simp add: well_formed_keys_def)
  then have "ValidMetricType (key_or md ''metricType'' id (from_profile md MetricType MetricGPUUtilization))"
    using p by (simp add: key_ok_def key_or_def split: option.splits)
  then show ?thesis by (simp add: effective_config_def key_or_def valid_consts split: option.split)
qed

lemma int_key_range:
  assumes "key_ok md k (\<lambda>v. is_ok (atoi v) \<and> lo \<le> ok_of (atoi v))" "lo \<le> d" "in_int64 d"
  shows "lo \<le> key_or md k (\<lambda>v. ok_of (atoi v)) d" "in_int64 (key_or md k (\<lambda>v. ok_of (atoi v)) d)"
  using assms by (auto simp: key_ok_def key_or_def atoi_ok_in_int64 split: option.splits)

lemma in_int64_defaults: "in_int64 (-1)" "in_int64 10" "in_int64 60"
  by (simp_all add: in_int64_def min_int64_def max_int64_def)

lemma effective_config_valid:
  assumes "well_formed_keys md" "endpoints_ok (effective_config md)"
  shows "config_valid (effective_config md)"
proof -
  have keys: "key_ok md ''gpuIndex'' (\<lambda>v. is_ok (atoi v) \<and> -1 \<le> ok_of (atoi v))"
    "key_ok md ''cooldownSeconds'' (\<lambda>v. is_ok (atoi v) \<and> 0 \<le> ok_of (atoi v))"
    "key_ok md ''pollIntervalSeconds'' (\<lambda>v. is_ok (atoi v))"
    "key_ok md ''aggregation'' (\<lambda>v. v \<in> set aggregations)"
    using assms(1) by (simp_all add: well_formed_keys_def)
  have "in_int64 (key_or md ''pollIntervalSeconds'' (\<lambda>v. ok_of (atoi v)) 10)"
    using keys(3) by (auto simp: key_ok_def key_or_def atoi_ok_in_int64 in_int64_defaults split: option.splits)
  moreover have "key_or md ''aggregation'' id ''max'' \<in> set aggregations"
    using keys(4) by (simp add: key_ok_def key_or_def aggregations_def split: option.splits)
  ultimately show ?thesis
    using assms effective_metricType_valid [OF assms(1)]
      int_key_range [OF keys(1), of "-1"] int_key_range [OF keys(2), of 60]
    by (simp add: config_valid_def effective_config_def in_int64_defaults)
qed

definition metadata_keys :: "string list" where
  "metadata_keys = [''profile'', ''metricName'', ''metricType'', ''targetValue'', ''targetGpuUtilization'',
     ''targetMemoryUtilization'', ''activationThreshold'', ''gpuIndex'', ''aggregation'',
     ''cooldownSeconds'', ''pollIntervalSeconds'', ''vllmEndpoint'', ''tritonEndpoint'']"

text \<open>The metadata that spells out a configuration.\<close>

definition render_config :: "nat \<Rightarrow> nat \<Rightarrow> scaler_config \<Rightarrow> metadata" where
  "render_config t a cfg =
     [''metricName'' \<mapsto> metricName cfg, ''metricType'' \<mapsto> metricType cfg,
      ''targetValue'' \<mapsto> format_uint t, ''activationThreshold'' \<mapsto> format_uint a,
      ''gpuIndex'' \<mapsto> itoa (gpuIndex cfg), ''aggregation'' \<mapsto> aggregation cfg,
      ''cooldownSeconds'' \<mapsto> itoa (cooldownSeconds cfg),
      ''pollIntervalSeconds'' \<mapsto> itoa (pollIntervalSeconds cfg),
      ''vllmEndpoint'' \<mapsto> vllmEndpoint cfg, ''tritonEndpoint'' \<mapsto> tritonEndpoint cfg]"

text \<open>C5
  A parse that succeeds yields a valid configuration: a known metric type, one of the six
  aggregations, an index that is -1 or names a device, a cooldown that is not negative, integers
  that fit, and, for an engine metric, an endpoint; every endpoint given has passed the guard.\<close>

theorem parse_valid:
  assumes "parseMetadata md = Inr cfg"
  shows "config_valid cfg"
  using assms effective_config_valid by (simp add: parse_Inr_iff)

lemma parse_valid_witness:
  "config_valid \<lparr>metricName = ''keda_gpu_metric'', metricType = MetricGPUUtilization,
     targetValue = f64_of_nat 80, activationThreshold = f64_of_nat 0, gpuIndex = 3,
     aggregation = ''max'', pollIntervalSeconds = 10, cooldownSeconds = 60,
     vllmEndpoint = [], tritonEndpoint = []\<rparr>"
proof (rule parse_valid)
  have "atoi ''3'' = Inr 3" by (simp add: atoi_def parse_uint_def is_digit_def byte_def digit_val_def)
  then show "parseMetadata [''gpuIndex'' \<mapsto> ''3''] = Inr \<lparr>metricName = ''keda_gpu_metric'',
     metricType = MetricGPUUtilization, targetValue = f64_of_nat 80,
     activationThreshold = f64_of_nat 0, gpuIndex = 3, aggregation = ''max'',
     pollIntervalSeconds = 10, cooldownSeconds = 60, vllmEndpoint = [], tritonEndpoint = []\<rparr>"
    by (simp add: parse_Inr_iff well_formed_keys_def effective_config_def endpoints_ok_def
        key_ok_def key_or_def from_profile_def IsVLLMMetric_def IsTritonMetric_def metric_type_defs)
qed

text \<open>C4
  The precedence of the keys.  A parse succeeds exactly when every key present is well formed on
  its own and the endpoints of the effective configuration pass, and yields that configuration:
  targetMemoryUtilization over targetGpuUtilization over targetValue and metricType, those over
  the profile, the profile over the defaults, the cooldown and the other keys over their
  defaults, never over the profile.\<close>

theorem parse_precedence:
  "parseMetadata md = Inr cfg \<longleftrightarrow>
     well_formed_keys md \<and> endpoints_ok (effective_config md) \<and> cfg = effective_config md"
  by (rule parse_Inr_iff)

text \<open>C38
  Every valid configuration whose thresholds are natural numbers can be written down: the
  metadata that spells it out parses back to it, whatever its name, aggregation, index, cooldown
  and interval, up to the ends of the 64-bit range.\<close>

theorem render_parse_roundtrip:
  assumes "config_valid cfg" "targetValue cfg = f64_of_nat t" "activationThreshold cfg = f64_of_nat a"
    and "t \<le> 2 ^ 1023" "a \<le> 2 ^ 1023"
  shows "parseMetadata (render_config t a cfg) = Inr cfg"
proof -
  have eq: "effective_config (render_config t a cfg) = cfg"
    using assms by (simp add: effective_config_def render_config_def key_or_def from_profile_def
        parse_float_format_uint atoi_itoa config_valid_def)
  then show ?thesis
    using assms by (simp add: parse_Inr_iff well_formed_keys_def render_config_def key_ok_def
        parse_float_format_uint atoi_itoa config_valid_def)
qed

lemma render_parse_roundtrip_witness:
  "parseMetadata (render_config 80 5 (default_config\<lparr>gpuIndex := 2, activationThreshold := f64_of_nat 5\<rparr>))
     = Inr (default_config\<lparr>gpuIndex := 2, activationThreshold := f64_of_nat 5\<rparr>)"
  by (rule render_parse_roundtrip)
    (simp_all add: default_config_def config_valid_def ValidMetricType_def aggregations_def in_int64_def min_int64_def
      max_int64_def endpoints_ok_def valid_consts IsVLLMMetric_def IsTritonMetric_def metric_type_defs)

text \<open>
  Only the thirteen documented keys matter: two metadata maps that agree on them parse alike,
  to the same configuration or the same error.\<close>

theorem parse_reads_known_keys:
  assumes "\<forall>k \<in> set metadata_keys. md k = md' k"
  shows "parseMetadata md = parseMetadata md'"
  using assms by (simp add: metadata_keys_def parseMetadata_def set_profile_def set_metricName_def
      set_metricType_def set_targetValue_def set_targetGpuUtilization_def set_targetMemoryUtilization_def
      set_activationThreshold_def set_gpuIndex_def set_aggregation_def set_cooldownSeconds_def
      set_pollIntervalSeconds_def set_endpoints_def)

lemma parse_reads_known_keys_witness:
  "parseMetadata [''gpuIndex'' \<mapsto> ''3'', ''scalerAddress'' \<mapsto> ''gpu:6000''] = parseMetadata [''gpuIndex'' \<mapsto> ''3'']"
  by (rule parse_reads_known_keys) (simp add: metadata_keys_def)

text \<open>
  A profile on its own.  Naming a built-in profile and nothing else succeeds exactly for the
  profiles whose metric needs no engine endpoint, and sets the name, the metric and both
  thresholds; the cooldown stays at the default of 60 seconds, not at the profile's.\<close>

theorem profile_alone:
  assumes "Get n = Some p"
  shows "parseMetadata [''profile'' \<mapsto> n] =
    (if IsVLLMMetric (MetricType p) then Inl (MissingVLLMEndpoint (MetricType p))
     else if IsTritonMetric (MetricType p) then Inl (MissingTritonEndpoint (MetricType p))
     else Inr (default_config\<lparr>metricName := MetricName p, metricType := MetricType p,
            targetValue := TargetValue p, activationThreshold := ActivationValue p, cooldownSeconds := 60\<rparr>))"
  using assms
  by (simp add: parseMetadata_def set_profile_def set_metricName_def
      set_metricType_def set_targetValue_def set_targetGpuUtilization_def set_targetMemoryUtilization_def
      set_activationThreshold_def set_gpuIndex_def set_aggregation_def set_cooldownSeconds_def
      set_pollIntervalSeconds_def set_endpoints_def check_required_def check_vllm_endpoint_def
      check_triton_endpoint_def default_config_def)

lemma profile_alone_witness:
  "parseMetadata [''profile'' \<mapsto> ''training''] =
     Inr (default_config\<lparr>metricName := ''keda_gpu_training'', targetValue := f64_of_nat 90\<rparr>)"
  using profile_alone [of "''training''" "the (Get ''training'')"]
  by (simp add: Get_def builtin_profiles_def default_config_def IsVLLMMetric_def IsTritonMetric_def metric_type_defs)

end
