(* ===== verification/GoTime.thy ===== *)
theory GoTime
  imports Float64
begin

text \<open>
  Go's \<open>time\<close> package as the program uses it.  A \<open>time.Time\<close> holds the wall clock, here
  nanoseconds since the zero time, and, when it comes from \<open>time.Now\<close>, a reading of the
  monotonic clock, which \<open>Sub\<close> prefers.  A \<open>time.Duration\<close> is a 64-bit count of
  nanoseconds.
\<close>

record gotime =
  wall :: int
  mono :: "int option"

type_synonym duration = int

definition zero_time :: gotime where
  "zero_time = \<lparr>wall = 0, mono = None\<rparr>"

definition is_zero_time :: "gotime \<Rightarrow> bool" where
  "is_zero_time t \<longleftrightarrow> wall t = 0"

definition saturate64 :: "int \<Rightarrow> int" where
  "saturate64 i = max min_int64 (min max_int64 i)"

definition time_sub :: "gotime \<Rightarrow> gotime \<Rightarrow> duration" where
  "time_sub t u = (case (mono t, mono u) of
     (Some a, Some b) \<Rightarrow> saturate64 (a - b)
   | _ \<Rightarrow> saturate64 (wall t - wall u))"

definition nanos_per_second :: int where "nanos_per_second = 1000000000"

text \<open>\<open>time.Duration(n) * time.Second\<close>: the product wraps at 64 bits.\<close>

definition seconds :: "int \<Rightarrow> duration" where
  "seconds n = wrap64 (n * nanos_per_second)"

text \<open>Division and remainder of Go truncate towards zero.\<close>

definition quot :: "int \<Rightarrow> int \<Rightarrow> int" where
  "quot a b = (if a < 0 then - ((- a) div b) else a div b)"

definition rem :: "int \<Rightarrow> int \<Rightarrow> int" where
  "rem a b = a - b * quot a b"

text \<open>\<open>Duration.Seconds\<close>.\<close>

definition in_seconds :: "duration \<Rightarrow> f64" where
  "in_seconds d =
     f64_add (f64_of_int (quot d nanos_per_second))
       (f64_div (f64_of_int (rem d nanos_per_second)) (f64_of_nat 1000000000))"

lemma seconds_exact: "in_int64 (n * nanos_per_second) \<Longrightarrow> seconds n = n * nanos_per_second"
  by (simp add: seconds_def wrap64_id)

text \<open>The largest number of seconds whose duration does not wrap, and the first that does.\<close>

lemma seconds_max: "0 \<le> n \<Longrightarrow> n \<le> 9223372036 \<Longrightarrow> seconds n = n * nanos_per_second"
  by (rule seconds_exact) (simp add: in_int64_def min_int64_def max_int64_def nanos_per_second_def)

lemma seconds_wraps: "seconds 9223372037 = - 9223372036709551616"
  by (simp add: seconds_def wrap64_def nanos_per_second_def)

lemma f64_of_int_nat: "f64_of_int (int n) = f64_of_nat n"
  by (simp add: f64_of_int_def f64_of_nat_def f64_of_ratio_def)

lemma in_seconds_whole: "n \<le> 2 ^ 53 \<Longrightarrow> in_seconds (int n * nanos_per_second) = f64_of_nat n"
  using f64_of_int_nat [of 0] f64_div_of_nat [of 0 1000000000] f64_of_ratio_nat [of 1000000000 0]
  by (simp add: in_seconds_def quot_def rem_def nanos_per_second_def f64_of_int_nat)

text \<open>From there up to twice the range the wrapped duration is negative.\<close>

lemma seconds_negative: "9223372037 \<le> n \<Longrightarrow> n \<le> 18446744073 \<Longrightarrow> seconds n \<le> 0"
proof -
  assume n: "9223372037 \<le> n" "n \<le> 18446744073"
  define x where "x = n * nanos_per_second + 2 ^ 63 - 2 ^ 64"
  have x: "0 \<le> x" "x < 2 ^ 63" using n by (simp_all add: x_def nanos_per_second_def)
  then have "(x + 2 ^ 64) mod 2 ^ 64 = x" by simp
  then have "(n * nanos_per_second + 2 ^ 63) mod 2 ^ 64 = x" by (simp add: x_def add.commute)
  then show "seconds n \<le> 0" using x by (simp add: seconds_def wrap64_def)
qed

end
