(* ===== verification/Cooldown.thy ===== *)
theory Cooldown
  imports Config GoTime
begin

text \<open>
  The scale-down cooldown of \<open>pkg/scaler/server.go\<close>: one baseline per metric series, kept
  in a map under the scaler's mutex.  A call of \<open>applyCooldown\<close> is one atomic step; the
  clock reading it makes is an argument.
\<close>

record cooldown_key =
  namespace_k :: string
  name_k :: string
  metricName_k :: string
  metricType_k :: metric_type
  aggregation_k :: string
  gpuIndex_k :: int
  vllmEndpoint_k :: string
  tritonEndpoint_k :: string

text \<open>The part of a ScaledObjectRef message the scaler reads.\<close>

record scaled_object_ref =
  ref_name :: string
  ref_namespace :: string
  scalerMetadata :: metadata

definition newCooldownKey :: "scaled_object_ref \<Rightarrow> scaler_config \<Rightarrow> cooldown_key" where
  "newCooldownKey ref cfg = \<lparr>namespace_k = ref_namespace ref, name_k = ref_name ref,
     metricName_k = metricName cfg, metricType_k = metricType cfg,
     aggregation_k = aggregation cfg, gpuIndex_k = gpuIndex cfg,
     vllmEndpoint_k = vllmEndpoint cfg, tritonEndpoint_k = tritonEndpoint cfg\<rparr>"

definition cooldown_key_String :: "cooldown_key \<Rightarrow> string" where
  "cooldown_key_String k =
     namespace_k k @ ''/'' @ name_k k @ ''['' @ metricName_k k @ '' '' @ metricType_k k @ '' '' @
     aggregation_k k @ '' gpu='' @ itoa (gpuIndex_k k) @ '' vllm='' @ vllmEndpoint_k k @
     '' triton='' @ tritonEndpoint_k k @ '']''"

record cooldown_state =
  lastValue :: f64
  lastScaleDownAt :: gotime

type_synonym cooldowns = "cooldown_key \<rightharpoonup> cooldown_state"

definition applyCooldown ::
  "gotime \<Rightarrow> cooldown_key \<Rightarrow> f64 \<Rightarrow> duration \<Rightarrow> cooldowns \<Rightarrow> f64 \<times> cooldowns" where
  "applyCooldown now key value cooldown cds =
     (if cooldown \<le> 0 then (value, cds)
      else case cds key of
        None \<Rightarrow> (value, cds(key \<mapsto> \<lparr>lastValue = value, lastScaleDownAt = zero_time\<rparr>))
      | Some st \<Rightarrow>
          if f64_le (lastValue st) value then (value, cds(key \<mapsto> st\<lparr>lastValue := value\<rparr>))
          else if \<not> is_zero_time (lastScaleDownAt st) \<and>
                  time_sub now (lastScaleDownAt st) < cooldown then (lastValue st, cds)
          else (value, cds(key \<mapsto> st\<lparr>lastValue := value, lastScaleDownAt := now\<rparr>)))"

section \<open>Runs\<close>

text \<open>A run is a sequence of calls, of any number of series, each with its clock reading.\<close>

record cooldown_call =
  cc_now :: gotime
  cc_key :: cooldown_key
  cc_value :: f64
  cc_window :: duration

definition cooldown_step :: "cooldown_call \<Rightarrow> cooldowns \<Rightarrow> f64 \<times> cooldowns" where
  "cooldown_step c cds = applyCooldown (cc_now c) (cc_key c) (cc_value c) (cc_window c) cds"

fun cooldown_run :: "cooldown_call list \<Rightarrow> cooldowns \<Rightarrow> (cooldown_call \<times> f64) list \<times> cooldowns" where
  "cooldown_run [] cds = ([], cds)"
| "cooldown_run (c # cs) cds =
     (let (r, cds1) = cooldown_step c cds; (rs, cds2) = cooldown_run cs cds1 in ((c, r) # rs, cds2))"

text \<open>What a run reports for one series, in order.\<close>

definition reports :: "cooldown_key \<Rightarrow> cooldown_call list \<Rightarrow> cooldowns \<Rightarrow> (cooldown_call \<times> f64) list" where
  "reports k cs cds = filter (\<lambda>(c, r). cc_key c = k) (fst (cooldown_run cs cds))"

text \<open>The five branches, as equations.\<close>

lemma cd_off: "d \<le> 0 \<Longrightarrow> applyCooldown now key v d cds = (v, cds)"
  by (simp add: applyCooldown_def)

lemma cd_new: "0 < d \<Longrightarrow> cds key = None \<Longrightarrow> applyCooldown now key v d cds =
    (v, cds(key \<mapsto> \<lparr>lastValue = v, lastScaleDownAt = zero_time\<rparr>))"
  by (simp add: applyCooldown_def)

lemma cd_rise: "0 < d \<Longrightarrow> cds key = Some st \<Longrightarrow> f64_le (lastValue st) v \<Longrightarrow>
    applyCooldown now key v d cds = (v, cds(key \<mapsto> st\<lparr>lastValue := v\<rparr>))"
  by (simp add: applyCooldown_def)

definition window_open :: "gotime \<Rightarrow> duration \<Rightarrow> cooldown_state \<Rightarrow> bool" where
  "window_open now d st \<longleftrightarrow> \<not> is_zero_time (lastScaleDownAt st) \<and> time_sub now (lastScaleDownAt st) < d"

lemma cd_hold: "0 < d \<Longrightarrow> cds key = Some st \<Longrightarrow> \<not> f64_le (lastValue st) v \<Longrightarrow> window_open now d st \<Longrightarrow>
    applyCooldown now key v d cds = (lastValue st, cds)"
  by (simp add: applyCooldown_def window_open_def)

lemma cd_drop: "0 < d \<Longrightarrow> cds key = Some st \<Longrightarrow> \<not> f64_le (lastValue st) v \<Longrightarrow> \<not> window_open now d st \<Longrightarrow>
    applyCooldown now key v d cds = (v, cds(key \<mapsto> st\<lparr>lastValue := v, lastScaleDownAt := now\<rparr>))"
  by (auto simp: applyCooldown_def window_open_def)

lemma cd_cases [case_names off new rise hold drop]:
  obtains "d \<le> 0" | "0 < d" "cds key = None"
  | st where "0 < d" "cds key = Some st" "f64_le (lastValue st) v"
  | st where "0 < d" "cds key = Some st" "\<not> f64_le (lastValue st) v" "window_open now d st"
  | st where "0 < d" "cds key = Some st" "\<not> f64_le (lastValue st) v" "\<not> window_open now d st"
  by (cases "0 < d"; cases "cds key") (auto simp: not_less)

lemmas cd_eqs = cd_off cd_new cd_rise cd_hold cd_drop

lemma applyCooldown_other: "k \<noteq> key \<Longrightarrow> snd (applyCooldown now key v d cds) k = cds k"
  by (simp add: applyCooldown_def split: option.split)

lemma applyCooldown_local:
  assumes "cds key = cds' key"
  shows "fst (applyCooldown now key v d cds) = fst (applyCooldown now key v d cds')"
    and "snd (applyCooldown now key v d cds) key = snd (applyCooldown now key v d cds') key"
  using assms by (simp_all add: applyCooldown_def split: option.split)

lemma reports_Nil [simp]: "reports k [] cds = []"
  by (simp add: reports_def)

lemma reports_Cons:
  "reports k (c # cs) cds =
     (if cc_key c = k then [(c, fst (cooldown_step c cds))] else []) @ reports k cs (snd (cooldown_step c cds))"
  by (simp add: reports_def Let_def split: prod.split)

text \<open>A series sees only its own calls.\<close>

lemma reports_cong: "cds k = cds' k \<Longrightarrow> reports k cs cds = reports k (filter (\<lambda>c. cc_key c = k) cs) cds'"
proof (induction cs arbitrary: cds cds')
  case (Cons c cs)
  show ?case
  proof (cases "cc_key c = k")
    case True
    with Cons.prems applyCooldown_local [of cds k cds' "cc_now c" "cc_value c" "cc_window c"]
    have "fst (cooldown_step c cds) = fst (cooldown_step c cds')"
      "snd (cooldown_step c cds) k = snd (cooldown_step c cds') k"
      by (simp_all add: cooldown_step_def)
    with True Cons.IH show ?thesis by (simp add: reports_Cons)
  next
    case False
    then have "snd (cooldown_step c cds) k = cds' k"
      using Cons.prems by (simp add: cooldown_step_def applyCooldown_other)
    with False Cons.IH show ?thesis by (simp add: reports_Cons)
  qed
qed simp

section \<open>One step\<close>

text \<open>After a call with a positive window, the baseline is what was reported.\<close>

lemma baseline_is_report:
  assumes "0 < d"
  shows "\<exists>st. snd (applyCooldown now key v d cds) key = Some st
    \<and> lastValue st = fst (applyCooldown now key v d cds)"
  using assms
  by (cases rule: cd_cases [where d = d and cds = cds and key = key and v = v and now = now])
    (simp_all add: cd_eqs)

definition cooling_since :: "cooldowns \<Rightarrow> cooldown_key \<Rightarrow> int \<Rightarrow> bool" where
  "cooling_since cds key t \<longleftrightarrow> (\<exists>st. cds key = Some st \<and> \<not> is_zero_time (lastScaleDownAt st) \<and>
     (\<exists>t'. mono (lastScaleDownAt st) = Some t' \<and> t \<le> t'))"

definition clock_ok :: "gotime \<Rightarrow> bool" where
  "clock_ok t \<longleftrightarrow> \<not> is_zero_time t \<and> mono t \<noteq> None"

lemma saturate64_ge: "min_int64 < d \<Longrightarrow> d \<le> saturate64 x \<Longrightarrow> d \<le> x"
  by (auto simp: saturate64_def)

text \<open>A closed window has lasted its length.\<close>

lemma window_over:
  assumes "0 < d" "clock_ok now" "\<not> window_open now d st" "\<not> is_zero_time (lastScaleDownAt st)"
    "mono (lastScaleDownAt st) = Some t"
  shows "t + d \<le> the (mono now)"
proof -
  obtain a where a: "mono now = Some a" using assms(2) by (auto simp: clock_ok_def)
  have "\<not> time_sub now (lastScaleDownAt st) < d" using assms(3,4) by (simp add: window_open_def)
  then have "d \<le> saturate64 (a - t)" using assms(5) a by (simp add: time_sub_def)
  moreover have "min_int64 < d" using assms(1) by (simp add: min_int64_def)
  ultimately have "d \<le> a - t" by (simp only: saturate64_ge)
  then show ?thesis using a by simp
qed

text \<open>A report below the baseline is a scale-down: the window is over, and a new one starts.\<close>

lemma drop_branch:
  assumes "0 < d" "cds key = Some st"
    and "f64_lt (fst (applyCooldown now key v d cds)) (lastValue st)"
  shows "\<not> f64_le (lastValue st) v \<and> \<not> window_open now d st"
  using assms by (cases rule: cd_cases [where d = d and cds = cds and key = key and v = v and now = now]) (auto simp: cd_eqs f64_lt_def f64_le_def)

lemma drop_step:
  assumes d: "0 < d" and now: "clock_ok now" and st: "cds key = Some st"
    and drop: "f64_lt (fst (applyCooldown now key v d cds)) (lastValue st)"
  shows "cooling_since (snd (applyCooldown now key v d cds)) key (the (mono now))"
    and "cooling_since cds key t \<Longrightarrow> t + d \<le> the (mono now)"
proof -
  note b = drop_branch [OF d st drop]
  from now show "cooling_since (snd (applyCooldown now key v d cds)) key (the (mono now))"
    using b by (auto simp: cd_drop [where d = d and key = key and cds = cds] d st cooling_since_def clock_ok_def)
  assume "cooling_since cds key t"
  then obtain t' where "mono (lastScaleDownAt st) = Some t'" "t \<le> t'" "\<not> is_zero_time (lastScaleDownAt st)"
    using st by (auto simp: cooling_since_def)
  then show "t + d \<le> the (mono now)" using window_over [OF d now, of st t'] b by simp
qed

text \<open>No call moves the start of a series' window back.\<close>

lemma cooling_since_step:
  assumes c: "cooling_since cds k t" and now: "clock_ok now"
  shows "cooling_since (snd (applyCooldown now key v d cds)) k t"
proof (cases "k = key")
  case False
  then show ?thesis using c by (simp add: cooling_since_def applyCooldown_other)
next
  case True
  then obtain st0 t' where st0: "cds key = Some st0" "\<not> is_zero_time (lastScaleDownAt st0)"
      "mono (lastScaleDownAt st0) = Some t'" "t \<le> t'"
    using c by (auto simp: cooling_since_def)
  show ?thesis
  proof (cases rule: cd_cases [where d = d and cds = cds and key = key and v = v and now = now])
    case (drop st)
    then have "st = st0" using st0 by simp
    with drop st0 window_over [OF drop(1) now, of st t'] have "t \<le> the (mono now)" by simp
    then show ?thesis using drop now True by (auto simp: cd_drop cooling_since_def clock_ok_def)
  qed (use c st0 True in \<open>auto simp: cd_eqs cooling_since_def\<close>)
qed

section \<open>Spacing of scale-downs\<close>

text \<open>A call list is steady for a series when its calls carry one positive window and a real clock reading.\<close>

definition steady :: "cooldown_key \<Rightarrow> duration \<Rightarrow> cooldown_call list \<Rightarrow> bool" where
  "steady k d cs \<longleftrightarrow> 0 < d \<and> (\<forall>c \<in> set cs. cc_key c = k \<longrightarrow> cc_window c = d) \<and> (\<forall>c \<in> set cs. clock_ok (cc_now c))"

definition clock_of :: "cooldown_call \<Rightarrow> int" where
  "clock_of c = the (mono (cc_now c))"

lemma steady_Cons: "steady k d (c # cs) \<longleftrightarrow>
    steady k d cs \<and> (cc_key c = k \<longrightarrow> cc_window c = d) \<and> clock_ok (cc_now c)"
  by (auto simp: steady_def)

lemma steady_pos: "steady k d cs \<Longrightarrow> 0 < d"
  by (simp add: steady_def)

lemma reports_skip: "cc_key c \<noteq> k \<Longrightarrow> reports k (c # cs) cds = reports k cs (snd (cooldown_step c cds))"
  by (simp add: reports_Cons)

lemma cooldown_step_other: "cc_key c \<noteq> k \<Longrightarrow> snd (cooldown_step c cds) k = cds k"
  by (simp add: cooldown_step_def applyCooldown_other)

text \<open>From a state whose baseline for the series is \<open>b\<close>, the reports with \<open>b\<close> put before them.\<close>

definition drop_at :: "f64 \<Rightarrow> (cooldown_call \<times> f64) list \<Rightarrow> nat \<Rightarrow> bool" where
  "drop_at b rs i \<longleftrightarrow> i < length rs \<and> f64_lt (snd (rs ! i)) (if i = 0 then b else snd (rs ! (i - 1)))"

lemma drop_at_0 [simp]: "drop_at b (r # rs) 0 \<longleftrightarrow> f64_lt (snd r) b"
  by (simp add: drop_at_def)

lemma drop_at_Suc [simp]: "drop_at b (r # rs) (Suc i) \<longleftrightarrow> drop_at (snd r) rs i"
  by (cases i) (simp_all add: drop_at_def)

definition baseline :: "cooldowns \<Rightarrow> cooldown_key \<Rightarrow> f64 \<Rightarrow> bool" where
  "baseline cds k b \<longleftrightarrow> (\<exists>st. cds k = Some st \<and> lastValue st = b)"

lemma baseline_step:
  "steady k d (c # cs) \<Longrightarrow> cc_key c = k \<Longrightarrow> baseline (snd (cooldown_step c cds)) k (fst (cooldown_step c cds))"
  using baseline_is_report [of d "cc_now c" k "cc_value c" cds]
  by (auto simp: steady_Cons steady_pos baseline_def cooldown_step_def)

lemma cooling_step:
  "steady k d (c # cs) \<Longrightarrow> cooling_since cds k t \<Longrightarrow> cooling_since (snd (cooldown_step c cds)) k t"
  by (simp add: cooldown_step_def cooling_since_step steady_Cons)

lemma drop_now:
  assumes "steady k d (c # cs)" "cc_key c = k" "baseline cds k b" "f64_lt (fst (cooldown_step c cds)) b"
  shows "cooling_since (snd (cooldown_step c cds)) k (clock_of c)"
    and "cooling_since cds k t \<Longrightarrow> t + d \<le> clock_of c"
  using assms drop_step [of d "cc_now c" cds k _ "cc_value c"]
  by (auto simp: steady_Cons steady_pos baseline_def cooldown_step_def clock_of_def)

text \<open>While a series cools down from \<open>t\<close>, it is not scaled down before \<open>t + d\<close>.\<close>

lemma later_drops:
  assumes "steady k d cs" "baseline cds k b" "cooling_since cds k t" "drop_at b (reports k cs cds) j"
  shows "t + d \<le> clock_of (fst (reports k cs cds ! j))"
  using assms
proof (induction cs arbitrary: cds b j)
  case (Cons c cs)
  note st = Cons.prems(1)
  have st': "steady k d cs" using st by (simp add: steady_Cons)
  note cool = cooling_step [OF st Cons.prems(3)]
  show ?case
  proof (cases "cc_key c = k")
    case False
    then show ?thesis
      using Cons.IH [OF st', of "snd (cooldown_step c cds)" b j] cool Cons.prems(2,4)
      by (simp add: reports_skip cooldown_step_other baseline_def)
  next
    case True
    show ?thesis
    proof (cases j)
      case 0
      then show ?thesis using Cons.prems(2,3,4) drop_now(2) [OF st True] True by (simp add: reports_Cons)
    next
      case (Suc i)
      then show ?thesis
        using Cons.IH [OF st' baseline_step [OF st True] cool, of i] Cons.prems(4) True
        by (simp add: reports_Cons)
    qed
  qed
qed (simp add: drop_at_def)

lemma drops_spaced_from:
  assumes "steady k d cs" "baseline cds k b" "i < j"
    "drop_at b (reports k cs cds) i" "drop_at b (reports k cs cds) j"
  shows "clock_of (fst (reports k cs cds ! i)) + d \<le> clock_of (fst (reports k cs cds ! j))"
  using assms
proof (induction cs arbitrary: cds b i j)
  case (Cons c cs)
  note st = Cons.prems(1)
  have st': "steady k d cs" using st by (simp add: steady_Cons)
  show ?case
  proof (cases "cc_key c = k")
    case False
    then show ?thesis
      using Cons.IH [OF st', of "snd (cooldown_step c cds)" b i j] Cons.prems(2-5)
      by (simp add: reports_skip cooldown_step_other baseline_def)
  next
    case True
    obtain j' where j: "j = Suc j'" using Cons.prems(3) by (cases j) auto
    note base = baseline_step [OF st True, of cds]
    show ?thesis
    proof (cases i)
      case 0
      then show ?thesis
        using later_drops [OF st' base drop_now(1) [OF st True Cons.prems(2)], of j'] Cons.prems(4,5) True j
        by (simp add: reports_Cons)
    next
      case (Suc i')
      then show ?thesis
        using Cons.IH [OF st' base, of i' j'] Cons.prems(3-5) True j by (simp add: reports_Cons)
    qed
  qed
qed (simp add: drop_at_def)

text \<open>The first report sets the baseline; every later drop is one from a baseline.\<close>

lemma drops_spaced:
  assumes "steady k d cs" "0 < i" "i < j"
    "drop_at b (reports k cs cds) i" "drop_at b (reports k cs cds) j"
  shows "clock_of (fst (reports k cs cds ! i)) + d \<le> clock_of (fst (reports k cs cds ! j))"
  using assms
proof (induction cs arbitrary: cds)
  case (Cons c cs)
  note st = Cons.prems(1)
  have st': "steady k d cs" using st by (simp add: steady_Cons)
  show ?case
  proof (cases "cc_key c = k")
    case False
    then show ?thesis using Cons.IH [OF st'] Cons.prems(2-5) by (simp add: reports_skip)
  next
    case True
    obtain i' j' where ij: "i = Suc i'" "j = Suc j'" "i' < j'"
      using Cons.prems(2,3) by (cases i; cases j) auto
    then show ?thesis
      using drops_spaced_from [OF st' baseline_step [OF st True], of i' j'] Cons.prems(4,5) True
      by (simp add: reports_Cons)
  qed
qed (simp add: drop_at_def)

section \<open>Held reports\<close>

text \<open>
  Report \<open>i\<close> fell: it carries the new value, and that value is not at least the report
  before it (\<open>b\<close> is the report before the first).
\<close>

definition fell_at :: "f64 option \<Rightarrow> (cooldown_call \<times> f64) list \<Rightarrow> nat \<Rightarrow> bool" where
  "fell_at b rs i \<longleftrightarrow> i < length rs \<and> snd (rs ! i) = cc_value (fst (rs ! i)) \<and>
     (case (if i = 0 then b else Some (snd (rs ! (i - 1)))) of
        None \<Rightarrow> False | Some p \<Rightarrow> \<not> f64_le p (snd (rs ! i)))"

lemma fell_at_0 [simp]: "fell_at b (r # rs) 0 \<longleftrightarrow>
    snd r = cc_value (fst r) \<and> (case b of None \<Rightarrow> False | Some p \<Rightarrow> \<not> f64_le p (snd r))"
  by (simp add: fell_at_def split: option.split)

lemma fell_at_Suc [simp]: "fell_at b (r # rs) (Suc i) \<longleftrightarrow> fell_at (Some (snd r)) rs i"
  by (cases i) (simp_all add: fell_at_def)

text \<open>\<open>in_window d cds k t\<close>: the series' last scale-down is less than \<open>d\<close> before \<open>t\<close>.\<close>

definition in_window :: "duration \<Rightarrow> cooldowns \<Rightarrow> cooldown_key \<Rightarrow> int \<Rightarrow> bool" where
  "in_window d cds k t \<longleftrightarrow> (\<exists>st. cds k = Some st \<and> \<not> is_zero_time (lastScaleDownAt st) \<and>
     (\<forall>t0. mono (lastScaleDownAt st) = Some t0 \<longrightarrow> t < t0 + d))"

definition last_report :: "cooldowns \<Rightarrow> cooldown_key \<Rightarrow> f64 option" where
  "last_report cds k = map_option lastValue (cds k)"

lemma saturate64_less: "saturate64 x < d \<Longrightarrow> d \<le> max_int64 \<Longrightarrow> x < d"
  by (auto simp: saturate64_def split: if_splits)

lemma hold_in_window:
  assumes "0 < d" "d \<le> max_int64" "clock_ok now" "fst (applyCooldown now k v d cds) \<noteq> v"
  shows "in_window d cds k (the (mono now))"
  using assms(1)
proof (cases rule: cd_cases [where d = d and cds = cds and key = k and v = v and now = now])
  case (hold st)
  obtain a where a: "mono now = Some a" using assms(3) by (auto simp: clock_ok_def)
  have "a < t0 + d" if "mono (lastScaleDownAt st) = Some t0" for t0
  proof -
    have "saturate64 (a - t0) < d" using hold(4) that a by (simp add: window_open_def time_sub_def)
    then have "a - t0 < d" using assms(2) by (rule saturate64_less)
    then show ?thesis by simp
  qed
  then show ?thesis using hold a by (auto simp: in_window_def window_open_def)
qed (use assms(4) in \<open>auto simp: cd_eqs\<close>)

text \<open>A call that does not scale the series down leaves the window's start.\<close>

lemma in_window_step:
  assumes "0 < d" "clock_ok now" "in_window d (snd (applyCooldown now k v d cds)) k t"
  shows "in_window d cds k t \<or> (t < the (mono now) + d \<and> fst (applyCooldown now k v d cds) = v \<and>
      (case last_report cds k of None \<Rightarrow> False | Some p \<Rightarrow> \<not> f64_le p v))"
  using assms(1)
proof (cases rule: cd_cases [where d = d and cds = cds and key = k and v = v and now = now])
  case (drop st)
  then show ?thesis using assms(2,3) by (auto simp: cd_eqs in_window_def clock_ok_def last_report_def)
next
  case new
  then show ?thesis using assms(3) by (auto simp: cd_eqs in_window_def zero_time_def is_zero_time_def)
next
  case (rise st)
  then show ?thesis using assms(3) by (auto simp: cd_eqs in_window_def)
next
  case (hold st)
  then show ?thesis using assms(3) by (auto simp: cd_eqs in_window_def)
qed simp

lemma in_window_next:
  assumes "steady k d (c # cs)" "cc_key c = k" "in_window d (snd (cooldown_step c cds)) k t"
  shows "in_window d cds k t \<or>
    (t < clock_of c + d \<and> fell_at (last_report cds k) [(c, fst (cooldown_step c cds))] 0)"
proof -
  have step: "cooldown_step c cds = applyCooldown (cc_now c) k (cc_value c) d cds"
    using assms(1,2) by (simp add: cooldown_step_def steady_Cons)
  show ?thesis
    using in_window_step [of d "cc_now c" k "cc_value c" cds t] assms
    by (auto simp: step clock_of_def steady_Cons steady_pos cong: option.case_cong)
qed

lemma held_report:
  assumes "steady k d cs" "d \<le> max_int64" "j < length (reports k cs cds)"
    "snd (reports k cs cds ! j) \<noteq> cc_value (fst (reports k cs cds ! j))"
  shows "in_window d cds k (clock_of (fst (reports k cs cds ! j))) \<or>
    (\<exists>i<j. fell_at (last_report cds k) (reports k cs cds) i \<and>
       clock_of (fst (reports k cs cds ! j)) < clock_of (fst (reports k cs cds ! i)) + d)"
  using assms(1,3,4)
proof (induction cs arbitrary: cds j)
  case (Cons c cs)
  note st = Cons.prems(1)
  then have st': "steady k d cs" and d: "0 < d" and ok: "clock_ok (cc_now c)"
    by (auto simp: steady_Cons dest: steady_pos)
  let ?cds = "snd (cooldown_step c cds)"
  show ?case
  proof (cases "cc_key c = k")
    case False
    then show ?thesis
      using Cons.IH [OF st', of j ?cds] Cons.prems(2,3)
      by (simp add: reports_skip cooldown_step_other in_window_def last_report_def)
  next
    case True
    with st have w: "cc_window c = d" by (simp add: steady_Cons)
    show ?thesis
    proof (cases j)
      case 0
      then show ?thesis
        using Cons.prems(3) hold_in_window [OF d assms(2) ok, of k "cc_value c" cds] True w
        by (simp add: reports_Cons cooldown_step_def clock_of_def)
    next
      case (Suc j')
      let ?rs = "reports k cs ?cds" and ?r = "(c, fst (cooldown_step c cds))"
      have rs: "reports k (c # cs) cds = ?r # ?rs" using True by (simp add: reports_Cons)
      have lr: "last_report ?cds k = Some (snd ?r)"
        using baseline_step [OF st True] by (auto simp: baseline_def last_report_def)
      consider "in_window d ?cds k (clock_of (fst (?rs ! j')))"
        | i where "i < j'" "fell_at (Some (snd ?r)) ?rs i" "clock_of (fst (?rs ! j')) < clock_of (fst (?rs ! i)) + d"
        using Cons.IH [OF st', of j' ?cds] Cons.prems(2,3) rs Suc lr by auto
      then show ?thesis
      proof cases
        case 1
        then consider "in_window d cds k (clock_of (fst (?rs ! j')))"
          | "fell_at (last_report cds k) [?r] 0" "clock_of (fst (?rs ! j')) < clock_of c + d"
          using in_window_next [OF st True] by blast
        then show ?thesis
        proof cases
          case 2
          from 2(1) have "fell_at (last_report cds k) (?r # ?rs) 0" unfolding fell_at_0 .
          then show ?thesis using 2(2) unfolding rs Suc by (intro disjI2 exI [of _ 0] conjI) (auto split: option.splits)
        qed (use rs Suc in simp)
      next
        case (2 i)
        then show ?thesis using rs Suc by (auto intro!: exI [of _ "Suc i"])
      qed
    qed
  qed
qed simp

text \<open>A report is the call's value, or the report before it where that is not below the value.\<close>

lemma step_tracks:
  assumes "0 < d"
  shows "\<not> f64_lt (fst (applyCooldown now k v d cds)) v \<and>
    (fst (applyCooldown now k v d cds) = v \<or> Some (fst (applyCooldown now k v d cds)) = last_report cds k)"
  using assms
proof (cases rule: cd_cases [where d = d and cds = cds and key = k and v = v and now = now])
  case (hold st)
  then show ?thesis by (auto simp: cd_hold last_report_def f64_le_def f64_lt_def split: if_splits)
qed (auto simp: cd_eqs f64_lt_def)

lemma run_tracks:
  assumes "steady k d cs" "i < length (reports k cs cds)"
  shows "\<not> f64_lt (snd (reports k cs cds ! i)) (cc_value (fst (reports k cs cds ! i))) \<and>
    (snd (reports k cs cds ! i) = cc_value (fst (reports k cs cds ! i)) \<or>
     (if i = 0 then last_report cds k else Some (snd (reports k cs cds ! (i - 1))))
       = Some (snd (reports k cs cds ! i)))"
  using assms
proof (induction cs arbitrary: cds i)
  case (Cons c cs)
  note st = Cons.prems(1)
  then have st': "steady k d cs" by (simp add: steady_Cons)
  show ?case
  proof (cases "cc_key c = k")
    case False
    then show ?thesis using Cons.IH [OF st', of i "snd (cooldown_step c cds)"] Cons.prems(2)
      by (auto simp: reports_skip cooldown_step_other last_report_def split: if_splits)
  next
    case True
    have w: "cc_window c = d" "0 < d" using st True by (auto simp: steady_Cons dest: steady_pos)
    have lr: "last_report (snd (cooldown_step c cds)) k = Some (fst (cooldown_step c cds))"
      using baseline_step [OF st True] by (auto simp: baseline_def last_report_def)
    show ?thesis
    proof (cases i)
      case 0
      then show ?thesis using step_tracks [OF w(2), of "cc_now c" k "cc_value c" cds] True w
        by (auto simp: reports_Cons cooldown_step_def)
    next
      case (Suc i')
      then show ?thesis
        using Cons.IH [OF st', of i' "snd (cooldown_step c cds)"] Cons.prems(2) True lr
        by (cases i') (auto simp: reports_Cons)
    qed
  qed
qed simp

section \<open>A NaN reading\<close>





section \<open>Properties\<close>

definition scaled_down :: "(cooldown_call \<times> f64) list \<Rightarrow> nat \<Rightarrow> bool" where
  "scaled_down rs i \<longleftrightarrow> 0 < i \<and> i < length rs \<and> f64_lt (snd (rs ! i)) (snd (rs ! (i - 1)))"

definition demo_key :: cooldown_key where
  "demo_key = newCooldownKey \<lparr>ref_name = ''infer'', ref_namespace = ''prod'', scalerMetadata = Map.empty\<rparr> default_config"

definition demo_call :: "int \<Rightarrow> f64 \<Rightarrow> cooldown_call" where
  "demo_call t v = \<lparr>cc_now = \<lparr>wall = t, mono = Some t\<rparr>, cc_key = demo_key, cc_value = v,
     cc_window = seconds 30\<rparr>"

definition demo_run :: "cooldown_call list" where
  "demo_run = [demo_call 1000000000 (f64_of_nat 90), demo_call 2000000000 (f64_of_nat 60),
     demo_call 12000000000 (f64_of_nat 10), demo_call 40000000000 (f64_of_nat 20)]"

lemma demo_reports: "reports demo_key demo_run Map.empty =
    [(demo_call 1000000000 (f64_of_nat 90), f64_of_nat 90), (demo_call 2000000000 (f64_of_nat 60), f64_of_nat 60),
     (demo_call 12000000000 (f64_of_nat 10), f64_of_nat 60), (demo_call 40000000000 (f64_of_nat 20), f64_of_nat 20)]"
  by (simp add: demo_run_def demo_call_def reports_Cons cooldown_step_def applyCooldown_def f64_of_nat_le_iff
      seconds_max nanos_per_second_def is_zero_time_def zero_time_def time_sub_def saturate64_def
      min_int64_def max_int64_def)

lemma demo_steady: "steady demo_key (seconds 30) demo_run"
  by (simp add: steady_def demo_run_def demo_call_def clock_ok_def is_zero_time_def seconds_max nanos_per_second_def)

text \<open>
  Scale-downs of one series are at least the cooldown apart.  In any run of calls, mixed
  with calls of other series, whose calls for the series carry the same positive window, two
  reports each below the report before it are at least the window apart on the monotonic
  clock.\<close>

theorem scale_downs_spaced:
  assumes "steady k d calls" "i < j"
    and "scaled_down (reports k calls cds) i" "scaled_down (reports k calls cds) j"
  shows "clock_of (fst (reports k calls cds ! i)) + d \<le> clock_of (fst (reports k calls cds ! j))"
  using drops_spaced [OF assms(1) _ assms(2), of "f64_of_nat 0" cds] assms(3,4)
  by (simp add: scaled_down_def drop_at_def)

lemma scale_downs_spaced_witness:
  "clock_of (fst (reports demo_key demo_run Map.empty ! 1)) + seconds 30
     \<le> clock_of (fst (reports demo_key demo_run Map.empty ! 3))"
  by (rule scale_downs_spaced [OF demo_steady]) (simp_all add: scaled_down_def demo_reports)

text \<open>
  A report that differs from the value just read is always explained by an earlier report of
  the same series that was itself a drop, less than the window ago.  From a series with no
  baseline, the cooldown holds nothing back before the first drop or after the window of the
  last one.\<close>

theorem held_only_in_window:
  assumes "steady k d calls" "d \<le> max_int64" "cds k = None"
    and "rs = reports k calls cds" "j < length rs" "snd (rs ! j) \<noteq> cc_value (fst (rs ! j))"
  shows "\<exists>i<j. 0 < i \<and> snd (rs ! i) = cc_value (fst (rs ! i)) \<and> \<not> f64_le (snd (rs ! (i - 1))) (snd (rs ! i)) \<and>
    clock_of (fst (rs ! j)) < clock_of (fst (rs ! i)) + d"
proof -
  have "\<exists>i<j. fell_at None rs i \<and> clock_of (fst (rs ! j)) < clock_of (fst (rs ! i)) + d"
    using held_report [OF assms(1,2), of j cds] assms(3-6) by (simp add: in_window_def last_report_def)
  then show ?thesis by (auto simp: fell_at_def split: if_splits)
qed

lemma held_only_in_window_witness:
  "\<exists>i<2. 0 < i \<and> clock_of (demo_call 12000000000 (f64_of_nat 10))
      < clock_of (fst (reports demo_key demo_run Map.empty ! i)) + seconds 30"
  using held_only_in_window [OF demo_steady _ _ refl, of Map.empty 2]
  by (auto simp: demo_reports seconds_max nanos_per_second_def max_int64_def demo_call_def)

text \<open>
  What is reported for a series is never below the value just read, and is either that value
  or what was reported for the series the time before.\<close>

theorem reports_track_values:
  assumes "steady k d calls" "cds k = None" "rs = reports k calls cds" "i < length rs"
  shows "\<not> f64_lt (snd (rs ! i)) (cc_value (fst (rs ! i))) \<and>
    (snd (rs ! i) = cc_value (fst (rs ! i)) \<or> (0 < i \<and> snd (rs ! i) = snd (rs ! (i - 1))))"
  using run_tracks [OF assms(1), of i cds] assms(2-4) by (auto simp: last_report_def split: if_splits)

lemma reports_track_values_witness:
  "\<not> f64_lt (snd (reports demo_key demo_run Map.empty ! 2)) (cc_value (fst (reports demo_key demo_run Map.empty ! 2)))"
  using reports_track_values [OF demo_steady _ refl, of Map.empty 2] by (simp add: demo_reports)

text \<open>
  Two requests share a series exactly when they agree on the object's namespace and name and
  on the metric, its type, the aggregation, the GPU index and both endpoints.\<close>

lemma same_series_iff:
  "newCooldownKey ref cfg = newCooldownKey ref' cfg' \<longleftrightarrow>
     ref_namespace ref = ref_namespace ref' \<and> ref_name ref = ref_name ref' \<and>
     metricName cfg = metricName cfg' \<and> metricType cfg = metricType cfg' \<and>
     aggregation cfg = aggregation cfg' \<and> gpuIndex cfg = gpuIndex cfg' \<and>
     vllmEndpoint cfg = vllmEndpoint cfg' \<and> tritonEndpoint cfg = tritonEndpoint cfg'"
  by (auto simp: newCooldownKey_def)

text \<open>
  Series do not disturb each other: what is reported for one series in a run is what would be
  reported had only its own calls been made, from any state with the same entry for it.\<close>

theorem series_isolated:
  assumes "cds k = cds' k"
  shows "reports k calls cds = reports k (filter (\<lambda>c. cc_key c = k) calls) cds'"
  using assms by (rule reports_cong)

lemma series_isolated_witness:
  "reports demo_key demo_run Map.empty =
     reports demo_key (filter (\<lambda>c. cc_key c = demo_key) demo_run) [demo_key\<lparr>gpuIndex_k := 3\<rparr> \<mapsto> \<lparr>lastValue = NaN, lastScaleDownAt = zero_time\<rparr>]"
  by (rule series_isolated) (simp add: demo_key_def newCooldownKey_def default_config_def)



end
