(* ===== verification/Gpu.thy ===== *)
theory Gpu
  imports GoStrconv
begin

text \<open>
  \<open>pkg/gpu\<close>, the part every client of it sees: the \<open>Metrics\<close> snapshot, the
  \<open>MetricsCollector\<close> interface, and the mock collector behind \<open>--mock-gpus\<close>.
\<close>

section \<open>Metrics\<close>

record metrics =
  Index :: int
  UUID :: string
  Name_gpu :: string
  GPUUtilization :: u32
  MemoryUtilization :: u32
  MemoryUsedMiB :: u64
  MemoryTotalMiB :: u64
  TemperatureCelsius :: u32
  PowerDrawWatts :: u32
  PowerLimitWatts :: u32
  PCIeTxKBps :: u32
  PCIeRxKBps :: u32
  NVLinkTxMBps :: u64
  NVLinkRxMBps :: u64
  IsMIGInstance :: bool
  ParentIndex :: int
  MigProfile :: string

text \<open>The zero value \<open>Metrics{}\<close>.\<close>

definition zero_metrics :: metrics where
  "zero_metrics = \<lparr>Index = 0, UUID = [], Name_gpu = [], GPUUtilization = 0, MemoryUtilization = 0,
     MemoryUsedMiB = 0, MemoryTotalMiB = 0, TemperatureCelsius = 0, PowerDrawWatts = 0,
     PowerLimitWatts = 0, PCIeTxKBps = 0, PCIeRxKBps = 0, NVLinkTxMBps = 0, NVLinkRxMBps = 0,
     IsMIGInstance = False, ParentIndex = 0, MigProfile = []\<rparr>"

text \<open>The errors of the collectors, one constructor per message; NVML return codes are numbers.\<close>

datatype gpu_error =
    InitFailed int
  | ShutdownFailed int
  | DeviceCountFailed int
  | UUIDNotFound string int
  | IndexOfUUIDUnknown string int
  | DeviceHandleFailed int int
  | CollectionHangs
  | MockIndexOutOfRange int int
  | MockUUIDNotFound string
  | MockError string

section \<open>The collector interface\<close>

text \<open>
  A value of the interface type: its methods, over the state \<open>'s\<close> of whatever implements
  it.  Every call may read and change that state.
\<close>

record 's metrics_collector =
  CollectAll :: "'s \<Rightarrow> (gpu_error, metrics list) result \<times> 's"
  CollectDevice :: "int \<Rightarrow> 's \<Rightarrow> (gpu_error, metrics) result \<times> 's"
  CollectByUUID :: "string \<Rightarrow> 's \<Rightarrow> (gpu_error, metrics) result \<times> 's"
  DeviceCount :: "'s \<Rightarrow> (gpu_error, int) result \<times> 's"
  DriverVersion :: "'s \<Rightarrow> string"
  Close :: "'s \<Rightarrow> (gpu_error, unit) result \<times> 's"

text \<open>
  What the clients rely on: a collection keeps the implementation's invariant, a device
  asked for by index is the device returned, and the driver version never changes.
\<close>

locale collector =
  fixes C :: "'s metrics_collector"
    and inv :: "'s \<Rightarrow> bool"
  assumes inv_all: "inv s \<Longrightarrow> inv (snd (CollectAll C s))"
    and inv_device: "inv s \<Longrightarrow> inv (snd (CollectDevice C i s))"
    and inv_uuid: "inv s \<Longrightarrow> inv (snd (CollectByUUID C u s))"
    and inv_count: "inv s \<Longrightarrow> inv (snd (DeviceCount C s))"
    and device_index: "inv s \<Longrightarrow> fst (CollectDevice C i s) = Inr m \<Longrightarrow> Index m = i"
    and version_all: "DriverVersion C (snd (CollectAll C s)) = DriverVersion C s"
    and version_device: "DriverVersion C (snd (CollectDevice C i s)) = DriverVersion C s"
    and version_uuid: "DriverVersion C (snd (CollectByUUID C u s)) = DriverVersion C s"
    and version_count: "DriverVersion C (snd (DeviceCount C s)) = DriverVersion C s"

section \<open>The mock collector\<close>

record mock_collector =
  Devices :: "metrics list"
  DriverVer :: string
  deviceCountErr :: "string option"

definition NewMockCollector :: "metrics list \<Rightarrow> mock_collector" where
  "NewMockCollector ds = \<lparr>Devices = ds, DriverVer = [], deviceCountErr = None\<rparr>"

definition SetDeviceCountErr :: "string option \<Rightarrow> mock_collector \<Rightarrow> mock_collector" where
  "SetDeviceCountErr e m = m\<lparr>deviceCountErr := e\<rparr>"

definition mock_CollectAll :: "mock_collector \<Rightarrow> (gpu_error, metrics list) result \<times> mock_collector" where
  "mock_CollectAll m = (Inr (Devices m), m)"

definition mock_CollectDevice :: "int \<Rightarrow> mock_collector \<Rightarrow> (gpu_error, metrics) result \<times> mock_collector" where
  "mock_CollectDevice i m =
     (if i < 0 \<or> int (length (Devices m)) \<le> i
      then (Inl (MockIndexOutOfRange i (int (length (Devices m)) - 1)), m)
      else (Inr (Devices m ! nat i), m))"

definition mock_CollectByUUID :: "string \<Rightarrow> mock_collector \<Rightarrow> (gpu_error, metrics) result \<times> mock_collector" where
  "mock_CollectByUUID u m = (case find (\<lambda>d. UUID d = u) (Devices m) of
     Some d \<Rightarrow> (Inr d, m)
   | None \<Rightarrow> (Inl (MockUUIDNotFound u), m))"

definition mock_DeviceCount :: "mock_collector \<Rightarrow> (gpu_error, int) result \<times> mock_collector" where
  "mock_DeviceCount m = (case deviceCountErr m of
     Some e \<Rightarrow> (Inl (MockError e), m)
   | None \<Rightarrow> (Inr (int (length (Devices m))), m))"

definition mock_Close :: "mock_collector \<Rightarrow> (gpu_error, unit) result \<times> mock_collector" where
  "mock_Close m = (Inr (), m)"

definition mock_ops :: "mock_collector metrics_collector" where
  "mock_ops = \<lparr>CollectAll = mock_CollectAll, CollectDevice = mock_CollectDevice,
     CollectByUUID = mock_CollectByUUID, DeviceCount = mock_DeviceCount,
     DriverVersion = DriverVer, Close = mock_Close\<rparr>"

text \<open>\<open>fmt.Sprintf("GPU-mock-%08d", i)\<close> for a non-negative index.\<close>

definition mock_uuid :: "nat \<Rightarrow> string" where
  "mock_uuid i = ''GPU-mock-'' @ replicate (8 - length (format_uint i)) (CHR ''0'') @ format_uint i"

definition mock_total_mib :: u64 where "mock_total_mib = 81920"

definition mock_device :: "u32 \<Rightarrow> nat \<Rightarrow> metrics" where
  "mock_device utilization i = zero_metrics\<lparr>
     Index := int i, UUID := mock_uuid i, Name_gpu := ''Mock GPU'',
     GPUUtilization := utilization, MemoryUtilization := utilization,
     MemoryUsedMiB := mock_total_mib * ucast utilization div 100,
     MemoryTotalMiB := mock_total_mib,
     TemperatureCelsius := 40 + utilization div 4,
     PowerDrawWatts := 100 + 3 * utilization,
     PowerLimitWatts := 400,
     ParentIndex := -1\<rparr>"

text \<open>
  \<open>NewMockDevices\<close>; \<open>None\<close> is the panic of \<open>make\<close>: a capacity that is negative, or whose
  elements, 136 bytes each on a 64-bit machine, would take more than the address space of Go's heap.
  A process that runs out of memory before that is not modelled.
\<close>

definition metrics_bytes :: int where "metrics_bytes = 136"

definition max_alloc :: int where "max_alloc = 2 ^ 48"

definition NewMockDevices :: "int \<Rightarrow> u32 \<Rightarrow> metrics list option" where
  "NewMockDevices count utilization =
     (if count < 0 \<or> max_alloc < count * metrics_bytes then None
      else Some (map (mock_device (if 100 < utilization then 100 else utilization)) [0..<nat count]))"

section \<open>Facts\<close>

lemmas mock_defs = mock_CollectAll_def mock_CollectDevice_def mock_CollectByUUID_def
  mock_DeviceCount_def mock_Close_def

lemma mock_ops_simps [simp]:
  "CollectAll mock_ops = mock_CollectAll"
  "CollectDevice mock_ops = mock_CollectDevice"
  "CollectByUUID mock_ops = mock_CollectByUUID"
  "DeviceCount mock_ops = mock_DeviceCount"
  "DriverVersion mock_ops = DriverVer"
  "Close mock_ops = mock_Close"
  by (simp_all add: mock_ops_def)

text \<open>Every device carries its own position; \<open>NewMockDevices\<close> establishes it.\<close>

definition mock_inv :: "mock_collector \<Rightarrow> bool" where
  "mock_inv m \<longleftrightarrow> (\<forall>i < length (Devices m). Index (Devices m ! i) = int i)"

lemma mock_state_unchanged [simp]:
  "snd (mock_CollectAll m) = m"
  "snd (mock_CollectDevice i m) = m"
  "snd (mock_CollectByUUID u m) = m"
  "snd (mock_DeviceCount m) = m"
  by (simp_all add: mock_defs split: option.split)

interpretation mock: collector mock_ops mock_inv
  by unfold_locales (auto simp: mock_CollectDevice_def mock_inv_def split: if_splits)

lemma mock_devices_inv: "NewMockDevices n u = Some ds \<Longrightarrow> mock_inv (NewMockCollector ds)"
  by (auto simp: NewMockDevices_def mock_inv_def NewMockCollector_def mock_device_def split: if_splits)

end
