(* ===== verification/Aggregate.thy ===== *)
theory Aggregate
  imports Profiles Gpu "HOL-Library.Multiset"
begin

text \<open>
  \<open>extractMetric\<close>, \<open>aggregate\<close> and \<open>percentile\<close> of \<open>pkg/scaler/server.go\<close>: from the
  snapshots of the GPUs to the one number reported.
\<close>

definition u_float :: "'a::len word \<Rightarrow> f64" where
  "u_float w = f64_of_nat (unat w)"

definition extractMetric :: "metrics \<Rightarrow> metric_type \<Rightarrow> f64" where
  "extractMetric m t =
     (if t = MetricGPUUtilization then u_float (GPUUtilization m)
      else if t = MetricMemoryUtilization then u_float (MemoryUtilization m)
      else if t = MetricMemoryUsedMiB then u_float (MemoryUsedMiB m)
      else if t = MetricMemoryUsedPercent then
        (if MemoryTotalMiB m = 0 then f64_of_nat 0
         else f64_mul (f64_div (u_float (MemoryUsedMiB m)) (u_float (MemoryTotalMiB m))) (f64_of_nat 100))
      else if t = MetricTemperature then u_float (TemperatureCelsius m)
      else if t = MetricPowerDraw then u_float (PowerDrawWatts m)
      else if t = MetricPCIeTxKBps then u_float (PCIeTxKBps m)
      else if t = MetricPCIeRxKBps then u_float (PCIeRxKBps m)
      else if t = MetricNVLinkTxMBps then u_float (NVLinkTxMBps m)
      else if t = MetricNVLinkRxMBps then u_float (NVLinkRxMBps m)
      else u_float (GPUUtilization m))"

text \<open>
  \<open>sort.Float64s\<close>: ascending, NaN first.  The model inserts each element after its equals,
  as the insertion sort does that Go uses for short slices; elements that compare equal
  differ at most in the sign of a zero.
\<close>

definition f64_less :: "f64 \<Rightarrow> f64 \<Rightarrow> bool" where
  "f64_less x y \<longleftrightarrow> f64_lt x y \<or> f64_is_nan x \<and> \<not> f64_is_nan y"

fun insert_sorted :: "f64 \<Rightarrow> f64 list \<Rightarrow> f64 list" where
  "insert_sorted x [] = [x]"
| "insert_sorted x (y # ys) = (if f64_less x y then x # y # ys else y # insert_sorted x ys)"

definition sort_float64s :: "f64 list \<Rightarrow> f64 list" where
  "sort_float64s xs = fold insert_sorted xs []"

text \<open>
  \<open>int(math.Ceil(x))\<close>; the conversion of a value outside 64 bits is left to the
  implementation by Go and gives the least integer on amd64.
\<close>

definition ceil_int :: "f64 \<Rightarrow> int" where
  "ceil_int x =
     (let c = - ((- f64_units x) div int unit_exp)
      in if f64_is_finite x \<and> in_int64 c then c else min_int64)"

text \<open>\<open>percentile\<close>; \<open>None\<close> is the index panic on an empty slice.\<close>

definition percentile_index :: "nat \<Rightarrow> f64 \<Rightarrow> int" where
  "percentile_index n p =
     (let idx = ceil_int (f64_mul p (f64_of_nat n)) - 1;
          idx1 = (if idx < 0 then 0 else idx)
      in if int n \<le> idx1 then int n - 1 else idx1)"

definition percentile :: "f64 list \<Rightarrow> f64 \<Rightarrow> f64 option" where
  "percentile values p =
     (let sorted = sort_float64s values; idx = percentile_index (length sorted) p
      in if 0 \<le> idx \<and> idx < int (length sorted) then Some (sorted ! nat idx) else None)"

definition sum_floats :: "f64 list \<Rightarrow> f64" where
  "sum_floats vs = fold (\<lambda>v s. f64_add s v) vs (f64_of_nat 0)"

definition aggregate :: "f64 list \<Rightarrow> string \<Rightarrow> f64 option" where
  "aggregate values method =
     (if values = [] then Some (f64_of_nat 0)
      else if method = ''max'' then
        Some (fold (\<lambda>v m. if f64_lt m v then v else m) (tl values) (hd values))
      else if method = ''min'' then
        Some (fold (\<lambda>v m. if f64_lt v m then v else m) (tl values) (hd values))
      else if method = ''avg'' then
        Some (f64_div (sum_floats values) (f64_of_nat (length values)))
      else if method = ''sum'' then Some (sum_floats values)
      else if method = ''p95'' then percentile values (f64_of_ratio 95 100)
      else if method = ''p99'' then percentile values (f64_of_ratio 99 100)
      else Some (hd values))"

section \<open>The percentile index\<close>

text \<open>The two constants of the source, as doubles.\<close>

lemma fl_95: "f64_of_ratio 95 100 = F False (1021 * 2 ^ 52 + 8556839292003942)"
  unfolding f64_of_ratio_def f64_round_def
  by (subst ratio_mag [where m = 8556839292003942]) (simp_all add: inf_mag_def)

lemma fl_99: "f64_of_ratio 99 100 = F False (1021 * 2 ^ 52 + 8917127262193582)"
  unfolding f64_of_ratio_def f64_round_def
  by (subst ratio_mag [where m = 8917127262193582]) (simp_all add: inf_mag_def)

lemma neg_div_eq:
  fixes u d j :: int
  assumes "0 < d" "(j - 1) * d < u" "u \<le> j * d"
  shows "- ((- u) div d) = j"
proof -
  have "(- u) div d = - j"
    using assms by (intro int_div_pos_eq [of "- u" d "- j" "j * d - u"]) (auto simp: algebra_simps)
  then show ?thesis by simp
qed

text \<open>A product that lies above the integer before \<open>j\<close> by 1/128 and not above \<open>j\<close> rounds up to \<open>j\<close>.\<close>

lemma ceil_int_product:
  assumes m: "m < 2 ^ 53" "2 ^ 52 \<le> m" and n: "n \<le> 2 ^ 40" and j: "0 < j" "j \<le> 2 ^ 40"
    and lo: "(128 * (j - 1) + 1) * 2 ^ 46 \<le> m * n" and hi: "m * n \<le> j * 2 ^ 53"
  shows "ceil_int (f64_mul (F False (1021 * 2 ^ 52 + m)) (f64_of_nat n)) = int j"
proof -
  have n53: "n \<le> 2 ^ 53" "j \<le> 2 ^ 53" "128 * (j - 1) + 1 \<le> 2 ^ 53" using n j by simp_all
  let ?num = "(m * 2 ^ 1021) * (n * unit_exp)"
  define r where "r = round_mag ?num unit_exp"
  have mk: "mag_units (1021 * 2 ^ 52 + m) = m * 2 ^ 1021" using m by (intro mag_units_scaled) simp_all
  have lt: "1021 * 2 ^ 52 + m < inf_mag" using m by (simp add: inf_mag_def)
  define q where "q = units_floor ((128 * (j - 1) + 1) * 2 ^ 1067)"
  have q: "mag_units q = (128 * (j - 1) + 1) * 2 ^ 1067" unfolding q_def by (rule representable) (rule n53(3))
  have split: "(2::nat) ^ 1067 = 2 ^ 46 * 2 ^ 1021" "unit_exp = 2 ^ 53 * 2 ^ 1021"
    "unit_exp = 128 * 2 ^ 1067"
    by (simp_all only: unit_exp_def power_add [symmetric]) simp_all
  have "q \<le> r" unfolding r_def
  proof (rule round_mag_ge)
    have "((128 * (j - 1) + 1) * 2 ^ 46) * (2 ^ 1021 * unit_exp) \<le> (m * n) * (2 ^ 1021 * unit_exp)"
      using lo by (rule mult_le_mono1)
    then show "mag_units q * unit_exp \<le> ?num" by (simp only: q split(1) ac_simps)
  qed simp
  then have above: "(128 * (j - 1) + 1) * 2 ^ 1067 \<le> mag_units r" unfolding q [symmetric] by simp
  have rj: "r \<le> nat_mag j" unfolding r_def
  proof (rule round_mag_le)
    have "(m * n) * (2 ^ 1021 * unit_exp) \<le> (j * 2 ^ 53) * (2 ^ 1021 * unit_exp)"
      using hi by (rule mult_le_mono1)
    also have "(j * 2 ^ 53) * (2 ^ 1021 * unit_exp) = (j * unit_exp) * unit_exp"
      by (subst (2) split(2)) (simp only: ac_simps)
    finally show "?num \<le> mag_units (nat_mag j) * unit_exp"
      by (simp only: nat_mag_exact [OF n53(2)] ac_simps)
  qed simp
  then have "mag_units r \<le> mag_units (nat_mag j)" by simp
  then have below: "mag_units r \<le> j * unit_exp" by (simp only: nat_mag_exact [OF n53(2)])
  have fin: "r < inf_mag" using rj nat_mag_fin_small [OF n53(2)] by simp
  have val: "f64_mul (F False (1021 * 2 ^ 52 + m)) (f64_of_nat n) = F False r"
  proof -
    have "f64_mul (F False k) (F False l) = F False r"
      if "k < inf_mag" "l < inf_mag" "mag_units k * mag_units l = ?num" for k l
      using that fin by (simp add: f64_round_def r_def)
    then show ?thesis
      using lt nat_mag_fin_small [OF n53(1)] mk nat_mag_exact [OF n53(1)]
      by (simp only: f64_of_nat_small [OF n53(1)])
  qed
  have "(j - 1) * unit_exp < mag_units r"
  proof -
    have "(j - 1) * unit_exp < (128 * (j - 1) + 1) * 2 ^ 1067" unfolding split(3) by (simp add: add_mult_distrib)
    then show ?thesis using above by linarith
  qed
  then have "(int j - 1) * int unit_exp < int (mag_units r)" using j(1)
    by (simp only: of_nat_less_iff [symmetric, where 'a = int] of_nat_mult of_nat_diff Suc_le_eq) simp
  moreover have "int (mag_units r) \<le> int j * int unit_exp"
    using below by (simp only: of_nat_mult [symmetric] of_nat_le_iff)
  ultimately have "- ((- int (mag_units r)) div int unit_exp) = int j" by (intro neg_div_eq) simp_all
  moreover have "in_int64 (int j)" using j by (simp add: in_int64_def min_int64_def max_int64_def)
  ultimately show ?thesis using fin unfolding val by (simp add: ceil_int_def)
qed

text \<open>The index of the 95th and the 99th percentile, in exact arithmetic.\<close>

lemma percentile_index_ceil:
  assumes "ceil_int (f64_mul p (f64_of_nat n)) = int j" "0 < j" "j \<le> n"
  shows "percentile_index n p = int (j - 1)"
  using assms by (simp add: percentile_index_def Let_def)

lemma index_95:
  assumes "0 < n" "n \<le> 2 ^ 40"
  shows "percentile_index n (f64_of_ratio 95 100) = int ((95 * n + 99) div 100 - 1)"
proof (rule percentile_index_ceil)
  define j where "j = (95 * n + 99) div 100"
  have j: "100 * j \<le> 95 * n + 99" "95 * n \<le> 100 * j" by (simp_all add: j_def)
  then have j': "0 < j" "j \<le> n" using assms(1) by simp_all
  then show "0 < (95 * n + 99) div 100" "(95 * n + 99) div 100 \<le> n" by (simp_all only: j_def)
  have "ceil_int (f64_mul (f64_of_ratio 95 100) (f64_of_nat n)) = int j"
    unfolding fl_95 by (rule ceil_int_product) (use j j' assms in \<open>simp_all\<close>)
  then show "ceil_int (f64_mul (f64_of_ratio 95 100) (f64_of_nat n)) = int ((95 * n + 99) div 100)"
    by (simp only: j_def)
qed

lemma index_99:
  assumes "0 < n" "n \<le> 2 ^ 40"
  shows "percentile_index n (f64_of_ratio 99 100) = int ((99 * n + 99) div 100 - 1)"
proof (rule percentile_index_ceil)
  define j where "j = (99 * n + 99) div 100"
  have j: "100 * j \<le> 99 * n + 99" "99 * n \<le> 100 * j" by (simp_all add: j_def)
  then have j': "0 < j" "j \<le> n" using assms(1) by simp_all
  then show "0 < (99 * n + 99) div 100" "(99 * n + 99) div 100 \<le> n" by (simp_all only: j_def)
  have "ceil_int (f64_mul (f64_of_ratio 99 100) (f64_of_nat n)) = int j"
    unfolding fl_99 by (rule ceil_int_product) (use j j' assms in \<open>simp_all\<close>)
  then show "ceil_int (f64_mul (f64_of_ratio 99 100) (f64_of_nat n)) = int ((99 * n + 99) div 100)"
    by (simp only: j_def)
qed

section \<open>Sorting\<close>

text \<open>The order \<open>sort.Float64s\<close> sorts by: a preorder, since both zeros are its equals.\<close>

instantiation f64 :: preorder
begin

definition less_eq_f64 :: "f64 \<Rightarrow> f64 \<Rightarrow> bool" where
  "less_eq_f64 x y \<longleftrightarrow> \<not> f64_less y x"

definition less_f64 :: "f64 \<Rightarrow> f64 \<Rightarrow> bool" where
  "less_f64 x y \<longleftrightarrow> f64_less x y"

instance
  by standard (auto simp: less_eq_f64_def less_f64_def f64_less_def f64_lt_def)

end

lemma f64_ord_le: "\<not> f64_is_nan x \<Longrightarrow> \<not> f64_is_nan y \<Longrightarrow> x \<le> y \<longleftrightarrow> f64_le x y"
  by (auto simp: less_eq_f64_def f64_less_def f64_lt_def f64_le_def)

lemma mset_insert_sorted [simp]: "mset (insert_sorted x ys) = add_mset x (mset ys)"
  by (induction ys) simp_all

lemma set_insert_sorted [simp]: "set (insert_sorted x ys) = insert x (set ys)"
  by (induction ys) auto

lemma sorted_insert_sorted: "sorted_wrt (\<le>) ys \<Longrightarrow> sorted_wrt (\<le>) (insert_sorted x ys)"
proof (induction ys)
  case (Cons y ys)
  show ?case
  proof (cases "f64_less x y")
    case True
    then have "x \<le> y" using less_imp_le [of x y] by (simp add: less_f64_def)
    then show ?thesis using Cons.prems True by (auto intro: order_trans)
  next
    case False
    then have "y \<le> x" by (simp add: less_eq_f64_def)
    then show ?thesis using Cons False by auto
  qed
qed simp

lemma sort_float64s_fold: "mset (fold insert_sorted xs ys) = mset xs + mset ys"
  by (induction xs arbitrary: ys) simp_all

lemma mset_sort_float64s [simp]: "mset (sort_float64s xs) = mset xs"
  by (simp add: sort_float64s_def sort_float64s_fold)

lemma length_sort_float64s [simp]: "length (sort_float64s xs) = length xs"
  by (rule mset_eq_length) simp

lemma set_sort_float64s [simp]: "set (sort_float64s xs) = set xs"
  by (rule mset_eq_setD) simp

lemma sorted_sort_float64s: "sorted_wrt (\<le>) (sort_float64s xs)"
  unfolding sort_float64s_def by (rule fold_inv) (simp_all add: sorted_insert_sorted)

section \<open>Percentiles\<close>

lemma percentile_index_range: "0 < n \<Longrightarrow> 0 \<le> percentile_index n p \<and> percentile_index n p < int n"
  by (simp add: percentile_index_def Let_def)

lemma percentile_total: "vs \<noteq> [] \<Longrightarrow>
    percentile vs p = Some (sort_float64s vs ! nat (percentile_index (length vs) p))"
  using percentile_index_range [of "length vs" p] by (simp add: percentile_def Let_def)

lemma percentile_in_set: "vs \<noteq> [] \<Longrightarrow> percentile vs p = Some v \<Longrightarrow> v \<in> set vs"
  using percentile_index_range [of "length vs" p] nth_mem [of "nat (percentile_index (length vs) p)" "sort_float64s vs"]
  by (auto simp: percentile_total)

text \<open>Rank \<open>i\<close> of a sorted list: more than \<open>i\<close> elements are at most, at most \<open>i\<close> are below.\<close>

lemma length_filter_mset_eq: "mset xs = mset ys \<Longrightarrow> length (filter P xs) = length (filter P ys)"
  by (metis mset_filter size_mset)

lemma sorted_rank:
  fixes xs :: "'a::preorder list"
  assumes "sorted_wrt (\<le>) xs" "i < length xs"
  shows "i < length (filter (\<lambda>x. x \<le> xs ! i) xs)" "length (filter (\<lambda>x. x < xs ! i) xs) \<le> i"
proof -
  have le: "x \<le> xs ! i" if "x \<in> set (take (Suc i) xs)" for x
    using that assms by (auto simp: in_set_conv_nth less_Suc_eq sorted_wrt_iff_nth_less)
  have ge: "\<not> x < xs ! i" if "x \<in> set (drop i xs)" for x
  proof -
    from that obtain k where k: "k < length xs - i" "x = drop i xs ! k" by (auto simp: in_set_conv_nth)
    then have "xs ! i \<le> x" using assms by (cases k) (auto simp: sorted_wrt_iff_nth_less)
    then show ?thesis by (simp add: less_le_not_le)
  qed
  have "length (filter (\<lambda>x. x \<le> xs ! i) xs)
      = length (filter (\<lambda>x. x \<le> xs ! i) (take (Suc i) xs)) + length (filter (\<lambda>x. x \<le> xs ! i) (drop (Suc i) xs))"
    by (metis append_take_drop_id filter_append length_append)
  moreover have "filter (\<lambda>x. x \<le> xs ! i) (take (Suc i) xs) = take (Suc i) xs"
    using le by (simp add: filter_id_conv)
  ultimately show "i < length (filter (\<lambda>x. x \<le> xs ! i) xs)" using assms(2) by simp
  have "length (filter (\<lambda>x. x < xs ! i) xs)
      = length (filter (\<lambda>x. x < xs ! i) (take i xs)) + length (filter (\<lambda>x. x < xs ! i) (drop i xs))"
    by (metis append_take_drop_id filter_append length_append)
  moreover have "filter (\<lambda>x. x < xs ! i) (drop i xs) = []" using ge by (simp add: filter_empty_conv)
  ultimately show "length (filter (\<lambda>x. x < xs ! i) xs) \<le> i"
    using length_filter_le [of "\<lambda>x. x < xs ! i" "take i xs"] by simp
qed

text \<open>The nearest-rank percentile: \<open>q\<close> per cent are at most \<open>v\<close>, fewer are below.\<close>

definition nearest_rank :: "nat \<Rightarrow> f64 list \<Rightarrow> f64 \<Rightarrow> bool" where
  "nearest_rank q vs v \<longleftrightarrow> v \<in> set vs \<and>
     q * length vs \<le> 100 * length (filter (\<lambda>x. f64_le x v) vs) \<and>
     100 * length (filter (\<lambda>x. f64_lt x v) vs) < q * length vs"

definition no_nan :: "f64 list \<Rightarrow> bool" where
  "no_nan vs \<longleftrightarrow> list_all (\<lambda>x. \<not> f64_is_nan x) vs"

lemma rank_bounds:
  fixes a :: nat
  assumes "0 < a"
  shows "a \<le> 100 * Suc ((a + 99) div 100 - 1) \<and> 100 * ((a + 99) div 100 - 1) < a"
proof -
  obtain i where i: "(a + 99) div 100 = Suc i" using assms by (cases "(a + 99) div 100") simp_all
  have "100 * Suc i \<le> a + 99" "a + 99 < 100 * Suc i + 100" unfolding i [symmetric] by simp_all
  then show ?thesis unfolding i by simp
qed

lemma percentile_nearest_rank:
  assumes "vs \<noteq> []" "no_nan vs" "percentile_index (length vs) p = int ((q * length vs + 99) div 100 - 1)"
    "0 < q" "q \<le> 100"
  shows "\<exists>v. percentile vs p = Some v \<and> nearest_rank q vs v"
proof -
  define i where "i = (q * length vs + 99) div 100 - 1"
  define s where "s = sort_float64s vs"
  have n: "0 < length vs" "0 < q * length vs" using assms(1,4) by simp_all
  then have i: "q * length vs \<le> 100 * Suc i" "100 * i < q * length vs"
    using rank_bounds [of "q * length vs"] by (simp_all add: i_def)
  then have "100 * i < 100 * length vs" using assms(5) by (meson less_le_trans mult_le_mono1)
  then have il: "i < length s" by (simp add: s_def)
  have v: "percentile vs p = Some (s ! i)"
    using percentile_total [OF assms(1), of p] assms(3) by (simp add: s_def i_def)
  have mem: "s ! i \<in> set vs" using il nth_mem [of i s] by (simp add: s_def)
  have nn: "x \<in> set s \<Longrightarrow> \<not> f64_is_nan x" for x
    using assms(2) by (simp add: s_def no_nan_def list_all_iff)
  have "filter (\<lambda>x. f64_le x (s ! i)) s = filter (\<lambda>x. x \<le> s ! i) s"
    using nn nth_mem [OF il] by (intro filter_cong) (simp_all add: f64_ord_le)
  then have le: "length (filter (\<lambda>x. f64_le x (s ! i)) vs) = length (filter (\<lambda>x. x \<le> s ! i) s)"
    using length_filter_mset_eq [of s vs "\<lambda>x. f64_le x (s ! i)"] by (simp add: s_def)
  have "filter (\<lambda>x. f64_lt x (s ! i)) s = filter (\<lambda>x. x < s ! i) s"
    using nn nth_mem [OF il] by (intro filter_cong) (simp_all add: less_f64_def f64_less_def)
  then have lt: "length (filter (\<lambda>x. f64_lt x (s ! i)) vs) = length (filter (\<lambda>x. x < s ! i) s)"
    using length_filter_mset_eq [of s vs "\<lambda>x. f64_lt x (s ! i)"] by (simp add: s_def)
  have "sorted_wrt (\<le>) s" by (simp add: s_def sorted_sort_float64s)
  from sorted_rank [OF this il] i have "nearest_rank q vs (s ! i)"
    by (simp add: nearest_rank_def mem le lt)
  then show ?thesis using v by blast
qed

section \<open>Extremes\<close>

definition fold_max :: "f64 list \<Rightarrow> f64 \<Rightarrow> f64" where
  "fold_max vs m = fold (\<lambda>v m. if f64_lt m v then v else m) vs m"

definition fold_min :: "f64 list \<Rightarrow> f64 \<Rightarrow> f64" where
  "fold_min vs m = fold (\<lambda>v m. if f64_lt v m then v else m) vs m"

lemma no_nan_simps [simp]: "no_nan []" "no_nan (v # vs) \<longleftrightarrow> \<not> f64_is_nan v \<and> no_nan vs"
  by (simp_all add: no_nan_def)

lemma fold_max_bound:
  "no_nan vs \<Longrightarrow> \<not> f64_is_nan m \<Longrightarrow>
     fold_max vs m \<in> insert m (set vs) \<and> (\<forall>x \<in> insert m (set vs). f64_le x (fold_max vs m))"
proof (induction vs arbitrary: m)
  case Nil
  then show ?case by (simp add: fold_max_def f64_le_refl)
next
  case (Cons v vs)
  define m' where "m' = (if f64_lt m v then v else m)"
  have le: "f64_le m m'" "f64_le v m'"
    using Cons.prems by (auto simp: m'_def f64_le_def f64_lt_def)
  have "fold_max (v # vs) m = fold_max vs m'" by (simp add: fold_max_def m'_def)
  moreover have "m' \<in> {m, v}" "\<not> f64_is_nan m'" using Cons.prems by (auto simp: m'_def)
  ultimately show ?case using Cons.IH [of m'] Cons.prems(1) le by (auto intro: f64_le_trans)
qed

lemma fold_min_bound:
  "no_nan vs \<Longrightarrow> \<not> f64_is_nan m \<Longrightarrow>
     fold_min vs m \<in> insert m (set vs) \<and> (\<forall>x \<in> insert m (set vs). f64_le (fold_min vs m) x)"
proof (induction vs arbitrary: m)
  case Nil
  then show ?case by (simp add: fold_min_def f64_le_refl)
next
  case (Cons v vs)
  define m' where "m' = (if f64_lt v m then v else m)"
  have le: "f64_le m' m" "f64_le m' v"
    using Cons.prems by (auto simp: m'_def f64_le_def f64_lt_def)
  have "fold_min (v # vs) m = fold_min vs m'" by (simp add: fold_min_def m'_def)
  moreover have "m' \<in> {m, v}" "\<not> f64_is_nan m'" using Cons.prems by (auto simp: m'_def)
  ultimately show ?case using Cons.IH [of m'] Cons.prems(1) le by (auto intro: f64_le_trans)
qed

lemma aggregate_max: "vs \<noteq> [] \<Longrightarrow> aggregate vs ''max'' = Some (fold_max (tl vs) (hd vs))"
  by (simp add: aggregate_def fold_max_def)

lemma aggregate_min: "vs \<noteq> [] \<Longrightarrow> aggregate vs ''min'' = Some (fold_min (tl vs) (hd vs))"
  by (simp add: aggregate_def fold_min_def)

lemma aggregate_p95: "vs \<noteq> [] \<Longrightarrow> aggregate vs ''p95'' = percentile vs (f64_of_ratio 95 100)"
  by (simp add: aggregate_def)

lemma aggregate_p99: "vs \<noteq> [] \<Longrightarrow> aggregate vs ''p99'' = percentile vs (f64_of_ratio 99 100)"
  by (simp add: aggregate_def)

section \<open>Natural numbers\<close>

text \<open>On natural numbers the aggregations are exact: the specification works on \<open>nat\<close>.\<close>

definition aggregate_spec :: "nat list \<Rightarrow> string \<Rightarrow> f64" where
  "aggregate_spec ns method =
     (if method = ''max'' then f64_of_nat (Max (set ns))
      else if method = ''min'' then f64_of_nat (Min (set ns))
      else if method = ''avg'' then f64_of_ratio (sum_list ns) (length ns)
      else if method = ''sum'' then f64_of_nat (sum_list ns)
      else if method = ''p95'' then f64_of_nat (sort ns ! ((95 * length ns + 99) div 100 - 1))
      else if method = ''p99'' then f64_of_nat (sort ns ! ((99 * length ns + 99) div 100 - 1))
      else f64_of_nat (hd ns))"

definition exact :: "nat list \<Rightarrow> bool" where
  "exact ns \<longleftrightarrow> list_all (\<lambda>n. n \<le> 2 ^ 53) ns"

lemma exact_simps [simp]: "exact []" "exact (n # ns) \<longleftrightarrow> n \<le> 2 ^ 53 \<and> exact ns"
  by (simp_all add: exact_def)

lemma exact_insort [simp]: "exact (insort n ns) \<longleftrightarrow> n \<le> 2 ^ 53 \<and> exact ns"
  by (auto simp: exact_def list_all_iff set_insort_key)

lemma insert_sorted_nat:
  "sorted ms \<Longrightarrow> exact (n # ms) \<Longrightarrow>
     insert_sorted (f64_of_nat n) (map f64_of_nat ms) = map f64_of_nat (insort n ms)"
proof (induction ms)
  case (Cons m ms)
  show ?case
  proof (cases "n = m")
    case True
    then show ?thesis using Cons by (simp add: f64_less_def insort_is_Cons)
  next
    case False
    then show ?thesis using Cons by (simp add: f64_less_def)
  qed
qed simp

lemma fold_insert_nat:
  "sorted ms \<Longrightarrow> exact (ns @ ms) \<Longrightarrow>
     fold insert_sorted (map f64_of_nat ns) (map f64_of_nat ms) = map f64_of_nat (fold insort ns ms)"
proof (induction ns arbitrary: ms)
  case (Cons n ns)
  then have "exact (n # ms)" "exact (ns @ insort n ms)" by (auto simp: exact_def set_insort_key list_all_iff)
  then show ?case using Cons by (simp add: insert_sorted_nat sorted_insort)
qed simp

lemma sort_float64s_nat: "exact ns \<Longrightarrow> sort_float64s (map f64_of_nat ns) = map f64_of_nat (sort ns)"
  using fold_insert_nat [of "[]" ns] by (simp add: sort_float64s_def sort_conv_fold)

lemma sum_floats_nat: "sum_list ns \<le> 2 ^ 53 \<Longrightarrow> sum_floats (map f64_of_nat ns) = f64_of_nat (sum_list ns)"
proof -
  have "fold (\<lambda>v s. f64_add s v) (map f64_of_nat ns) (f64_of_nat k) = f64_of_nat (k + sum_list ns)"
    if "k + sum_list ns \<le> 2 ^ 53" for k
    using that
  proof (induction ns arbitrary: k)
    case (Cons n ns)
    then have "k + n \<le> 2 ^ 53" "(k + n) + sum_list ns \<le> 2 ^ 53" by simp_all
    then show ?case using Cons.IH [of "k + n"] by (simp add: add.assoc)
  qed simp
  from this [of 0] show "sum_list ns \<le> 2 ^ 53 \<Longrightarrow> ?thesis" by (simp add: sum_floats_def)
qed

lemma fold_max_nat: "exact (m # ns) \<Longrightarrow> fold_max (map f64_of_nat ns) (f64_of_nat m) = f64_of_nat (Max (set (m # ns)))"
proof (induction ns arbitrary: m)
  case Nil
  then show ?case by (simp add: fold_max_def)
next
  case (Cons n ns)
  have "fold_max (map f64_of_nat (n # ns)) (f64_of_nat m) = fold_max (map f64_of_nat ns) (f64_of_nat (max m n))"
    using Cons.prems by (auto simp: fold_max_def max_def)
  then show ?case using Cons.IH [of "max m n"] Cons.prems by (cases "ns = []") (simp_all add: max.assoc)
qed

lemma fold_min_nat: "exact (m # ns) \<Longrightarrow> fold_min (map f64_of_nat ns) (f64_of_nat m) = f64_of_nat (Min (set (m # ns)))"
proof (induction ns arbitrary: m)
  case Nil
  then show ?case by (simp add: fold_min_def)
next
  case (Cons n ns)
  have "fold_min (map f64_of_nat (n # ns)) (f64_of_nat m) = fold_min (map f64_of_nat ns) (f64_of_nat (min m n))"
    using Cons.prems by (auto simp: fold_min_def min_def)
  then show ?case using Cons.IH [of "min m n"] Cons.prems
    by (cases "ns = []") (simp_all add: min.assoc min_le_iff_disj)
qed

lemma percentile_nat:
  assumes "ns \<noteq> []" "exact ns" "percentile_index (length ns) p = int ((q * length ns + 99) div 100 - 1)"
  shows "percentile (map f64_of_nat ns) p = Some (f64_of_nat (sort ns ! ((q * length ns + 99) div 100 - 1)))"
proof -
  let ?i = "(q * length ns + 99) div 100 - 1"
  have "?i < length ns" using percentile_index_range [of "length ns" p] assms(1,3) by simp
  then show ?thesis
    using percentile_total [of "map f64_of_nat ns" p] assms by (simp add: sort_float64s_nat)
qed

section \<open>Device metrics\<close>

lemma u_float_mag:
  fixes w :: "'a::len word"
  assumes "LENGTH('a) \<le> 64"
  shows "u_float w = F False (nat_mag (unat w))" "nat_mag (unat w) < inf_mag"
proof -
  have "unat w < 2 ^ LENGTH('a)" by simp
  also have "(2::nat) ^ LENGTH('a) \<le> 2 ^ 1023" using assms by (intro power_increasing) simp_all
  finally have "unat w \<le> 2 ^ 1023" by simp
  then show "u_float w = F False (nat_mag (unat w))" "nat_mag (unat w) < inf_mag"
    by (simp_all add: u_float_def f64_of_nat_mag nat_mag_finite)
qed

lemma nat_mag_pos: "0 < nat_mag n \<longleftrightarrow> 0 < n"
  by (metis nat_mag_eq_0_iff not_gr_zero)

lemma unit_mag: "mag_units (nat_mag 1) = unit_exp" "mag_units (nat_mag 100) = 100 * unit_exp"
  by (simp_all add: nat_mag_exact)

lemma f64_div_pos:
  "a < inf_mag \<Longrightarrow> 0 < b \<Longrightarrow> b < inf_mag \<Longrightarrow>
     \<exists>k. f64_div (F False a) (F False b) = F False k \<and> (a \<le> b \<longrightarrow> k \<le> nat_mag 1)"
proof -
  assume ab: "a < inf_mag" "0 < b" "b < inf_mag"
  define k where "k = min inf_mag (round_mag (mag_units a * unit_exp) (mag_units b))"
  have b: "0 < mag_units b" using ab(2) mag_units_less_iff [of 0 b] by linarith
  have "k \<le> nat_mag 1" if "a \<le> b"
  proof -
    have "mag_units a * unit_exp \<le> mag_units (nat_mag 1) * mag_units b"
      using that unfolding unit_mag by (simp add: mult.commute)
    then show ?thesis using round_mag_le [OF b] by (simp add: k_def min_le_iff_disj)
  qed
  then show ?thesis using ab by (auto simp: f64_round_def k_def)
qed

lemma f64_mul_100: "\<exists>r. f64_mul (F False k) (f64_of_nat 100) = F False r \<and> (k \<le> nat_mag 1 \<longrightarrow> r \<le> nat_mag 100)"
proof -
  have fin: "nat_mag 100 < inf_mag" "0 < nat_mag 100" "nat_mag 1 < inf_mag" by (simp_all add: nat_mag_fin_small nat_mag_pos)
  have e: "f64_of_nat 100 = F False (nat_mag 100)" by (simp add: f64_of_nat_small)
  have "round_mag (mag_units k * mag_units (nat_mag 100)) unit_exp \<le> nat_mag 100" if "k \<le> nat_mag 1"
  proof (rule round_mag_le)
    have "mag_units k \<le> unit_exp" using that unit_mag(1) mag_units_le_iff [of k "nat_mag 1"] by simp
    then show "mag_units k * mag_units (nat_mag 100) \<le> mag_units (nat_mag 100) * unit_exp" by simp
  qed simp
  then show ?thesis using fin by (auto simp: e f64_round_def min_le_iff_disj)
qed

lemma percent_bounds:
  fixes u t :: u64
  assumes "t \<noteq> 0"
  shows "\<exists>k. f64_mul (f64_div (u_float u) (u_float t)) (f64_of_nat 100) = F False k \<and> (u \<le> t \<longrightarrow> k \<le> nat_mag 100)"
proof -
  have t: "0 < nat_mag (unat t)" using assms by (simp add: nat_mag_pos unat_gt_0)
  obtain k where k: "f64_div (u_float u) (u_float t) = F False k" "u \<le> t \<longrightarrow> k \<le> nat_mag 1"
    using f64_div_pos [of "nat_mag (unat u)" "nat_mag (unat t)"] t nat_mag_mono [of "unat u" "unat t"]
    by (auto simp: u_float_mag word_le_nat_alt)
  then show ?thesis using f64_mul_100 [of k] by auto
qed

text \<open>A float that is a number, zero or positive.\<close>

fun f64_nonneg :: "f64 \<Rightarrow> bool" where
  "f64_nonneg NaN = False"
| "f64_nonneg (F s k) = (\<not> s)"

lemma u_float_nonneg:
  fixes w :: "'a::len word"
  assumes "LENGTH('a) \<le> 64"
  shows "f64_nonneg (u_float w)"
  using u_float_mag(1) [OF assms, of w] by simp

lemma percent_nonneg:
  fixes u t :: u64
  shows "t \<noteq> 0 \<Longrightarrow> f64_nonneg (f64_mul (f64_div (u_float u) (u_float t)) (f64_of_nat 100))"
  using percent_bounds [of t u] by auto

lemma extractMetric_nonneg: "f64_nonneg (extractMetric m t)"
  unfolding extractMetric_def if_distrib [of f64_nonneg]
  by (simp add: u_float_nonneg percent_nonneg f64_of_nat_0 cong: if_cong)

section \<open>Properties\<close>

lemma aggregate_total: "\<exists>v. aggregate vs method = Some v"
  using percentile_total [of vs] by (cases "vs = []") (simp_all add: aggregate_def)

lemma aggregate_p95_rank: "vs \<noteq> [] \<Longrightarrow> no_nan vs \<Longrightarrow> length vs \<le> 2 ^ 40 \<Longrightarrow>
    \<exists>v. aggregate vs ''p95'' = Some v \<and> nearest_rank 95 vs v"
  unfolding aggregate_p95 by (rule percentile_nearest_rank) (simp_all add: index_95)

lemma aggregate_p99_rank: "vs \<noteq> [] \<Longrightarrow> no_nan vs \<Longrightarrow> length vs \<le> 2 ^ 40 \<Longrightarrow>
    \<exists>v. aggregate vs ''p99'' = Some v \<and> nearest_rank 99 vs v"
  unfolding aggregate_p99 by (rule percentile_nearest_rank) (simp_all add: index_99)

lemma no_nan_hd_tl: "vs \<noteq> [] \<Longrightarrow> no_nan vs \<Longrightarrow> no_nan (tl vs) \<and> \<not> f64_is_nan (hd vs) \<and> insert (hd vs) (set (tl vs)) = set vs"
  by (cases vs) simp_all

lemma aggregate_max_bound: "vs \<noteq> [] \<Longrightarrow> no_nan vs \<Longrightarrow>
    \<exists>v. aggregate vs ''max'' = Some v \<and> v \<in> set vs \<and> (\<forall>x \<in> set vs. f64_le x v)"
  using fold_max_bound [of "tl vs" "hd vs"] no_nan_hd_tl [of vs] by (simp add: aggregate_max)

lemma aggregate_min_bound: "vs \<noteq> [] \<Longrightarrow> no_nan vs \<Longrightarrow>
    \<exists>v. aggregate vs ''min'' = Some v \<and> v \<in> set vs \<and> (\<forall>x \<in> set vs. f64_le v x)"
  using fold_min_bound [of "tl vs" "hd vs"] no_nan_hd_tl [of vs] by (simp add: aggregate_min)

text \<open>A higher rank is not below a lower one.\<close>

lemma nearest_rank_mono:
  assumes "nearest_rank q vs a" "nearest_rank r vs b" "q \<le> r" "no_nan vs"
  shows "f64_le a b"
proof (rule ccontr)
  assume "\<not> f64_le a b"
  then have lt: "f64_lt b a"
    using assms by (simp add: nearest_rank_def no_nan_def list_all_iff f64_not_le)
  have "filter (\<lambda>x. f64_le x b) vs = filter (\<lambda>x. f64_le x b) (filter (\<lambda>x. f64_lt x a) vs)"
    using lt by (auto simp: intro!: filter_cong dest: f64_le_lt_trans)
  then have "length (filter (\<lambda>x. f64_le x b) vs) \<le> length (filter (\<lambda>x. f64_lt x a) vs)"
    by (metis length_filter_le)
  moreover have "q * length vs \<le> r * length vs" using assms(3) by simp
  ultimately show False using assms(1,2) unfolding nearest_rank_def by linarith
qed

lemma nearest_rank_all:
  assumes "nearest_rank q vs v" "100 * length vs < q * length vs + 100"
  shows "\<forall>x \<in> set vs. f64_le x v"
proof -
  have "length vs \<le> length (filter (\<lambda>x. f64_le x v) vs)"
    using assms unfolding nearest_rank_def by linarith
  then have "length (filter (\<lambda>x. f64_le x v) vs) = length vs" by (simp add: antisym)
  then show ?thesis by (metis length_filter_less less_irrefl)
qed

definition demo_gpus :: "f64 list" where
  "demo_gpus = map f64_of_nat [35, 90, 60]"

lemma demo_gpus_ok: "demo_gpus \<noteq> []" "no_nan demo_gpus" "length demo_gpus = 3"
  by (simp_all add: demo_gpus_def)

lemma aggregate_nat:
  assumes "ns \<noteq> []" "sum_list ns \<le> 2 ^ 53" "length ns \<le> 2 ^ 40"
  shows "aggregate (map f64_of_nat ns) method = Some (aggregate_spec ns method)"
proof -
  have ex: "exact ns"
    using assms(2) member_le_sum_list [of _ ns] by (force simp: exact_def list_all_iff)
  then have ht: "exact (hd ns # tl ns)" "map f64_of_nat ns \<noteq> []" "set (hd ns # tl ns) = set ns"
    "tl (map f64_of_nat ns) = map f64_of_nat (tl ns)" "hd (map f64_of_nat ns) = f64_of_nat (hd ns)"
    using assms(1) by (cases ns; simp)+
  have n: "0 < length ns" "length ns \<le> 2 ^ 53" using assms(1,3) by simp_all
  have avg: "f64_div (f64_of_nat (sum_list ns)) (f64_of_nat (length ns)) = f64_of_ratio (sum_list ns) (length ns)"
    by (rule f64_div_of_nat) (use assms(2) n in simp_all)
  show ?thesis
    unfolding aggregate_def aggregate_spec_def fold_max_def [symmetric] fold_min_def [symmetric] ht(4,5)
      fold_max_nat [OF ht(1)] fold_min_nat [OF ht(1)] ht(3) sum_floats_nat [OF assms(2)]
      percentile_nat [OF assms(1) ex index_95 [OF n(1) assms(3)]]
      percentile_nat [OF assms(1) ex index_99 [OF n(1) assms(3)]]
    using ht(2) by (simp add: avg)
qed

text \<open>C6
  On integral readings every aggregation is exact.  For a non-empty list of natural numbers
  with a sum of at most 2^53, the result is the float of the largest, the smallest, the sum,
  the correctly rounded mean, or the element of the sorted list at the nearest-rank index:
  neither the float accumulation nor the product of 0.95 or 0.99 with the length disturbs
  it.\<close>

theorem aggregate_exact:
  assumes "ns \<noteq> []" "sum_list ns \<le> 2 ^ 53" "length ns \<le> 2 ^ 40"
  shows "aggregate (map f64_of_nat ns) method = Some (aggregate_spec ns method)"
  using assms by (rule aggregate_nat)

lemma aggregate_exact_witness:
  "aggregate (map f64_of_nat [35, 90, 60]) ''p95'' = Some (f64_of_nat 90) \<and>
   aggregate (map f64_of_nat [35, 90, 60]) ''sum'' = Some (f64_of_nat 185)"
  using aggregate_exact [of "[35, 90, 60]" "''p95''"] aggregate_exact [of "[35, 90, 60]" "''sum''"]
  by (simp add: aggregate_spec_def)

text \<open>
  p95 and p99 are nearest-rank percentiles: for readings without NaN, the result is one of the
  readings, at least 95 (99) per cent of them are at most it, and fewer than that are below
  it.\<close>

theorem percentiles_nearest_rank:
  assumes "vs \<noteq> []" "no_nan vs" "length vs \<le> 2 ^ 40"
  shows "\<exists>a b. aggregate vs ''p95'' = Some a \<and> nearest_rank 95 vs a \<and>
    aggregate vs ''p99'' = Some b \<and> nearest_rank 99 vs b"
  using aggregate_p95_rank [OF assms] aggregate_p99_rank [OF assms] by blast

lemma percentiles_nearest_rank_witness:
  "\<exists>a b. aggregate demo_gpus ''p95'' = Some a \<and> nearest_rank 95 demo_gpus a \<and>
    aggregate demo_gpus ''p99'' = Some b \<and> nearest_rank 99 demo_gpus b"
  by (rule percentiles_nearest_rank) (simp_all add: demo_gpus_ok)

text \<open>
  The aggregations are ordered: the smallest reading is at most p95, p95 at most p99, and p99 at
  most the largest reading; the smallest and the largest are readings and bound all of them.\<close>

theorem aggregates_ordered:
  assumes "vs \<noteq> []" "no_nan vs" "length vs \<le> 2 ^ 40"
  shows "\<exists>lo a b hi. aggregate vs ''min'' = Some lo \<and> aggregate vs ''p95'' = Some a \<and>
    aggregate vs ''p99'' = Some b \<and> aggregate vs ''max'' = Some hi \<and>
    f64_le lo a \<and> f64_le a b \<and> f64_le b hi \<and> {lo, hi} \<subseteq> set vs \<and>
    list_all (\<lambda>x. f64_le lo x \<and> f64_le x hi) vs"
proof -
  obtain lo hi where "aggregate vs ''min'' = Some lo" "lo \<in> set vs" "\<forall>x \<in> set vs. f64_le lo x"
      "aggregate vs ''max'' = Some hi" "hi \<in> set vs" "\<forall>x \<in> set vs. f64_le x hi"
    using aggregate_min_bound [OF assms(1,2)] aggregate_max_bound [OF assms(1,2)] by blast
  moreover obtain a b where "aggregate vs ''p95'' = Some a" "nearest_rank 95 vs a"
      "aggregate vs ''p99'' = Some b" "nearest_rank 99 vs b"
    using aggregate_p95_rank [OF assms] aggregate_p99_rank [OF assms] by blast
  moreover from this assms(2) have "f64_le a b" "a \<in> set vs" "b \<in> set vs"
    by (auto simp: nearest_rank_def intro: nearest_rank_mono [of 95 vs a 99 b])
  ultimately show ?thesis by (simp add: list_all_iff)
qed

lemma aggregates_ordered_witness:
  "\<exists>lo a b hi. aggregate demo_gpus ''min'' = Some lo \<and> aggregate demo_gpus ''p95'' = Some a \<and>
    aggregate demo_gpus ''p99'' = Some b \<and> aggregate demo_gpus ''max'' = Some hi \<and>
    f64_le lo a \<and> f64_le a b \<and> f64_le b hi \<and> {lo, hi} \<subseteq> set demo_gpus \<and>
    list_all (\<lambda>x. f64_le lo x \<and> f64_le x hi) demo_gpus"
  by (rule aggregates_ordered) (simp_all add: demo_gpus_ok)

lemma f64_le_antisym: "f64_le a b \<Longrightarrow> f64_le b a \<Longrightarrow> f64_eq a b"
  by (simp add: f64_le_def f64_eq_def)

text \<open>
  On a small node p95 is the maximum: with at most 19 GPUs p95 equals the largest reading, and
  with at most 99 so does p99.\<close>

theorem small_node_percentile_is_max:
  assumes "vs \<noteq> []" "no_nan vs" "length vs \<le> 99"
    and "q = ''p99'' \<or> (q = ''p95'' \<and> length vs \<le> 19)"
  shows "\<exists>a b. aggregate vs q = Some a \<and> aggregate vs ''max'' = Some b \<and> f64_eq a b"
proof -
  have n: "0 < length vs" "length vs \<le> 2 ^ 40" using assms(1,3) by simp_all
  obtain a r where a: "aggregate vs q = Some a" "nearest_rank r vs a" "100 * length vs < r * length vs + 100"
    using assms(4)
  proof (elim disjE conjE)
    assume q: "q = ''p99''"
    obtain v where "aggregate vs ''p99'' = Some v" "nearest_rank 99 vs v"
      using aggregate_p99_rank [OF assms(1,2) n(2)] by blast
    then show thesis by (rule that [of v 99, unfolded q]) (use assms(3) in simp)
  next
    assume q: "q = ''p95''" "length vs \<le> 19"
    obtain v where "aggregate vs ''p95'' = Some v" "nearest_rank 95 vs v"
      using aggregate_p95_rank [OF assms(1,2) n(2)] by blast
    then show thesis by (rule that [of v 95, unfolded q(1)]) (use q(2) in simp)
  qed
  obtain b where b: "aggregate vs ''max'' = Some b" "b \<in> set vs" "\<forall>x \<in> set vs. f64_le x b"
    using aggregate_max_bound [OF assms(1,2)] by blast
  have "a \<in> set vs" using a(2) by (simp add: nearest_rank_def)
  then have "f64_le a b" using b(3) by blast
  moreover have "f64_le b a" using nearest_rank_all [OF a(2,3)] b(2) by blast
  ultimately show ?thesis using a(1) b(1) f64_le_antisym by blast
qed

lemma small_node_percentile_is_max_witness:
  "\<exists>a b. aggregate demo_gpus ''p95'' = Some a \<and> aggregate demo_gpus ''max'' = Some b \<and> f64_eq a b"
  by (rule small_node_percentile_is_max) (simp_all add: demo_gpus_ok)

lemma percent_at_most_100:
  assumes "MemoryUsedMiB m \<le> MemoryTotalMiB m"
  shows "f64_le (extractMetric m MetricMemoryUsedPercent) (f64_of_nat 100)"
proof (cases "MemoryTotalMiB m = 0")
  case True
  then show ?thesis by (simp add: extractMetric_def metric_type_defs)
next
  case False
  have "f64_of_nat 100 = F False (nat_mag 100)" by (simp add: f64_of_nat_small)
  then show ?thesis
    using percent_bounds [OF False, of "MemoryUsedMiB m"] assms False
    by (auto simp: extractMetric_def metric_type_defs)
qed

text \<open>
  Whatever a device reports, the metric read from it is a number that is not negative: for every
  metric type and every snapshot, never NaN, a device without memory included; and the memory
  percentage is at most 100 when no more memory is used than there is.\<close>

theorem extractMetric_range:
  "f64_nonneg (extractMetric m t) \<and>
   (t = MetricMemoryUsedPercent \<and> MemoryUsedMiB m \<le> MemoryTotalMiB m \<longrightarrow> f64_le (extractMetric m t) (f64_of_nat 100))"
  using extractMetric_nonneg percent_at_most_100 by blast

lemma extractMetric_range_witness:
  "f64_le (extractMetric (mock_device 80 0) MetricMemoryUsedPercent) (f64_of_nat 100)"
proof -
  have "MemoryUsedMiB (mock_device 80 0) \<le> MemoryTotalMiB (mock_device 80 0)" by code_simp
  then show ?thesis using extractMetric_range [of "mock_device 80 0" MetricMemoryUsedPercent] by blast
qed

end
