(* ===== verification/PromText.thy ===== *)
theory PromText
  imports GoStrconv
begin

text \<open>
  What the vLLM and the Triton client share without sharing code: the HTTP exchange that
  feeds them, and the contract of a line-by-line reader of Prometheus exposition text.
\<close>

section \<open>The HTTP exchange\<close>

text \<open>
  The outcome of \<open>httpClient.Get\<close>: no response at all, or a status, the bytes of the body
  and, when reading the body breaks off, the error it breaks off with.
\<close>

datatype http_reply =
    TransportError string
  | Reply int string "string option"

definition status_ok :: int where "status_ok = 200"

section \<open>Samples\<close>

text \<open>
  The values of the samples of some metrics in a list of lines, in order: the abstract
  reading of a scrape, over the parser of a line.
\<close>

definition sample_of :: "(string \<Rightarrow> (string \<times> f64) option) \<Rightarrow> string list \<Rightarrow> string \<Rightarrow> f64 option" where
  "sample_of parse names l =
     (if l = [] \<or> hd l = CHR ''#'' then None
      else case parse l of None \<Rightarrow> None | Some (n, v) \<Rightarrow> if n \<in> set names then Some v else None)"

definition samples :: "(string \<Rightarrow> (string \<times> f64) option) \<Rightarrow> string list \<Rightarrow> string list \<Rightarrow> f64 list" where
  "samples parse names ls = List.map_filter (sample_of parse names) ls"

lemma samples_Nil [simp]: "samples parse names [] = []"
  by (simp add: samples_def)

lemma samples_snoc:
  "samples parse names (ls @ [l]) =
     samples parse names ls @ (case sample_of parse names l of None \<Rightarrow> [] | Some v \<Rightarrow> [v])"
  by (induction ls) (simp_all add: samples_def split: option.split)

definition last_or_zero :: "f64 list \<Rightarrow> f64" where
  "last_or_zero vs = (if vs = [] then f64_of_nat 0 else last vs)"

text \<open>A sample with labels, as an exporter writes it.\<close>

definition sample_line :: "string \<Rightarrow> string \<Rightarrow> nat \<Rightarrow> string" where
  "sample_line name labels n = name @ CHR ''{'' # labels @ CHR ''}'' # CHR '' '' # format_uint n"

definition metric_name :: "string \<Rightarrow> bool" where
  "metric_name s \<longleftrightarrow> s \<noteq> [] \<and> list_all plain s \<and> CHR ''{'' \<notin> set s"

lemma newline_not_plain: "plain c \<Longrightarrow> c \<noteq> char_of (10::nat)" "plain c \<Longrightarrow> byte c \<noteq> 13"
  by (auto simp: plain_def byte_def)

lemma sample_line_token:
  assumes "metric_name name" "char_of (10::nat) \<notin> set labels"
  shows "char_of (10::nat) \<notin> set (sample_line name labels n)" "drop_cr (sample_line name labels n) = sample_line name labels n"
    "sample_line name labels n \<noteq> []"
proof -
  have p: "plain c" if "c \<in> set name \<union> set (format_uint n)" for c
    using that assms(1) format_uint_plain [of n] by (auto simp: metric_name_def list_all_iff)
  have "char_of (10::nat) \<noteq> CHR ''{''" "char_of (10::nat) \<noteq> CHR ''}''" "char_of (10::nat) \<noteq> CHR '' ''"
    by (simp_all add: char_of_def)
  then show "char_of (10::nat) \<notin> set (sample_line name labels n)"
    using p newline_not_plain(1) assms(2) by (auto simp: sample_line_def)
  have "last (sample_line name labels n) = last (format_uint n)" by (simp add: sample_line_def)
  moreover have "plain (last (format_uint n))" using p by simp
  ultimately show "drop_cr (sample_line name labels n) = sample_line name labels n"
    by (simp add: drop_cr_def newline_not_plain(2))
  show "sample_line name labels n \<noteq> []" by (simp add: sample_line_def)
qed

section \<open>Line readers\<close>

text \<open>
  The client of the interface is the loop over the lines of a scrape.  Its line handler
  must ignore comments, lines the parser does not accept and metrics it does not know.
\<close>

locale line_reader =
  fixes handle :: "string \<Rightarrow> 'm \<Rightarrow> 'm"
    and parse :: "string \<Rightarrow> (string \<times> f64) option"
    and known :: "string set"
  assumes comment: "line = [] \<or> hd line = CHR ''#'' \<Longrightarrow> handle line m = m"
    and malformed: "parse line = None \<Longrightarrow> handle line m = m"
    and unknown: "parse line = Some (n, v) \<Longrightarrow> n \<notin> known \<Longrightarrow> handle line m = m"
    and by_value: "parse l = parse l' \<Longrightarrow> l \<noteq> [] \<Longrightarrow> l' \<noteq> [] \<Longrightarrow> hd l \<noteq> CHR ''#'' \<Longrightarrow>
      hd l' \<noteq> CHR ''#'' \<Longrightarrow> handle l m = handle l' m"
begin

definition relevant :: "string \<Rightarrow> bool" where
  "relevant line \<longleftrightarrow> line \<noteq> [] \<and> hd line \<noteq> CHR ''#'' \<and>
     (case parse line of None \<Rightarrow> False | Some (n, v) \<Rightarrow> n \<in> known)"

lemma irrelevant: "\<not> relevant line \<Longrightarrow> handle line m = m"
  using comment malformed unknown
  by (cases "parse line") (auto simp: relevant_def)

lemma irrelevant_sample:
  assumes "set names = known" "sample_of parse names l = None"
  shows "handle l m = m"
  by (rule irrelevant)
    (use assms in \<open>auto simp: relevant_def sample_of_def split: if_splits option.splits\<close>)

text \<open>Only the relevant lines count.\<close>

lemma read_filter: "fold handle ls m = fold handle (filter relevant ls) m"
  by (induction ls arbitrary: m) (simp_all add: irrelevant)

lemma read_irrelevant: "list_all (\<lambda>l. \<not> relevant l) ls \<Longrightarrow> fold handle ls m = m"
  by (induction ls) (simp_all add: irrelevant)

lemma read_insert_irrelevant:
  "\<not> relevant l \<Longrightarrow> fold handle (xs @ l # ys) m = fold handle (xs @ ys) m"
  by (simp add: irrelevant)

end

section \<open>Caches of clients\<close>

text \<open>
  The scaler keeps one client per endpoint and makes it on first use; the interface its
  two caches implement, over a map from endpoints to clients.
\<close>

locale client_cache =
  fixes get :: "string \<Rightarrow> (string \<rightharpoonup> 'c) \<Rightarrow> 'c \<times> (string \<rightharpoonup> 'c)"
    and fresh :: "string \<Rightarrow> 'c"
  assumes hit: "m e = Some c \<Longrightarrow> get e m = (c, m)"
    and miss: "m e = None \<Longrightarrow> get e m = (fresh e, m(e \<mapsto> fresh e))"
begin

lemma present: "snd (get e m) e = Some (fst (get e m))"
  by (cases "m e") (simp_all add: hit miss)

lemma others: "e' \<noteq> e \<Longrightarrow> snd (get e m) e' = m e'"
  by (cases "m e") (simp_all add: hit miss)

lemma again: "get e (snd (get e m)) = (fst (get e m), snd (get e m))"
  by (rule hit) (rule present)

lemma dom_get: "dom (snd (get e m)) = insert e (dom m)"
  by (cases "m e") (auto simp: hit miss)

lemma all_entries:
  assumes "\<And>e c. m e = Some c \<Longrightarrow> P e c" and "\<And>e. P e (fresh e)"
    and "snd (get e m) e' = Some c"
  shows "P e' c"
  using assms by (cases "m e"; cases "e' = e") (auto simp: hit miss)

end

end
