(* ===== verification/Vllm.thy ===== *)
theory Vllm
  imports PromText
begin

text \<open>\<open>pkg/vllm\<close>: the client that scrapes the vLLM engine's metrics endpoint.\<close>

record vllm_metrics =
  QueueDepth :: f64
  RunningCount :: f64
  KVCacheUsage :: f64
  SwappedCount :: f64
  HasQueueDepth :: bool
  HasRunningCount :: bool
  HasKVCacheUsage :: bool
  HasSwappedCount :: bool

definition zero_vllm_metrics :: vllm_metrics where
  "zero_vllm_metrics = \<lparr>QueueDepth = f64_of_nat 0, RunningCount = f64_of_nat 0,
     KVCacheUsage = f64_of_nat 0, SwappedCount = f64_of_nat 0, HasQueueDepth = False,
     HasRunningCount = False, HasKVCacheUsage = False, HasSwappedCount = False\<rparr>"

definition MetricQueueDepth :: string where "MetricQueueDepth = ''vllm:num_requests_waiting''"
definition MetricRunningCount :: string where "MetricRunningCount = ''vllm:num_requests_running''"
definition MetricKVCacheUsage :: string where "MetricKVCacheUsage = ''vllm:kv_cache_usage_perc''"
definition MetricKVCacheUsageOld :: string where "MetricKVCacheUsageOld = ''vllm:gpu_cache_usage_perc''"
definition MetricSwappedCount :: string where "MetricSwappedCount = ''vllm:num_requests_swapped''"

lemmas vllm_name_defs = MetricQueueDepth_def MetricRunningCount_def MetricKVCacheUsage_def
  MetricKVCacheUsageOld_def MetricSwappedCount_def

record vllm_client =
  endpoint :: string

definition NewClient_vllm :: "string \<Rightarrow> vllm_client" where
  "NewClient_vllm e = \<lparr>endpoint = e\<rparr>"

datatype vllm_error =
    VllmRequestFailed string
  | VllmStatus int
  | VllmScan scan_error

text \<open>\<open>parseLine\<close>: \<open>None\<close> is \<open>ok = false\<close>.\<close>

definition parseLine_vllm :: "string \<Rightarrow> (string \<times> f64) option" where
  "parseLine_vllm line =
     (case (case index_byte line (CHR ''{'') of
        Some name_end \<Rightarrow>
          (case index_byte (drop name_end line) (CHR ''}'') of
             None \<Rightarrow> None
           | Some closing \<Rightarrow> Some (take name_end line @ drop (name_end + closing + 1) line))
      | None \<Rightarrow> Some line) of
        None \<Rightarrow> None
      | Some rest \<Rightarrow>
          let parts = str_fields rest in
          if length parts < 2 then None
          else (case parse_float (parts ! 1) of
                  Inl _ \<Rightarrow> None
                | Inr v \<Rightarrow> Some (parts ! 0, v)))"

text \<open>The \<open>switch\<close> of \<open>parseMetrics\<close> on the metric's name.\<close>

definition set_vllm_metric :: "string \<Rightarrow> f64 \<Rightarrow> vllm_metrics \<Rightarrow> vllm_metrics" where
  "set_vllm_metric name value m =
     (if name = MetricQueueDepth then m\<lparr>QueueDepth := value, HasQueueDepth := True\<rparr>
      else if name = MetricRunningCount then m\<lparr>RunningCount := value, HasRunningCount := True\<rparr>
      else if name = MetricKVCacheUsage \<or> name = MetricKVCacheUsageOld
      then m\<lparr>KVCacheUsage := value, HasKVCacheUsage := True\<rparr>
      else if name = MetricSwappedCount then m\<lparr>SwappedCount := value, HasSwappedCount := True\<rparr>
      else m)"

definition vllm_line :: "string \<Rightarrow> vllm_metrics \<Rightarrow> vllm_metrics" where
  "vllm_line line m =
     (if line = [] \<or> hd line = CHR ''#'' then m
      else case parseLine_vllm line of
        None \<Rightarrow> m
      | Some (name, value) \<Rightarrow> set_vllm_metric name value m)"

text \<open>\<open>parseMetrics\<close>: the metrics of the lines read, and the scanner's error.\<close>

definition parseMetrics_vllm :: "string \<Rightarrow> string option \<Rightarrow> vllm_metrics \<times> scan_error option" where
  "parseMetrics_vllm body rerr =
     (let (ls, err) = scan_lines body rerr in (fold vllm_line ls zero_vllm_metrics, err))"

definition Scrape_vllm :: "http_reply \<Rightarrow> (vllm_error, vllm_metrics) result" where
  "Scrape_vllm reply = (case reply of
     TransportError e \<Rightarrow> Inl (VllmRequestFailed e)
   | Reply status body rerr \<Rightarrow>
       if status \<noteq> status_ok then Inl (VllmStatus status)
       else (case parseMetrics_vllm body rerr of
               (m, None) \<Rightarrow> Inr m
             | (m, Some e) \<Rightarrow> Inl (VllmScan e)))"

section \<open>Facts\<close>

definition vllm_names :: "string set" where
  "vllm_names = {MetricQueueDepth, MetricRunningCount, MetricKVCacheUsage,
     MetricKVCacheUsageOld, MetricSwappedCount}"

interpretation vllm: line_reader vllm_line parseLine_vllm vllm_names
  by unfold_locales (auto simp: vllm_line_def set_vllm_metric_def vllm_names_def)

text \<open>A line with a label block, the value a natural number.\<close>

lemma sample_line_labels:
  assumes "metric_name name" "CHR ''}'' \<notin> set l1" "list_all plain l2" "n \<le> 2 ^ 1023"
  shows "parseLine_vllm (name @ CHR ''{'' # l1 @ CHR ''}'' # l2 @ CHR '' '' # format_uint n) = Some (name @ l2, f64_of_nat n)"
proof -
  have "str_fields ((name @ l2) @ CHR '' '' # format_uint n) = [name @ l2, format_uint n]"
    using assms(1,3) by (intro str_fields_two) (simp_all add: metric_name_def)
  then show ?thesis
    using assms by (simp add: parseLine_vllm_def metric_name_def parse_float_format_uint)
qed

text \<open>What the metrics of a scrape are, in terms of the samples of its lines.\<close>

definition vllm_reads :: "string list \<Rightarrow> vllm_metrics \<Rightarrow> bool" where
  "vllm_reads ls m \<longleftrightarrow>
     (let q = samples parseLine_vllm [MetricQueueDepth] ls; r = samples parseLine_vllm [MetricRunningCount] ls;
          k = samples parseLine_vllm [MetricKVCacheUsage, MetricKVCacheUsageOld] ls;
          w = samples parseLine_vllm [MetricSwappedCount] ls
      in m = \<lparr>QueueDepth = last_or_zero q, RunningCount = last_or_zero r,
              KVCacheUsage = last_or_zero k, SwappedCount = last_or_zero w,
              HasQueueDepth = (q \<noteq> []), HasRunningCount = (r \<noteq> []),
              HasKVCacheUsage = (k \<noteq> []), HasSwappedCount = (w \<noteq> [])\<rparr>)"

lemma last_or_zero_snoc [simp]: "last_or_zero (vs @ [v]) = v" "last_or_zero [] = f64_of_nat 0"
  by (simp_all add: last_or_zero_def)

lemma vllm_fold_reads: "vllm_reads ls (fold vllm_line ls zero_vllm_metrics)"
proof (induction ls rule: rev_induct)
  case Nil
  then show ?case by (simp add: vllm_reads_def zero_vllm_metrics_def)
next
  case (snoc l ls)
  have eq: "vllm_reads (ls @ [l]) (vllm_line l m)" if "vllm_reads ls m" for m
  proof (cases "sample_of parseLine_vllm [MetricQueueDepth, MetricRunningCount, MetricKVCacheUsage, MetricKVCacheUsageOld, MetricSwappedCount] l")
    case None
    then have "vllm_line l m = m" by (rule vllm.irrelevant_sample [rotated]) (simp add: vllm_names_def)
    moreover have "sample_of parseLine_vllm [MetricQueueDepth] l = None" "sample_of parseLine_vllm [MetricRunningCount] l = None"
      "sample_of parseLine_vllm [MetricKVCacheUsage, MetricKVCacheUsageOld] l = None" "sample_of parseLine_vllm [MetricSwappedCount] l = None"
      using None by (auto simp: sample_of_def split: if_splits option.splits)
    ultimately show ?thesis using that by (simp add: vllm_reads_def samples_snoc)
  next
    case (Some v)
    then obtain n where n: "l \<noteq> []" "hd l \<noteq> CHR ''#''" "parseLine_vllm l = Some (n, v)"
      "n \<in> {MetricQueueDepth, MetricRunningCount, MetricKVCacheUsage, MetricKVCacheUsageOld, MetricSwappedCount}"
      by (auto simp: sample_of_def split: if_splits option.splits)
    then show ?thesis
      using that by (elim insertE emptyE)
        (simp_all add: vllm_reads_def samples_snoc sample_of_def vllm_line_def set_vllm_metric_def vllm_name_defs Let_def)
  qed
  then show ?case using snoc by simp
qed

lemma scrape_vllm_success:
  "Scrape_vllm reply = Inr m \<Longrightarrow>
     \<exists>body rerr ls. reply = Reply 200 body rerr \<and> scan_lines body rerr = (ls, None) \<and> vllm_reads ls m"
  using vllm_fold_reads
  by (fastforce simp: Scrape_vllm_def parseMetrics_vllm_def status_ok_def split: http_reply.splits prod.splits if_splits option.splits)

section \<open>Properties\<close>

text \<open>
  A scrape that succeeds says what the body says: the reply had status 200 and was read to its
  end, each gauge is the value of the last of its samples, 0 without one, and its presence flag is
  set exactly when there is a sample; the two names of the cache usage share a gauge.\<close>

theorem vllm_scrape_reads_samples:
  assumes "Scrape_vllm reply = Inr m"
  shows "\<exists>body rerr ls. reply = Reply 200 body rerr \<and> scan_lines body rerr = (ls, None) \<and> vllm_reads ls m"
  using assms by (rule scrape_vllm_success)

lemma vllm_scrape_reads_samples_witness:
  "\<exists>body rerr ls. Reply 200 [] None = Reply 200 body rerr \<and> scan_lines body rerr = (ls, None) \<and>
     vllm_reads ls zero_vllm_metrics"
  by (rule vllm_scrape_reads_samples)
    (simp add: Scrape_vllm_def parseMetrics_vllm_def scan_lines_def status_ok_def max_token_def)

end
