(* ===== verification/Triton.thy ===== *)
theory Triton
  imports PromText GoTime
begin

text \<open>
  \<open>pkg/triton\<close>: the client that scrapes Triton's cumulative counters and derives the
  average queue wait and the request rate from two consecutive scrapes.
\<close>

record triton_metrics =
  QueueDurationUs :: f64
  RequestSuccess :: f64
  RequestFailure :: f64
  InferenceCount :: f64
  GPUUtilization_triton :: f64
  AvgQueueWaitUs :: f64
  RequestRatePerSec :: f64

definition zero_triton_metrics :: triton_metrics where
  "zero_triton_metrics = \<lparr>QueueDurationUs = f64_of_nat 0, RequestSuccess = f64_of_nat 0,
     RequestFailure = f64_of_nat 0, InferenceCount = f64_of_nat 0,
     GPUUtilization_triton = f64_of_nat 0, AvgQueueWaitUs = f64_of_nat 0,
     RequestRatePerSec = f64_of_nat 0\<rparr>"

text \<open>The state a client keeps between scrapes, guarded by its mutex.\<close>

record triton_client =
  endpoint_t :: string
  havePrev :: bool
  prevInferenceCnt :: f64
  prevQueueDurUs :: f64
  prevScrapeTime :: gotime

definition NewClient_triton :: "string \<Rightarrow> triton_client" where
  "NewClient_triton e = \<lparr>endpoint_t = e, havePrev = False, prevInferenceCnt = f64_of_nat 0,
     prevQueueDurUs = f64_of_nat 0, prevScrapeTime = zero_time\<rparr>"

datatype triton_error =
    TritonRequestFailed string
  | TritonStatus int
  | TritonScan scan_error

text \<open>\<open>parseLine\<close>: \<open>None\<close> is \<open>ok = false\<close>.\<close>

definition parseLine_triton :: "string \<Rightarrow> (string \<times> f64) option" where
  "parseLine_triton line =
     (case (case index_byte line (CHR ''{'') of
        Some name_end \<Rightarrow>
          (case index_byte (drop name_end line) (CHR ''}'') of
             None \<Rightarrow> None
           | Some closing \<Rightarrow> Some (take name_end line @ drop (name_end + closing + 1) line))
      | None \<Rightarrow> Some line) of
        None \<Rightarrow> None
      | Some rest \<Rightarrow>
          let parts = str_fields rest in
          if length parts < 2 then None
          else (case parse_float (parts ! 1) of
                  Inl _ \<Rightarrow> None
                | Inr v \<Rightarrow> Some (parts ! 0, v)))"

text \<open>
  The \<open>switch\<close> of \<open>parseMetrics\<close>: the counters of all label sets are summed, the gauge is
  overwritten.
\<close>

definition add_triton_metric :: "string \<Rightarrow> f64 \<Rightarrow> triton_metrics \<Rightarrow> triton_metrics" where
  "add_triton_metric name value m =
     (if name = ''nv_inference_queue_duration_us''
      then m\<lparr>QueueDurationUs := f64_add (QueueDurationUs m) value\<rparr>
      else if name = ''nv_inference_request_success''
      then m\<lparr>RequestSuccess := f64_add (RequestSuccess m) value\<rparr>
      else if name = ''nv_inference_request_failure''
      then m\<lparr>RequestFailure := f64_add (RequestFailure m) value\<rparr>
      else if name = ''nv_inference_count''
      then m\<lparr>InferenceCount := f64_add (InferenceCount m) value\<rparr>
      else if name = ''nv_gpu_utilization'' then m\<lparr>GPUUtilization_triton := value\<rparr>
      else m)"

definition triton_line :: "string \<Rightarrow> triton_metrics \<Rightarrow> triton_metrics" where
  "triton_line line m =
     (if line = [] \<or> hd line = CHR ''#'' then m
      else case parseLine_triton line of
        None \<Rightarrow> m
      | Some (name, value) \<Rightarrow> add_triton_metric name value m)"

definition parseMetrics_triton :: "string \<Rightarrow> string option \<Rightarrow> triton_metrics \<times> scan_error option" where
  "parseMetrics_triton body rerr =
     (let (ls, err) = scan_lines body rerr in (fold triton_line ls zero_triton_metrics, err))"

text \<open>
  \<open>applyDerived\<close>: the metrics with the derived fields filled in, and the client with the
  scrape as its new baseline.  \<open>now\<close> is what \<open>time.Now\<close> returns.
\<close>

definition derive_fields :: "triton_client \<Rightarrow> gotime \<Rightarrow> triton_metrics \<Rightarrow> triton_metrics" where
  "derive_fields c now m =
     (if havePrev c then
        let dCount = f64_sub (InferenceCount m) (prevInferenceCnt c);
            dQueueUs = f64_sub (QueueDurationUs m) (prevQueueDurUs c);
            dt = in_seconds (time_sub now (prevScrapeTime c))
        in if f64_lt (f64_of_nat 0) dCount then
             let m1 = (if f64_lt (f64_of_nat 0) dQueueUs
                       then m\<lparr>AvgQueueWaitUs := f64_div dQueueUs dCount\<rparr> else m)
             in if f64_lt (f64_of_nat 0) dt then m1\<lparr>RequestRatePerSec := f64_div dCount dt\<rparr> else m1
           else m
      else m)"

definition applyDerived :: "gotime \<Rightarrow> triton_metrics \<Rightarrow> triton_client \<Rightarrow> triton_metrics \<times> triton_client" where
  "applyDerived now m c =
     (let m' = derive_fields c now m in
      (m', c\<lparr>prevInferenceCnt := InferenceCount m', prevQueueDurUs := QueueDurationUs m',
             prevScrapeTime := now, havePrev := True\<rparr>))"

definition Scrape_triton ::
  "http_reply \<Rightarrow> gotime \<Rightarrow> triton_client \<Rightarrow> (triton_error, triton_metrics) result \<times> triton_client" where
  "Scrape_triton reply now c = (case reply of
     TransportError e \<Rightarrow> (Inl (TritonRequestFailed e), c)
   | Reply status body rerr \<Rightarrow>
       if status \<noteq> status_ok then (Inl (TritonStatus status), c)
       else (case parseMetrics_triton body rerr of
               (m, Some e) \<Rightarrow> (Inl (TritonScan e), c)
             | (m, None) \<Rightarrow> (let (m', c') = applyDerived now m c in (Inr m', c'))))"

section \<open>Facts\<close>

definition triton_names :: "string set" where
  "triton_names = {''nv_inference_queue_duration_us'', ''nv_inference_request_success'',
     ''nv_inference_request_failure'', ''nv_inference_count'', ''nv_gpu_utilization''}"

interpretation triton: line_reader triton_line parseLine_triton triton_names
  by unfold_locales (auto simp: triton_line_def add_triton_metric_def triton_names_def)

text \<open>What the metrics of a scrape are before the derived fields: sums over the label sets.\<close>

definition total_of :: "f64 list \<Rightarrow> f64" where
  "total_of vs = fold (\<lambda>v s. f64_add s v) vs (f64_of_nat 0)"

lemma total_of_snoc [simp]: "total_of [] = f64_of_nat 0" "total_of (vs @ [v]) = f64_add (total_of vs) v"
  by (simp_all add: total_of_def)

definition triton_reads :: "string list \<Rightarrow> triton_metrics \<Rightarrow> bool" where
  "triton_reads ls m \<longleftrightarrow>
     m = \<lparr>QueueDurationUs = total_of (samples parseLine_triton [''nv_inference_queue_duration_us''] ls),
          RequestSuccess = total_of (samples parseLine_triton [''nv_inference_request_success''] ls),
          RequestFailure = total_of (samples parseLine_triton [''nv_inference_request_failure''] ls),
          InferenceCount = total_of (samples parseLine_triton [''nv_inference_count''] ls),
          GPUUtilization_triton = last_or_zero (samples parseLine_triton [''nv_gpu_utilization''] ls),
          AvgQueueWaitUs = f64_of_nat 0, RequestRatePerSec = f64_of_nat 0\<rparr>"

lemma triton_fold_reads: "triton_reads ls (fold triton_line ls zero_triton_metrics)"
proof (induction ls rule: rev_induct)
  case Nil
  then show ?case by (simp add: triton_reads_def zero_triton_metrics_def last_or_zero_def)
next
  case (snoc l ls)
  have "triton_reads (ls @ [l]) (triton_line l m)" if "triton_reads ls m" for m
  proof (cases "sample_of parseLine_triton [''nv_inference_queue_duration_us'', ''nv_inference_request_success'',
      ''nv_inference_request_failure'', ''nv_inference_count'', ''nv_gpu_utilization''] l")
    case None
    then have "triton_line l m = m" by (rule triton.irrelevant_sample [rotated]) (simp add: triton_names_def)
    moreover have "sample_of parseLine_triton [n] l = None"
      if "n \<in> triton_names" for n
      using None that by (auto simp: sample_of_def triton_names_def split: if_splits option.splits)
    ultimately show ?thesis using that by (simp add: triton_reads_def samples_snoc triton_names_def)
  next
    case (Some v)
    then obtain n where n: "l \<noteq> []" "hd l \<noteq> CHR ''#''" "parseLine_triton l = Some (n, v)"
      "n \<in> {''nv_inference_queue_duration_us'', ''nv_inference_request_success'',
        ''nv_inference_request_failure'', ''nv_inference_count'', ''nv_gpu_utilization''}"
      by (auto simp: sample_of_def split: if_splits option.splits)
    then show ?thesis
      using that by (elim insertE emptyE)
        (simp_all add: triton_reads_def samples_snoc sample_of_def triton_line_def add_triton_metric_def last_or_zero_def)
  qed
  then show ?case using snoc by simp
qed

lemma f64_sub_of_nat:
  assumes "m \<le> n" "n \<le> 2 ^ 53"
  shows "f64_sub (f64_of_nat n) (f64_of_nat m) = f64_of_nat (n - m)"
proof -
  have b: "m \<le> 2 ^ 53" "n \<le> 2 ^ 53" using assms by simp_all
  define z where "z = (n - m) * unit_exp"
  have z: "f64_units (F False (nat_mag n)) + f64_units (F True (nat_mag m)) = int z"
    using b assms(1) by (simp add: z_def nat_mag_exact diff_mult_distrib of_nat_diff)
  have fin: "\<not> inf_mag \<le> nat_mag n" "\<not> inf_mag \<le> nat_mag m"
    using nat_mag_fin_small [OF b(1)] nat_mag_fin_small [OF b(2)] by simp_all
  have "f64_add (F False (nat_mag n)) (F True (nat_mag m)) = f64_of_nat (n - m)"
  proof (cases "n = m")
    case True
    then show ?thesis using fin by (simp add: f64_of_nat_0)
  next
    case False
    then have "z \<noteq> 0" using assms(1) by (simp add: z_def)
    then have "f64_add (F False (nat_mag n)) (F True (nat_mag m)) = f64_round False z 1"
      using fin by (simp add: Let_def z del: f64_units.simps)
    then show ?thesis by (simp only: z_def f64_round_nat)
  qed
  then show ?thesis
    by (simp add: f64_sub_def f64_of_nat_small [OF b(1)] f64_of_nat_small [OF b(2)])
qed

text \<open>A difference is not positive where the first number is not above the second.\<close>

lemma f64_sub_not_pos: "\<not> f64_lt y x \<Longrightarrow> \<not> f64_lt (f64_of_nat 0) (f64_sub x y)"
proof (cases x; cases y)
  fix s j t k
  assume xy: "x = F s j" "y = F t k" "\<not> f64_lt y x"
  define z where "z = f64_units (F s j) + f64_units (F (\<not> t) k)"
  have key: "f64_key (F s j) \<le> f64_key (F t k)" using xy by (simp add: f64_lt_def del: f64_key.simps)
  then have "z \<le> 0"
  proof -
    have "f64_units (F s j) \<le> f64_units (F t k)"
      using key mag_units_le_iff [of j k] mag_units_le_iff [of k j] mag_units_small [of 0]
      by (auto split: if_splits)
    then show ?thesis by (simp add: z_def split: if_splits)
  qed
  then show ?thesis
    using key unfolding xy(1,2) f64_sub_def f64_neg.simps f64_of_nat_0
    by (auto simp: Let_def z_def [symmetric] f64_round_def f64_lt_def simp del: f64_units.simps split: if_splits)
qed (simp_all add: f64_sub_def)

lemma f64_div_pos_nonneg:
  "f64_lt (f64_of_nat 0) x \<Longrightarrow> f64_lt (f64_of_nat 0) y \<Longrightarrow> \<not> f64_lt (f64_div x y) (f64_of_nat 0)"
  by (cases x; cases y) (auto simp: f64_of_nat_0 f64_lt_def f64_round_def split: if_splits)

lemma derive_fields_safe:
  assumes "AvgQueueWaitUs m = f64_of_nat 0" "RequestRatePerSec m = f64_of_nat 0"
  shows "\<not> f64_lt (AvgQueueWaitUs (derive_fields c now m)) (f64_of_nat 0)"
    and "\<not> f64_lt (RequestRatePerSec (derive_fields c now m)) (f64_of_nat 0)"
    and "\<not> havePrev c \<or> \<not> f64_lt (prevInferenceCnt c) (InferenceCount m) \<Longrightarrow> derive_fields c now m = m"
  using assms f64_sub_not_pos [of "prevInferenceCnt c" "InferenceCount m"]
  by (auto simp: derive_fields_def Let_def f64_div_pos_nonneg)

lemma derive_fields_counters [simp]:
  "InferenceCount (derive_fields c now m) = InferenceCount m"
  "QueueDurationUs (derive_fields c now m) = QueueDurationUs m"
  by (simp_all add: derive_fields_def Let_def)

lemma scrape_success:
  assumes "Scrape_triton reply now c = (Inr m, c')"
  shows "\<exists>body rerr ls raw. reply = Reply 200 body rerr \<and> scan_lines body rerr = (ls, None) \<and>
    triton_reads ls raw \<and> m = derive_fields c now raw \<and>
    c' = c\<lparr>prevInferenceCnt := InferenceCount raw, prevQueueDurUs := QueueDurationUs raw,
            prevScrapeTime := now, havePrev := True\<rparr>"
proof (cases reply)
  case (Reply status body rerr)
  obtain ls err where ls: "scan_lines body rerr = (ls, err)" by (cases "scan_lines body rerr")
  then have "status = 200" "err = None"
    using assms Reply by (auto simp: Scrape_triton_def parseMetrics_triton_def status_ok_def split: if_splits option.splits)
  then show ?thesis
    using assms Reply ls triton_fold_reads [of ls]
    by (auto simp: Scrape_triton_def parseMetrics_triton_def status_ok_def applyDerived_def Let_def)
qed (use assms in \<open>simp add: Scrape_triton_def\<close>)

lemma scrape_reply:
  assumes "scan_lines body rerr = (ls, None)"
  shows "\<exists>raw. triton_reads ls raw \<and> Scrape_triton (Reply 200 body rerr) now c =
    (let (m, c') = applyDerived now raw c in (Inr m, c'))"
  using assms triton_fold_reads [of ls] by (auto simp: Scrape_triton_def parseMetrics_triton_def status_ok_def)

lemma scrape_failure: "Scrape_triton reply now c = (Inl e, c') \<Longrightarrow> c' = c"
  by (auto simp: Scrape_triton_def split: http_reply.splits if_splits prod.splits option.splits)

text \<open>A reply that fails does so whatever the client's state.\<close>

definition reply_fails :: "http_reply \<Rightarrow> bool" where
  "reply_fails reply = (case reply of TransportError e \<Rightarrow> True
     | Reply status body rerr \<Rightarrow> status \<noteq> 200 \<or> snd (scan_lines body rerr) \<noteq> None)"

lemma reply_fails_scrape: "reply_fails reply \<Longrightarrow> snd (Scrape_triton reply now c) = c"
  by (auto simp: reply_fails_def Scrape_triton_def parseMetrics_triton_def status_ok_def
      split: http_reply.splits prod.splits option.splits)

definition scrape_all :: "(http_reply \<times> gotime) list \<Rightarrow> triton_client \<Rightarrow> triton_client" where
  "scrape_all rs c = fold (\<lambda>(reply, now) c. snd (Scrape_triton reply now c)) rs c"

lemma scrape_all_failures: "list_all (\<lambda>(reply, now). reply_fails reply) rs \<Longrightarrow> scrape_all rs c = c"
  unfolding scrape_all_def by (rule fold_id) (auto simp: list_all_iff reply_fails_scrape)

lemma sample_line_labels_triton:
  assumes "metric_name name" "CHR ''}'' \<notin> set l1" "list_all plain l2" "n \<le> 2 ^ 1023"
  shows "parseLine_triton (name @ CHR ''{'' # l1 @ CHR ''}'' # l2 @ CHR '' '' # format_uint n) = Some (name @ l2, f64_of_nat n)"
proof -
  have "str_fields ((name @ l2) @ CHR '' '' # format_uint n) = [name @ l2, format_uint n]"
    using assms(1,3) by (intro str_fields_two) (simp_all add: metric_name_def)
  then show ?thesis
    using assms by (simp add: parseLine_triton_def metric_name_def parse_float_format_uint)
qed

section \<open>Properties\<close>

definition demo_client :: triton_client where
  "demo_client = \<lparr>endpoint_t = ''http://triton:8002/metrics'', havePrev = True,
     prevInferenceCnt = f64_of_nat 10, prevQueueDurUs = f64_of_nat 300,
     prevScrapeTime = \<lparr>wall = 1000000000, mono = Some 1000000000\<rparr>\<rparr>"

definition demo_body :: string where
  "demo_body = sample_line ''nv_inference_count'' ''m=1'' 30 @ char_of (10::nat) #
     sample_line ''nv_inference_queue_duration_us'' ''m=1'' 900"

lemma demo_lines:
  "scan_lines demo_body None = ([sample_line ''nv_inference_count'' ''m=1'' 30,
     sample_line ''nv_inference_queue_duration_us'' ''m=1'' 900], None)"
proof -
  define l1 l2 where "l1 = sample_line ''nv_inference_count'' ''m=1'' 30"
    and "l2 = sample_line ''nv_inference_queue_duration_us'' ''m=1'' 900"
  have names: "metric_name ''nv_inference_count''" "metric_name ''nv_inference_queue_duration_us''"
    "char_of (10::nat) \<notin> set ''m=1''"
    by (simp_all add: metric_name_def plain_def byte_def char_of_def)
  note tok = sample_line_token [OF names(1,3), of 30, folded l1_def] sample_line_token [OF names(2,3), of 900, folded l2_def]
  have len: "length l1 < max_token" "length l2 < max_token"
    by (simp_all add: l1_def l2_def sample_line_def max_token_def format_uint.simps [of 30] format_uint.simps [of 3]
        format_uint.simps [of 900] format_uint.simps [of 90] format_uint.simps [of 9])
  show ?thesis
    using tok len by (simp add: scan_lines_def demo_body_def l1_def [symmetric] l2_def [symmetric])
qed

lemma demo_metrics:
  "fst (parseMetrics_triton demo_body None) =
     zero_triton_metrics\<lparr>InferenceCount := f64_of_nat 30, QueueDurationUs := f64_of_nat 900\<rparr>"
proof -
  have n: "(n::nat) \<le> 1000 \<Longrightarrow> n \<le> 2 ^ 1023" for n by (rule le_53_1023) simp
  have "triton_line (sample_line name ''m=1'' k) m = add_triton_metric name (f64_of_nat k) m"
    if "metric_name name" "hd name \<noteq> CHR ''#''" "k \<le> 1000" for name k m
    using that sample_line_labels_triton [OF that(1), of "''m=1''" "[]" k] n [OF that(3)]
    by (simp add: triton_line_def sample_line_def metric_name_def)
  then have "triton_line (sample_line ''nv_inference_count'' ''m=1'' 30) m = add_triton_metric ''nv_inference_count'' (f64_of_nat 30) m"
    "triton_line (sample_line ''nv_inference_queue_duration_us'' ''m=1'' 900) m = add_triton_metric ''nv_inference_queue_duration_us'' (f64_of_nat 900) m" for m
    by (simp_all add: metric_name_def plain_def byte_def)
  then show ?thesis
    by (simp add: parseMetrics_triton_def demo_lines add_triton_metric_def zero_triton_metrics_def)
qed

text \<open>
  The derived Triton metrics are safe.  After a scrape that succeeds, the average wait and the
  rate are not negative, whatever the counters, the clock and the client's state; both are 0 on
  the first scrape and whenever the inference count has not grown, a counter reset included.\<close>

theorem triton_derived_safe:
  assumes "Scrape_triton reply now c = (Inr m, c')"
  shows "\<not> f64_lt (AvgQueueWaitUs m) (f64_of_nat 0) \<and> \<not> f64_lt (RequestRatePerSec m) (f64_of_nat 0) \<and>
    (havePrev c \<and> f64_lt (prevInferenceCnt c) (InferenceCount m) \<or>
     AvgQueueWaitUs m = f64_of_nat 0 \<and> RequestRatePerSec m = f64_of_nat 0)"
proof -
  obtain raw ls where raw: "triton_reads ls raw" "m = derive_fields c now raw"
    using scrape_success [OF assms] by blast
  then have "AvgQueueWaitUs raw = f64_of_nat 0" "RequestRatePerSec raw = f64_of_nat 0"
    by (simp_all add: triton_reads_def)
  note safe = derive_fields_safe [OF this, of c now]
  show ?thesis
  proof (cases "havePrev c \<and> f64_lt (prevInferenceCnt c) (InferenceCount raw)")
    case False
    then have "m = raw" using safe(3) raw(2) by blast
    then show ?thesis using safe(1,2) raw \<open>AvgQueueWaitUs raw = _\<close> \<open>RequestRatePerSec raw = _\<close> by simp
  qed (use safe(1,2) raw(2) in simp)
qed

text \<open>C9
  The averages are taken between successful scrapes and are exact.  When the last success left
  the counts \<open>n0\<close> and \<open>q0\<close>, any number of failed scrapes follow and the next success reads
  \<open>n1\<close> and \<open>q1\<close>, both larger and at most 2^53, the average wait is the correctly rounded
  quotient of the differences and the rate is the difference over the whole time between the two
  successes.\<close>

theorem triton_rates_exact:
  assumes "havePrev c" "prevInferenceCnt c = f64_of_nat n0" "prevQueueDurUs c = f64_of_nat q0"
    and "list_all (\<lambda>(reply, t). reply_fails reply) fails"
    and "Scrape_triton reply now (scrape_all fails c) = (Inr m, c')"
    and "InferenceCount m = f64_of_nat n1" "QueueDurationUs m = f64_of_nat q1"
    and "n0 < n1" "n1 \<le> 2 ^ 53" "q0 < q1" "q1 \<le> 2 ^ 53"
    and "f64_lt (f64_of_nat 0) (in_seconds (time_sub now (prevScrapeTime c)))"
  shows "AvgQueueWaitUs m = f64_of_ratio (q1 - q0) (n1 - n0) \<and>
    RequestRatePerSec m = f64_div (f64_of_nat (n1 - n0)) (in_seconds (time_sub now (prevScrapeTime c)))"
proof -
  have "scrape_all fails c = c" by (rule scrape_all_failures) (rule assms(4))
  then obtain raw where m: "m = derive_fields c now raw"
    using scrape_success [of reply now c m c'] assms(5) by auto
  then have raw: "InferenceCount raw = f64_of_nat n1" "QueueDurationUs raw = f64_of_nat q1"
    using assms(6,7) by simp_all
  have dn: "f64_sub (f64_of_nat n1) (f64_of_nat n0) = f64_of_nat (n1 - n0)"
    "f64_sub (f64_of_nat q1) (f64_of_nat q0) = f64_of_nat (q1 - q0)"
    using assms(8-11) by (simp_all add: f64_sub_of_nat)
  have dd: "f64_div (f64_of_nat (q1 - q0)) (f64_of_nat (n1 - n0)) = f64_of_ratio (q1 - q0) (n1 - n0)"
    by (rule f64_div_of_nat) (use assms(8-11) in simp_all)
  show ?thesis
    using assms(1-3,8,10,12) raw by (simp add: m derive_fields_def Let_def dn dd)
qed

definition demo_now :: gotime where
  "demo_now = \<lparr>wall = 5000000000, mono = Some 5000000000\<rparr>"

lemma demo_scrape:
  "fst (Scrape_triton (Reply 200 demo_body None) demo_now demo_client) =
     Inr (derive_fields demo_client demo_now
       (zero_triton_metrics\<lparr>InferenceCount := f64_of_nat 30, QueueDurationUs := f64_of_nat 900\<rparr>))"
proof -
  have "snd (parseMetrics_triton demo_body None) = None" by (simp add: parseMetrics_triton_def demo_lines)
  then show ?thesis
    using demo_metrics by (cases "parseMetrics_triton demo_body None")
      (simp add: Scrape_triton_def status_ok_def applyDerived_def)
qed

lemma demo_seconds: "in_seconds (time_sub demo_now (prevScrapeTime demo_client)) = f64_of_nat 4"
  using in_seconds_whole [of 4]
  by (simp add: demo_now_def demo_client_def time_sub_def saturate64_def min_int64_def max_int64_def
      nanos_per_second_def)

lemma triton_rates_exact_witness:
  "\<exists>m :: triton_metrics. AvgQueueWaitUs m = f64_of_ratio 600 20 \<and> RequestRatePerSec m = f64_div (f64_of_nat 20) (f64_of_nat 4)"
proof -
  obtain m c' where m: "Scrape_triton (Reply 200 demo_body None) demo_now
        (scrape_all [(TransportError ''refused'', zero_time)] demo_client) = (Inr m, c')"
    and raw: "m = derive_fields demo_client demo_now
       (zero_triton_metrics\<lparr>InferenceCount := f64_of_nat 30, QueueDurationUs := f64_of_nat 900\<rparr>)"
    using demo_scrape
    by (cases "Scrape_triton (Reply 200 demo_body None) demo_now demo_client")
      (simp add: scrape_all_def Scrape_triton_def [of "TransportError e" for e])
  have c: "havePrev demo_client" "prevInferenceCnt demo_client = f64_of_nat 10" "prevQueueDurUs demo_client = f64_of_nat 300"
    by (simp_all add: demo_client_def)
  have "AvgQueueWaitUs m = f64_of_ratio 600 20 \<and> RequestRatePerSec m = f64_div (f64_of_nat 20) (f64_of_nat 4)"
    using triton_rates_exact [OF c _ m, of 30 900] raw by (simp add: reply_fails_def demo_seconds)
  then show ?thesis by (rule exI [of _ m])
qed

lemma triton_derived_safe_witness:
  "\<exists>m. fst (Scrape_triton (Reply 200 demo_body None) demo_now demo_client) = Inr m \<and>
     \<not> f64_lt (AvgQueueWaitUs m) (f64_of_nat 0)"
proof -
  obtain m c' where m: "Scrape_triton (Reply 200 demo_body None) demo_now demo_client = (Inr m, c')"
    using demo_scrape by (cases "Scrape_triton (Reply 200 demo_body None) demo_now demo_client") simp
  show ?thesis using triton_derived_safe [OF m] by (simp add: m)
qed

end
