(* ===== verification/Scaler.thy ===== *)
theory Scaler
  imports Cooldown Aggregate Vllm Triton
begin

text \<open>
  \<open>GPUExternalScaler\<close> of \<open>pkg/scaler/server.go\<close>: the state shared by the four gRPC
  handlers, and the handlers.  The collector is a value of the interface of \<open>pkg/gpu\<close>, its
  state a field of the scaler's.  What a call meets outside the process (the reply to an
  HTTP request, the clock) is a record passed in.
\<close>

record 's scaler =
  coll :: 's
  vllmClients :: "string \<rightharpoonup> vllm_client"
  tritonClients :: "string \<rightharpoonup> triton_client"
  cooldowns :: cooldowns

record call_env =
  http_get :: "string \<Rightarrow> http_reply"
  scrape_now :: gotime
  cooldown_now :: gotime

datatype metric_error =
    CollectorFailed gpu_error
  | NoDevices
  | VllmFailed vllm_error
  | VllmNotExported string "string list"
  | TritonFailed triton_error
  | PercentilePanic

datatype scaler_error =
    ParseFailed config_error
  | MetricFailed metric_error
  | NilScaledObjectRef
  | NonPositiveTicker
  | SendFailed string

definition NewGPUExternalScaler :: "'s \<Rightarrow> 's scaler" where
  "NewGPUExternalScaler c =
     \<lparr>coll = c, vllmClients = Map.empty, tritonClients = Map.empty, cooldowns = Map.empty\<rparr>"

section \<open>Engine metrics\<close>

definition getVLLMClient ::
  "string \<Rightarrow> (string \<rightharpoonup> vllm_client) \<Rightarrow> vllm_client \<times> (string \<rightharpoonup> vllm_client)" where
  "getVLLMClient e m = (case m e of
     Some c \<Rightarrow> (c, m)
   | None \<Rightarrow> (NewClient_vllm e, m(e \<mapsto> NewClient_vllm e)))"

definition getTritonClient ::
  "string \<Rightarrow> (string \<rightharpoonup> triton_client) \<Rightarrow> triton_client \<times> (string \<rightharpoonup> triton_client)" where
  "getTritonClient e m = (case m e of
     Some c \<Rightarrow> (c, m)
   | None \<Rightarrow> (NewClient_triton e, m(e \<mapsto> NewClient_triton e)))"

definition vllm_value :: "scaler_config \<Rightarrow> vllm_metrics \<Rightarrow> (metric_error, f64) result" where
  "vllm_value cfg m =
     (if metricType cfg = MetricVLLMQueueDepth then
        (if \<not> HasQueueDepth m then Inl (VllmNotExported (vllmEndpoint cfg) [MetricQueueDepth])
         else Inr (QueueDepth m))
      else if metricType cfg = MetricVLLMKVCacheUsage then
        (if \<not> HasKVCacheUsage m
         then Inl (VllmNotExported (vllmEndpoint cfg) [MetricKVCacheUsage, MetricKVCacheUsageOld])
         else Inr (f64_mul (KVCacheUsage m) (f64_of_nat 100)))
      else Inr (f64_of_nat 0))"

definition getVLLMMetricValue ::
  "call_env \<Rightarrow> scaler_config \<Rightarrow> 's scaler \<Rightarrow> (metric_error, f64) result \<times> 's scaler" where
  "getVLLMMetricValue env cfg s =
     (let (c, cs) = getVLLMClient (vllmEndpoint cfg) (vllmClients s);
          s' = s\<lparr>vllmClients := cs\<rparr>
      in (res_bind (map_err VllmFailed (Scrape_vllm (http_get env (endpoint c)))) (vllm_value cfg), s'))"

definition triton_value :: "scaler_config \<Rightarrow> triton_metrics \<Rightarrow> f64" where
  "triton_value cfg m =
     (if metricType cfg = MetricTritonQueueWaitMs then f64_div (AvgQueueWaitUs m) (f64_of_nat 1000)
      else if metricType cfg = MetricTritonRequestRate then RequestRatePerSec m
      else f64_of_nat 0)"

text \<open>
  The map holds pointers: the client a scrape changes is the one in the map, so the
  changed client is stored back under its endpoint.
\<close>

definition getTritonMetricValue ::
  "call_env \<Rightarrow> scaler_config \<Rightarrow> 's scaler \<Rightarrow> (metric_error, f64) result \<times> 's scaler" where
  "getTritonMetricValue env cfg s =
     (let e = tritonEndpoint cfg;
          (c, cs) = getTritonClient e (tritonClients s);
          (r, c') = Scrape_triton (http_get env (endpoint_t c)) (scrape_now env) c
      in (res_bind (map_err TritonFailed r) (\<lambda>m. Inr (triton_value cfg m)),
          s\<lparr>tritonClients := cs(e \<mapsto> c')\<rparr>))"

section \<open>Reading the configured metric\<close>

definition getMetricValue ::
  "'s metrics_collector \<Rightarrow> call_env \<Rightarrow> scaler_config \<Rightarrow> 's scaler
     \<Rightarrow> (metric_error, f64) result \<times> 's scaler" where
  "getMetricValue C env cfg s =
     (if IsVLLMMetric (metricType cfg) then getVLLMMetricValue env cfg s
      else if IsTritonMetric (metricType cfg) then getTritonMetricValue env cfg s
      else if 0 \<le> gpuIndex cfg then
        (let (r, k) = CollectDevice C (gpuIndex cfg) (coll s) in
          (res_bind (map_err CollectorFailed r) (\<lambda>m. Inr (extractMetric m (metricType cfg))),
           s\<lparr>coll := k\<rparr>))
      else
        (let (r, k) = CollectAll C (coll s) in
          (res_bind (map_err CollectorFailed r) (\<lambda>ms.
             if ms = [] then Inl NoDevices
             else (case aggregate (map (\<lambda>m. extractMetric m (metricType cfg)) ms) (aggregation cfg) of
                     None \<Rightarrow> Inl PercentilePanic
                   | Some v \<Rightarrow> Inr v)),
           s\<lparr>coll := k\<rparr>)))"

section \<open>The handlers\<close>

definition IsActive ::
  "'s metrics_collector \<Rightarrow> call_env \<Rightarrow> scaled_object_ref \<Rightarrow> 's scaler
     \<Rightarrow> (scaler_error, bool) result \<times> 's scaler" where
  "IsActive C env ref s = (case parseMetadata (scalerMetadata ref) of
     Inl e \<Rightarrow> (Inl (ParseFailed e), s)
   | Inr cfg \<Rightarrow>
       (let (r, s') = getMetricValue C env cfg s in
        (res_bind (map_err MetricFailed r) (\<lambda>v. Inr (f64_lt (activationThreshold cfg) v)), s')))"

definition GetMetricSpec :: "scaled_object_ref \<Rightarrow> (scaler_error, (string \<times> f64) list) result" where
  "GetMetricSpec ref =
     res_bind (map_err ParseFailed (parseMetadata (scalerMetadata ref))) (\<lambda>cfg.
       Inr [(metricName cfg, targetValue cfg)])"

text \<open>
  \<open>GetMetrics\<close>.  The request's reference is a message pointer; the source dereferences it
  without a check.
\<close>

definition GetMetrics ::
  "'s metrics_collector \<Rightarrow> call_env \<Rightarrow> scaled_object_ref option \<Rightarrow> 's scaler
     \<Rightarrow> (scaler_error, (string \<times> f64) list) result \<times> 's scaler" where
  "GetMetrics C env req s = (case req of
     None \<Rightarrow> (Inl NilScaledObjectRef, s)
   | Some ref \<Rightarrow> (case parseMetadata (scalerMetadata ref) of
       Inl e \<Rightarrow> (Inl (ParseFailed e), s)
     | Inr cfg \<Rightarrow> (case getMetricValue C env cfg s of
         (Inl e, s') \<Rightarrow> (Inl (MetricFailed e), s')
       | (Inr value, s') \<Rightarrow>
           (let (v, cds) = applyCooldown (cooldown_now env) (newCooldownKey ref cfg) value
                             (seconds (cooldownSeconds cfg)) (cooldowns s')
            in (Inr [(metricName cfg, v)], s'\<lparr>cooldowns := cds\<rparr>)))))"

text \<open>
  \<open>StreamIsActive\<close>: what the \<open>select\<close> of its loop takes next is an event, a tick with the
  outcome of the \<open>Send\<close> it may make, or the end of the stream's context.  The run returns
  the responses sent, how the handler ended (\<open>None\<close> while it waits for the next event) and
  the state.
\<close>

datatype stream_event =
    ContextDone
  | Tick call_env "string option"

type_synonym stream_end = "(scaler_error, unit) result option"

fun stream_loop ::
  "'s metrics_collector \<Rightarrow> scaler_config \<Rightarrow> stream_event list \<Rightarrow> 's scaler
     \<Rightarrow> bool list \<times> stream_end \<times> 's scaler" where
  "stream_loop C cfg [] s = ([], None, s)"
| "stream_loop C cfg (ContextDone # es) s = ([], Some (Inr ()), s)"
| "stream_loop C cfg (Tick env send_err # es) s =
     (case getMetricValue C env cfg s of
        (Inl e, s') \<Rightarrow> stream_loop C cfg es s'
      | (Inr value, s') \<Rightarrow>
          (case send_err of
             Some e \<Rightarrow> ([], Some (Inl (SendFailed e)), s')
           | None \<Rightarrow>
               (let (sent, r) = stream_loop C cfg es s'
                in (f64_lt (activationThreshold cfg) value # sent, r))))"

definition StreamIsActive ::
  "'s metrics_collector \<Rightarrow> scaled_object_ref \<Rightarrow> stream_event list \<Rightarrow> 's scaler
     \<Rightarrow> bool list \<times> stream_end \<times> 's scaler" where
  "StreamIsActive C ref es s = (case parseMetadata (scalerMetadata ref) of
     Inl e \<Rightarrow> ([], Some (Inl (ParseFailed e)), s)
   | Inr cfg \<Rightarrow>
       if seconds (pollIntervalSeconds cfg) \<le> 0 then ([], Some (Inl NonPositiveTicker), s)
       else stream_loop C cfg es s)"

section \<open>Facts\<close>

interpretation vllm_cache: client_cache getVLLMClient NewClient_vllm
  by unfold_locales (simp_all add: getVLLMClient_def)

interpretation triton_cache: client_cache getTritonClient NewClient_triton
  by unfold_locales (simp_all add: getTritonClient_def)

text \<open>The clients of a collector rely on its contract only.\<close>

context collector
begin

lemma read_keeps_inv:
  "inv (coll s) \<Longrightarrow> inv (coll (snd (getMetricValue C env cfg s)))"
  using inv_device [of "coll s" "gpuIndex cfg"] inv_all [of "coll s"]
  by (auto simp: getMetricValue_def getVLLMMetricValue_def getTritonMetricValue_def Let_def split: prod.splits)

lemma read_device:
  assumes "inv (coll s)" "0 \<le> gpuIndex cfg" "\<not> IsVLLMMetric (metricType cfg)" "\<not> IsTritonMetric (metricType cfg)"
    and "getMetricValue C env cfg s = (Inr v, s')"
  shows "\<exists>m. Index m = gpuIndex cfg \<and> v = extractMetric m (metricType cfg)"
proof -
  obtain r k where r: "CollectDevice C (gpuIndex cfg) (coll s) = (r, k)" by (cases "CollectDevice C (gpuIndex cfg) (coll s)")
  then obtain m where m: "r = Inr m" "v = extractMetric m (metricType cfg)"
    using assms(2-5) by (cases r) (auto simp: getMetricValue_def)
  then show ?thesis using device_index [OF assms(1), of "gpuIndex cfg" m] r by auto
qed

end

section \<open>Handlers by cases\<close>

lemma bind_err_Inl_iff:
  "res_bind (map_err g r) f = Inl p \<longleftrightarrow> (\<exists>x. r = Inl x \<and> g x = p) \<or> (\<exists>a. r = Inr a \<and> f a = Inl p)"
  by (cases r) auto

lemma aggregate_case: "(case aggregate vs a of None \<Rightarrow> x | Some v \<Rightarrow> f v) = f (the (aggregate vs a))"
  using aggregate_total [of vs a] by auto

lemma getMetricValue_no_panic: "fst (getMetricValue C env cfg s) \<noteq> Inl PercentilePanic"
  by (auto simp: getMetricValue_def getVLLMMetricValue_def getTritonMetricValue_def Let_def vllm_value_def
      bind_err_Inl_iff aggregate_case split: prod.splits if_splits)

lemma getMetricValue_cooldowns [simp]: "cooldowns (snd (getMetricValue C env cfg s)) = cooldowns s"
  by (auto simp: getMetricValue_def getVLLMMetricValue_def getTritonMetricValue_def Let_def split: prod.splits)

lemma getMetricValue_cooldownsD: "getMetricValue C env cfg s = (r, s') \<Longrightarrow> cooldowns s' = cooldowns s"
  using getMetricValue_cooldowns [of C env cfg s] by simp

lemma GetMetrics_cases [case_names parse metric ok]:
  obtains e where "parseMetadata (scalerMetadata ref) = Inl e"
      "GetMetrics C env (Some ref) s = (Inl (ParseFailed e), s)"
  | cfg e s' where "parseMetadata (scalerMetadata ref) = Inr cfg" "getMetricValue C env cfg s = (Inl e, s')"
      "GetMetrics C env (Some ref) s = (Inl (MetricFailed e), s')"
  | cfg x s' v cds where "parseMetadata (scalerMetadata ref) = Inr cfg"
      "getMetricValue C env cfg s = (Inr x, s')"
      "applyCooldown (cooldown_now env) (newCooldownKey ref cfg) x (seconds (cooldownSeconds cfg)) (cooldowns s') = (v, cds)"
      "GetMetrics C env (Some ref) s = (Inr [(metricName cfg, v)], s'\<lparr>cooldowns := cds\<rparr>)"
proof (cases "parseMetadata (scalerMetadata ref)")
  case (Inl e)
  then show ?thesis using that(1) by (simp add: GetMetrics_def)
next
  case (Inr cfg)
  obtain r s' where r: "getMetricValue C env cfg s = (r, s')" by (cases "getMetricValue C env cfg s")
  show ?thesis
  proof (cases r)
    case (Inl e)
    then show ?thesis using that(2) Inr r by (simp add: GetMetrics_def)
  next
    case val: (Inr x)
    obtain v' cds where "applyCooldown (cooldown_now env) (newCooldownKey ref cfg) x
        (seconds (cooldownSeconds cfg)) (cooldowns s') = (v', cds)"
      by (cases "applyCooldown (cooldown_now env) (newCooldownKey ref cfg) x
        (seconds (cooldownSeconds cfg)) (cooldowns s')")
    then show ?thesis using that(3) Inr r val by (simp add: GetMetrics_def)
  qed
qed

text \<open>What a device metric reads, and what it leaves alone.\<close>

lemma read_all_devices:
  assumes "\<not> IsVLLMMetric (metricType cfg)" "\<not> IsTritonMetric (metricType cfg)" "gpuIndex cfg < 0"
    and "CollectAll C (coll s) = (Inr ms, k)" "ms \<noteq> []"
  shows "getMetricValue C env cfg s =
    (Inr (the (aggregate (map (\<lambda>m. extractMetric m (metricType cfg)) ms) (aggregation cfg))), s\<lparr>coll := k\<rparr>)"
  using assms aggregate_total [of "map (\<lambda>m. extractMetric m (metricType cfg)) ms" "aggregation cfg"]
  by (auto simp: getMetricValue_def)

text \<open>The natural number a device reports for a metric other than the percentage.\<close>

definition device_reading :: "metric_type \<Rightarrow> metrics \<Rightarrow> nat" where
  "device_reading t m =
     (if t = MetricMemoryUtilization then unat (MemoryUtilization m)
      else if t = MetricMemoryUsedMiB then unat (MemoryUsedMiB m)
      else if t = MetricTemperature then unat (TemperatureCelsius m)
      else if t = MetricPowerDraw then unat (PowerDrawWatts m)
      else if t = MetricPCIeTxKBps then unat (PCIeTxKBps m)
      else if t = MetricPCIeRxKBps then unat (PCIeRxKBps m)
      else if t = MetricNVLinkTxMBps then unat (NVLinkTxMBps m)
      else if t = MetricNVLinkRxMBps then unat (NVLinkRxMBps m)
      else unat (GPUUtilization m))"

lemma extract_reading: "t \<noteq> MetricMemoryUsedPercent \<Longrightarrow> extractMetric m t = f64_of_nat (device_reading t m)"
proof (cases "t = MetricGPUUtilization")
  case True
  then show ?thesis by (simp add: extractMetric_def device_reading_def u_float_def) (simp add: metric_type_defs)
next
  case False
  assume "t \<noteq> MetricMemoryUsedPercent"
  then show ?thesis using False
    by (simp add: extractMetric_def device_reading_def u_float_def if_distrib [of f64_of_nat] cong: if_cong)
qed

section \<open>Runs of the scaler\<close>

text \<open>
  The steps of the service: a call of \<open>IsActive\<close> or \<open>GetMetrics\<close>, or one tick of an open
  \<open>StreamIsActive\<close>.  A step is atomic; handlers interleave between steps.
\<close>

inductive scaler_step :: "'s metrics_collector \<Rightarrow> 's scaler \<Rightarrow> 's scaler \<Rightarrow> bool"
  for C :: "'s metrics_collector" where
  is_active: "scaler_step C s (snd (IsActive C env ref s))"
| get_metrics: "scaler_step C s (snd (GetMetrics C env req s))"
| tick: "parseMetadata md = Inr cfg \<Longrightarrow> scaler_step C s (snd (getMetricValue C env cfg s))"

inductive scaler_reachable :: "'s metrics_collector \<Rightarrow> 's scaler \<Rightarrow> bool"
  for C :: "'s metrics_collector" where
  start: "scaler_reachable C (NewGPUExternalScaler c)"
| step: "scaler_reachable C s \<Longrightarrow> scaler_step C s s' \<Longrightarrow> scaler_reachable C s'"

inductive_cases scaler_stepE: "scaler_step C s s'"

definition vetted :: "string \<Rightarrow> bool" where
  "vetted u \<longleftrightarrow> validateVLLMEndpoint u = Inr ()"

definition clients_vetted :: "'s scaler \<Rightarrow> bool" where
  "clients_vetted s \<longleftrightarrow>
     (\<forall>e c. vllmClients s e = Some c \<longrightarrow> endpoint c = e \<and> vetted e) \<and>
     (\<forall>e c. tritonClients s e = Some c \<longrightarrow> endpoint_t c = e \<and> vetted e)"

lemma Scrape_triton_endpoint: "Scrape_triton reply now c = (r, c') \<Longrightarrow> endpoint_t c' = endpoint_t c"
  by (auto simp: Scrape_triton_def applyDerived_def Let_def split: http_reply.splits if_splits prod.splits option.splits)

lemma endpoints_ok_vetted:
  "endpoints_ok cfg \<Longrightarrow> IsVLLMMetric (metricType cfg) \<Longrightarrow> vetted (vllmEndpoint cfg)"
  "endpoints_ok cfg \<Longrightarrow> IsTritonMetric (metricType cfg) \<Longrightarrow> vetted (tritonEndpoint cfg)"
  by (simp_all add: endpoints_ok_def vetted_def)

lemma parse_endpoints_ok: "parseMetadata md = Inr cfg \<Longrightarrow> endpoints_ok cfg"
  by (simp add: parse_Inr_iff)

text \<open>The client a read uses asks its own, vetted endpoint.\<close>

lemma getVLLMClient_endpoint:
  "clients_vetted s \<Longrightarrow> endpoint (fst (getVLLMClient e (vllmClients s))) = e"
  by (auto simp: getVLLMClient_def clients_vetted_def NewClient_vllm_def split: option.split)

lemma getTritonClient_endpoint:
  "clients_vetted s \<Longrightarrow> endpoint_t (fst (getTritonClient e (tritonClients s))) = e"
  by (auto simp: getTritonClient_def clients_vetted_def NewClient_triton_def split: option.split)

lemma vllm_read_vetted:
  assumes "clients_vetted s" "vetted (vllmEndpoint cfg)"
  shows "clients_vetted (snd (getVLLMMetricValue env cfg s))"
proof -
  have "endpoint c = e \<and> vetted e" if "snd (getVLLMClient (vllmEndpoint cfg) (vllmClients s)) e = Some c" for e c
    using that assms by (auto simp: getVLLMClient_def clients_vetted_def NewClient_vllm_def split: option.splits if_splits)
  then show ?thesis using assms(1) by (auto simp: clients_vetted_def getVLLMMetricValue_def Let_def split: prod.splits)
qed

lemma triton_read_vetted:
  assumes "clients_vetted s" "vetted (tritonEndpoint cfg)"
  shows "clients_vetted (snd (getTritonMetricValue env cfg s))"
proof -
  let ?e = "tritonEndpoint cfg"
  obtain c cs where c: "getTritonClient ?e (tritonClients s) = (c, cs)" by (cases "getTritonClient ?e (tritonClients s)")
  obtain r c' where r: "Scrape_triton (http_get env (endpoint_t c)) (scrape_now env) c = (r, c')"
    by (cases "Scrape_triton (http_get env (endpoint_t c)) (scrape_now env) c")
  have "endpoint_t c' = ?e"
    using getTritonClient_endpoint [OF assms(1), of ?e] Scrape_triton_endpoint [OF r] c by simp
  moreover have "endpoint_t d = e \<and> vetted e" if "cs e = Some d" for e d
    using that assms c by (auto simp: getTritonClient_def clients_vetted_def NewClient_triton_def split: option.splits if_splits)
  ultimately show ?thesis
    using assms c r by (auto simp: clients_vetted_def getTritonMetricValue_def)
qed

lemma read_vetted:
  assumes "clients_vetted s" "endpoints_ok cfg"
  shows "clients_vetted (snd (getMetricValue C env cfg s))"
proof -
  consider "IsVLLMMetric (metricType cfg)" | "\<not> IsVLLMMetric (metricType cfg)" "IsTritonMetric (metricType cfg)"
    | "\<not> IsVLLMMetric (metricType cfg)" "\<not> IsTritonMetric (metricType cfg)" by blast
  then show ?thesis
  proof cases
    case 1
    then show ?thesis
      using vllm_read_vetted [OF assms(1) endpoints_ok_vetted(1) [OF assms(2)]] by (simp add: getMetricValue_def)
  next
    case 2
    then show ?thesis
      using triton_read_vetted [OF assms(1) endpoints_ok_vetted(2) [OF assms(2)]] by (simp add: getMetricValue_def)
  next
    case 3
    then have "\<exists>k. snd (getMetricValue C env cfg s) = s\<lparr>coll := k\<rparr>"
      by (auto simp: getMetricValue_def split: prod.split)
    then show ?thesis using assms(1) by (auto simp: clients_vetted_def)
  qed
qed

lemma step_vetted: "scaler_step C s s' \<Longrightarrow> clients_vetted s \<Longrightarrow> clients_vetted s'"
proof (induction rule: scaler_step.induct)
  case (is_active s env ref)
  then show ?case
    using read_vetted [OF is_active parse_endpoints_ok, of "scalerMetadata ref" _ C env]
    by (fastforce simp: IsActive_def Let_def split: sum.splits prod.splits)
next
  case (get_metrics s env req)
  show ?case
  proof (cases req)
    case (Some ref)
    show ?thesis unfolding Some
    proof (cases rule: GetMetrics_cases [where ref = ref and C = C and env = env and s = s])
      case (parse e)
      then show "clients_vetted (snd (GetMetrics C env (Some ref) s))" using get_metrics by simp
    next
      case (metric cfg e s')
      then show "clients_vetted (snd (GetMetrics C env (Some ref) s))"
        using read_vetted [OF get_metrics parse_endpoints_ok [OF metric(1)], of C env] by simp
    next
      case (ok cfg x s' v cds)
      then show "clients_vetted (snd (GetMetrics C env (Some ref) s))"
        using read_vetted [OF get_metrics parse_endpoints_ok [OF ok(1)], of C env] by (simp add: clients_vetted_def)
    qed
  qed (use get_metrics in \<open>simp add: GetMetrics_def\<close>)
next
  case (tick md cfg s env)
  then show ?case by (simp add: read_vetted parse_endpoints_ok)
qed

lemma reachable_vetted: "scaler_reachable C s \<Longrightarrow> clients_vetted s"
  by (induction rule: scaler_reachable.induct) (auto simp: clients_vetted_def NewGPUExternalScaler_def dest: step_vetted)

end
