(* ===== verification/Nvml.thy ===== *)
theory Nvml
  imports Gpu "HOL-Library.State_Monad"
begin

text \<open>
  The collector of \<open>pkg/gpu/nvml.go\<close> and \<open>pkg/gpu/mig.go\<close>, over a parameter for the NVML
  library: a record of its calls, each reading and changing a state \<open>'w\<close> the model knows
  nothing about, and yielding a return code other than \<open>SUCCESS\<close> (\<open>Inl\<close>) or a value.  The
  collector's mutex makes each of its methods one step; its log is in \<open>NodeLog\<close>.
\<close>

record ('w, 'd) nvml =
  Init :: "('w, (int, unit) result) state"
  Shutdown :: "('w, (int, unit) result) state"
  SystemGetDriverVersion :: "('w, (int, string) result) state"
  DeviceGetCount :: "('w, (int, int) result) state"
  DeviceGetHandleByIndex :: "int \<Rightarrow> ('w, (int, 'd) result) state"
  DeviceGetHandleByUUID :: "string \<Rightarrow> ('w, (int, 'd) result) state"
  DeviceGetDeviceHandleFromMigDeviceHandle :: "'d \<Rightarrow> ('w, (int, 'd) result) state"
  GetMigDeviceHandleByIndex :: "'d \<Rightarrow> nat \<Rightarrow> ('w, (int, 'd) result) state"
  GetMigMode :: "'d \<Rightarrow> ('w, (int, int \<times> int) result) state"
  DEVICE_MIG_ENABLE :: int
  GetIndex :: "'d \<Rightarrow> ('w, (int, int) result) state"
  GetUUID :: "'d \<Rightarrow> ('w, (int, string) result) state"
  GetName :: "'d \<Rightarrow> ('w, (int, string) result) state"
  GetUtilizationRates :: "'d \<Rightarrow> ('w, (int, u32 \<times> u32) result) state"
  GetMemoryInfo :: "'d \<Rightarrow> ('w, (int, u64 \<times> u64) result) state"
  GetTemperature :: "'d \<Rightarrow> ('w, (int, u32) result) state"
  GetPowerUsage :: "'d \<Rightarrow> ('w, (int, u32) result) state"
  GetPowerManagementLimit :: "'d \<Rightarrow> ('w, (int, u32) result) state"
  GetPcieThroughputTx :: "'d \<Rightarrow> ('w, (int, u32) result) state"
  GetPcieThroughputRx :: "'d \<Rightarrow> ('w, (int, u32) result) state"
  GetNvLinkUtilizationCounter :: "'d \<Rightarrow> nat \<Rightarrow> ('w, (int, u64 \<times> u64) result) state"

text \<open>A reading that is taken over when the call succeeds: \<open>if v, ret := ...; ret == SUCCESS\<close>.\<close>

definition overlay ::
  "('w, (int, 'v) result) state \<Rightarrow> ('v \<Rightarrow> metrics \<Rightarrow> metrics) \<Rightarrow> metrics \<Rightarrow> ('w, metrics) state" where
  "overlay call upd m = do {
     r \<leftarrow> call;
     State_Monad.return (case r of Inl _ \<Rightarrow> m | Inr v \<Rightarrow> upd v m)
   }"

definition bytes_per_mib :: u64 where "bytes_per_mib = 1024 * 1024"

definition max_nvlinks :: nat where "max_nvlinks = 18"

text \<open>The NVLink counters of the links that answer, added up in 64 bits.\<close>

fun sum_nvlinks ::
  "('w, 'd) nvml \<Rightarrow> 'd \<Rightarrow> nat list \<Rightarrow> u64 \<times> u64 \<Rightarrow> ('w, u64 \<times> u64) state" where
  "sum_nvlinks nv d [] acc = State_Monad.return acc"
| "sum_nvlinks nv d (l # ls) acc = do {
     r \<leftarrow> GetNvLinkUtilizationCounter nv d l;
     sum_nvlinks nv d ls (case r of Inl _ \<Rightarrow> acc | Inr (tx, rx) \<Rightarrow> (fst acc + tx, snd acc + rx))
   }"

definition read_nvlinks :: "('w, 'd) nvml \<Rightarrow> 'd \<Rightarrow> metrics \<Rightarrow> ('w, metrics) state" where
  "read_nvlinks nv d m = do {
     (tx, rx) \<leftarrow> sum_nvlinks nv d [0..<max_nvlinks] (0, 0);
     State_Monad.return (m\<lparr>NVLinkTxMBps := tx div 1024, NVLinkRxMBps := rx div 1024\<rparr>)
   }"

text \<open>The readings \<open>collectDevice\<close> and \<open>collectPhysicalForMIG\<close> share.\<close>

definition read_chip :: "('w, 'd) nvml \<Rightarrow> 'd \<Rightarrow> metrics \<Rightarrow> ('w, metrics) state" where
  "read_chip nv d m = do {
     m \<leftarrow> overlay (GetTemperature nv d) (\<lambda>t m. m\<lparr>TemperatureCelsius := t\<rparr>) m;
     m \<leftarrow> overlay (GetPowerUsage nv d) (\<lambda>p m. m\<lparr>PowerDrawWatts := p div 1000\<rparr>) m;
     m \<leftarrow> overlay (GetPowerManagementLimit nv d) (\<lambda>p m. m\<lparr>PowerLimitWatts := p div 1000\<rparr>) m;
     m \<leftarrow> overlay (GetPcieThroughputTx nv d) (\<lambda>t m. m\<lparr>PCIeTxKBps := t\<rparr>) m;
     m \<leftarrow> overlay (GetPcieThroughputRx nv d) (\<lambda>t m. m\<lparr>PCIeRxKBps := t\<rparr>) m;
     read_nvlinks nv d m
   }"

definition read_utilization :: "('w, 'd) nvml \<Rightarrow> 'd \<Rightarrow> metrics \<Rightarrow> ('w, metrics) state" where
  "read_utilization nv d m =
     overlay (GetUtilizationRates nv d) (\<lambda>(g, mem) m. m\<lparr>GPUUtilization := g, MemoryUtilization := mem\<rparr>) m"

definition read_memory :: "('w, 'd) nvml \<Rightarrow> 'd \<Rightarrow> metrics \<Rightarrow> ('w, metrics) state" where
  "read_memory nv d m =
     overlay (GetMemoryInfo nv d)
       (\<lambda>(used, total) m. m\<lparr>MemoryUsedMiB := used div bytes_per_mib, MemoryTotalMiB := total div bytes_per_mib\<rparr>) m"

definition read_device :: "('w, 'd) nvml \<Rightarrow> int \<Rightarrow> 'd \<Rightarrow> ('w, metrics) state" where
  "read_device nv index d = do {
     m \<leftarrow> overlay (GetUUID nv d) (\<lambda>u m. m\<lparr>UUID := u\<rparr>) (zero_metrics\<lparr>Index := index\<rparr>);
     m \<leftarrow> overlay (GetName nv d) (\<lambda>n m. m\<lparr>Name_gpu := n\<rparr>) m;
     m \<leftarrow> read_utilization nv d m;
     m \<leftarrow> read_memory nv d m;
     read_chip nv d m
   }"

definition collectDevice ::
  "('w, 'd) nvml \<Rightarrow> int \<Rightarrow> ('w, (gpu_error, metrics) result) state" where
  "collectDevice nv index = do {
     r \<leftarrow> DeviceGetHandleByIndex nv index;
     (case r of
        Inl ret \<Rightarrow> State_Monad.return (Inl (DeviceHandleFailed index ret))
      | Inr d \<Rightarrow> do {
          m \<leftarrow> read_device nv index d;
          State_Monad.return (Inr m)
        })
   }"

section \<open>MIG\<close>

definition isMIGEnabled :: "('w, 'd) nvml \<Rightarrow> 'd \<Rightarrow> ('w, bool) state" where
  "isMIGEnabled nv d = do {
     r \<leftarrow> GetMigMode nv d;
     State_Monad.return (case r of Inl _ \<Rightarrow> False | Inr (mode, pending) \<Rightarrow> mode = DEVICE_MIG_ENABLE nv)
   }"

definition parseMIGProfile :: "string \<Rightarrow> string" where
  "parseMIGProfile name = (if has_prefix name ''MIG '' then trim_prefix name ''MIG '' else name)"

definition collectPhysicalForMIG :: "('w, 'd) nvml \<Rightarrow> 'd \<Rightarrow> int \<Rightarrow> ('w, metrics) state" where
  "collectPhysicalForMIG nv d index = read_chip nv d (zero_metrics\<lparr>Index := index\<rparr>)"

definition mig_base :: "int \<Rightarrow> int \<Rightarrow> metrics \<Rightarrow> metrics" where
  "mig_base parent idx physical = zero_metrics\<lparr>Index := idx, IsMIGInstance := True, ParentIndex := parent,
     TemperatureCelsius := TemperatureCelsius physical, PowerDrawWatts := PowerDrawWatts physical,
     PowerLimitWatts := PowerLimitWatts physical, PCIeTxKBps := PCIeTxKBps physical,
     PCIeRxKBps := PCIeRxKBps physical, NVLinkTxMBps := NVLinkTxMBps physical,
     NVLinkRxMBps := NVLinkRxMBps physical\<rparr>"

text \<open>\<open>collectMIGDevice\<close> never returns its error.\<close>

definition collectMIGDevice ::
  "('w, 'd) nvml \<Rightarrow> 'd \<Rightarrow> int \<Rightarrow> int \<Rightarrow> metrics \<Rightarrow> ('w, metrics) state" where
  "collectMIGDevice nv d parent idx physical = do {
     m \<leftarrow> overlay (GetUUID nv d) (\<lambda>u m. m\<lparr>UUID := u\<rparr>) (mig_base parent idx physical);
     m \<leftarrow> overlay (GetName nv d) (\<lambda>n m. m\<lparr>Name_gpu := n, MigProfile := parseMIGProfile n\<rparr>) m;
     m \<leftarrow> read_utilization nv d m;
     read_memory nv d m
   }"

text \<open>
  The loop over the instances has no bound of its own: it ends at the first index whose handle
  is refused.  \<open>None\<close> is the loop that never ends.
\<close>

partial_function (option) mig_instances ::
  "('w, 'd) nvml \<Rightarrow> 'd \<Rightarrow> int \<Rightarrow> metrics \<Rightarrow> nat \<Rightarrow> 'w \<Rightarrow> (metrics list \<times> 'w) option" where
  "mig_instances nv d parent physical idx w = (case run_state (GetMigDeviceHandleByIndex nv d idx) w of
     (r, w1) \<Rightarrow> (case r of
        Inl _ \<Rightarrow> Some ([], w1)
      | Inr mig \<Rightarrow> (case run_state (collectMIGDevice nv mig parent (int idx) physical) w1 of
          (m, w2) \<Rightarrow> Option.bind (mig_instances nv d parent physical (Suc idx) w2)
            (\<lambda>(ms, w3). Some (m # ms, w3)))))"

definition collectMIGInstances :: "('w, 'd) nvml \<Rightarrow> 'd \<Rightarrow> int \<Rightarrow> ('w, metrics list option) state" where
  "collectMIGInstances nv d parent = do {
     physical \<leftarrow> collectPhysicalForMIG nv d parent;
     State (\<lambda>w. case mig_instances nv d parent physical 0 w of
       None \<Rightarrow> (None, w) | Some (ms, w') \<Rightarrow> (Some ms, w'))
   }"

section \<open>The collector\<close>

text \<open>What one GPU contributes to \<open>CollectAll\<close>; a GPU that fails contributes nothing.\<close>

definition collect_gpu :: "('w, 'd) nvml \<Rightarrow> nat \<Rightarrow> ('w, metrics list option) state" where
  "collect_gpu nv i = do {
     r \<leftarrow> DeviceGetHandleByIndex nv (int i);
     (case r of
        Inl _ \<Rightarrow> State_Monad.return (Some [])
      | Inr d \<Rightarrow> do {
          mig \<leftarrow> isMIGEnabled nv d;
          (if mig then collectMIGInstances nv d (int i)
           else do {
             c \<leftarrow> collectDevice nv (int i);
             State_Monad.return (Some (case c of Inl _ \<Rightarrow> [] | Inr m \<Rightarrow> [m]))
           })
        })
   }"

fun collect_gpus :: "('w, 'd) nvml \<Rightarrow> nat list \<Rightarrow> ('w, metrics list option) state" where
  "collect_gpus nv [] = State_Monad.return (Some [])"
| "collect_gpus nv (i # rest) = do {
     r \<leftarrow> collect_gpu nv i;
     (case r of
        None \<Rightarrow> State_Monad.return None
      | Some ms \<Rightarrow> do {
          more \<leftarrow> collect_gpus nv rest;
          State_Monad.return (map_option ((@) ms) more)
        })
   }"

definition nvml_DeviceCount :: "('w, 'd) nvml \<Rightarrow> ('w, (gpu_error, int) result) state" where
  "nvml_DeviceCount nv = do {
     r \<leftarrow> DeviceGetCount nv;
     State_Monad.return (map_err DeviceCountFailed r)
   }"

definition nvml_CollectAll :: "('w, 'd) nvml \<Rightarrow> ('w, (gpu_error, metrics list) result) state" where
  "nvml_CollectAll nv = do {
     r \<leftarrow> nvml_DeviceCount nv;
     (case r of
        Inl e \<Rightarrow> State_Monad.return (Inl e)
      | Inr count \<Rightarrow> do {
          ms \<leftarrow> collect_gpus nv [0..<nat count];
          State_Monad.return (case ms of None \<Rightarrow> Inl CollectionHangs | Some xs \<Rightarrow> Inr xs)
        })
   }"

definition nvml_CollectDevice :: "('w, 'd) nvml \<Rightarrow> int \<Rightarrow> ('w, (gpu_error, metrics) result) state" where
  "nvml_CollectDevice nv index = do {
     r \<leftarrow> DeviceGetHandleByIndex nv index;
     _ \<leftarrow> (case r of Inl _ \<Rightarrow> State_Monad.return False | Inr h \<Rightarrow> isMIGEnabled nv h);
     collectDevice nv index
   }"

definition nvml_CollectByUUID :: "('w, 'd) nvml \<Rightarrow> string \<Rightarrow> ('w, (gpu_error, metrics) result) state" where
  "nvml_CollectByUUID nv uuid = do {
     r \<leftarrow> DeviceGetHandleByUUID nv uuid;
     (case r of
        Inl ret \<Rightarrow> State_Monad.return (Inl (UUIDNotFound uuid ret))
      | Inr d \<Rightarrow>
          if has_prefix uuid ''MIG-'' then do {
            p \<leftarrow> DeviceGetDeviceHandleFromMigDeviceHandle nv d;
            physical \<leftarrow> (case p of Inl _ \<Rightarrow> State_Monad.return zero_metrics
                          | Inr parent \<Rightarrow> collectPhysicalForMIG nv parent (-1));
            m \<leftarrow> collectMIGDevice nv d (-1) 0 physical;
            State_Monad.return (Inr m)
          }
          else do {
            i \<leftarrow> GetIndex nv d;
            (case i of
               Inl ret \<Rightarrow> State_Monad.return (Inl (IndexOfUUIDUnknown uuid ret))
             | Inr idx \<Rightarrow> collectDevice nv idx)
          })
   }"

definition nvml_Close :: "('w, 'd) nvml \<Rightarrow> ('w, (gpu_error, unit) result) state" where
  "nvml_Close nv = do {
     r \<leftarrow> Shutdown nv;
     State_Monad.return (map_err ShutdownFailed r)
   }"

text \<open>The \<open>Collector\<close> structure: the driver version read at the start, and the library's state.\<close>

record 'w nvml_collector =
  nvml_world :: 'w
  driverVersion :: string

definition NewCollector :: "('w, 'd) nvml \<Rightarrow> 'w \<Rightarrow> (gpu_error, 'w nvml_collector) result" where
  "NewCollector nv w = (case run_state (Init nv) w of
     (Inl ret, w1) \<Rightarrow> Inl (InitFailed ret)
   | (Inr _, w1) \<Rightarrow> (case run_state (SystemGetDriverVersion nv) w1 of
       (v, w2) \<Rightarrow> Inr \<lparr>nvml_world = w2, driverVersion = (case v of Inl _ \<Rightarrow> [] | Inr s \<Rightarrow> s)\<rparr>))"

definition on_world :: "('w, 'a) state \<Rightarrow> 'w nvml_collector \<Rightarrow> 'a \<times> 'w nvml_collector" where
  "on_world call c = (case run_state call (nvml_world c) of (a, w) \<Rightarrow> (a, c\<lparr>nvml_world := w\<rparr>))"

definition nvml_ops :: "('w, 'd) nvml \<Rightarrow> 'w nvml_collector metrics_collector" where
  "nvml_ops nv = \<lparr>CollectAll = on_world (nvml_CollectAll nv),
     CollectDevice = (\<lambda>i. on_world (nvml_CollectDevice nv i)),
     CollectByUUID = (\<lambda>u. on_world (nvml_CollectByUUID nv u)),
     DeviceCount = on_world (nvml_DeviceCount nv),
     DriverVersion = driverVersion, Close = on_world (nvml_Close nv)\<rparr>"

section \<open>Facts\<close>

text \<open>What the library answers, or a value in place of a refusal.\<close>

definition reading :: "('w, (int, 'v) result) state \<Rightarrow> 'w \<Rightarrow> 'v \<Rightarrow> 'v" where
  "reading call w dflt = (case fst (run_state call w) of Inl _ \<Rightarrow> dflt | Inr v \<Rightarrow> v)"

text \<open>Which GPU a snapshot is of, and its chip-level readings.\<close>

definition identity_of :: "metrics \<Rightarrow> int \<times> bool \<times> int" where
  "identity_of m = (Index m, IsMIGInstance m, ParentIndex m)"

definition chip_of :: "metrics \<Rightarrow> u32 \<times> u32 \<times> u32 \<times> u32 \<times> u32 \<times> u64 \<times> u64" where
  "chip_of m = (TemperatureCelsius m, PowerDrawWatts m, PowerLimitWatts m, PCIeTxKBps m, PCIeRxKBps m,
     NVLinkTxMBps m, NVLinkRxMBps m)"

text \<open>A reading that keeps a view of the snapshot it adds to, whatever the library answers.\<close>

abbreviation keeps :: "(metrics \<Rightarrow> 'v) \<Rightarrow> metrics \<Rightarrow> ('w, metrics) state \<Rightarrow> bool" where
  "keeps view m call \<equiv> pred_state (\<lambda>m'. view m' = view m) call"

named_theorems keeping

lemma keeps_return [keeping]: "view m' = view m \<Longrightarrow> keeps view m (State_Monad.return m')"
  by (auto intro!: pred_stateI)

lemma keeps_bind [keeping]:
  assumes "keeps view m a" "\<And>m'. view m' = view m \<Longrightarrow> keeps view m' (b m')"
  shows "keeps view m (a \<bind> b)"
proof (intro bind_predI pred_stateI)
  fix x s s' y t t'
  assume "run_state a s = (x, s')" "run_state (b x) t = (y, t')"
  then show "view y = view m" using pred_stateD [OF assms(1)] pred_stateD [OF assms(2)] by metis
qed

lemma keeps_overlay [keeping]:
  "(\<And>v. view (upd v m) = view m) \<Longrightarrow> keeps view m (overlay call upd m)"
  by (auto simp: overlay_def intro!: pred_stateI split: prod.splits sum.splits)

lemma keeps_nvlinks [keeping]:
  "(\<And>t r. view (m\<lparr>NVLinkTxMBps := t, NVLinkRxMBps := r\<rparr>) = view m) \<Longrightarrow> keeps view m (read_nvlinks nv d m)"
  by (auto simp: read_nvlinks_def intro!: pred_stateI split: prod.splits)

lemma read_chip_keeps [keeping]: "keeps identity_of m (read_chip nv d m)"
  unfolding read_chip_def by (rule keeping | simp add: identity_of_def)+

lemma read_utilization_keeps [keeping]:
  "keeps identity_of m (read_utilization nv d m)" "keeps chip_of m (read_utilization nv d m)"
  unfolding read_utilization_def by (rule keeping; auto simp: identity_of_def chip_of_def)+

lemma read_memory_keeps [keeping]:
  "keeps identity_of m (read_memory nv d m)" "keeps chip_of m (read_memory nv d m)"
  unfolding read_memory_def by (rule keeping; auto simp: identity_of_def chip_of_def)+

lemma read_device_keeps: "keeps identity_of (zero_metrics\<lparr>Index := i\<rparr>) (read_device nv i d)"
  unfolding read_device_def by (rule keeping | simp add: identity_of_def)+

lemma collectDevice_identity:
  assumes "run_state (collectDevice nv i) w = (Inr m, w')"
  shows "identity_of m = (i, False, 0)"
proof -
  obtain d w1 where "run_state (read_device nv i d) w1 = (m, w')"
    using assms by (auto simp: collectDevice_def split: sum.splits prod.splits)
  then show ?thesis
    using pred_stateD [OF read_device_keeps] by (simp add: identity_of_def zero_metrics_def)
qed

lemma collectMIGDevice_keeps:
  "keeps identity_of (mig_base p idx physical) (collectMIGDevice nv d p idx physical)"
  "keeps chip_of (mig_base p idx physical) (collectMIGDevice nv d p idx physical)"
  unfolding collectMIGDevice_def by (rule keeping | simp add: identity_of_def chip_of_def)+

lemma mig_base_views [simp]:
  "identity_of (mig_base p idx physical) = (idx, True, p)"
  "chip_of (mig_base p idx physical) = chip_of physical"
  by (simp_all add: identity_of_def chip_of_def mig_base_def)

text \<open>
  Readings that are the answers the library gave, each at some moment, to the calls on a handle; 0
  where it refused.  The chip-level ones, and those of the device or instance itself.
\<close>

definition chip_answers :: "('w, 'd) nvml \<Rightarrow> 'd \<Rightarrow> u32 \<times> u32 \<times> u32 \<times> u32 \<times> u32 \<times> u64 \<times> u64 \<Rightarrow> bool" where
  "chip_answers nv d x \<longleftrightarrow> (\<exists>wt wp wl wtx wrx wn.
     let links = (\<lambda>part. \<Sum>l\<leftarrow>[0..<18]. part (reading (GetNvLinkUtilizationCounter nv d l) (wn l) (0, 0)))
     in x = (reading (GetTemperature nv d) wt 0, reading (GetPowerUsage nv d) wp 0 div 1000,
       reading (GetPowerManagementLimit nv d) wl 0 div 1000,
       reading (GetPcieThroughputTx nv d) wtx 0, reading (GetPcieThroughputRx nv d) wrx 0,
       links fst div 1024, links snd div 1024))"

definition own_readings :: "metrics \<Rightarrow> (u32 \<times> u32) \<times> u64 \<times> u64" where
  "own_readings m = ((GPUUtilization m, MemoryUtilization m), MemoryUsedMiB m, MemoryTotalMiB m)"

definition own_answers :: "('w, 'd) nvml \<Rightarrow> 'd \<Rightarrow> (u32 \<times> u32) \<times> u64 \<times> u64 \<Rightarrow> bool" where
  "own_answers nv d x \<longleftrightarrow> (\<exists>wu wm. let mem = reading (GetMemoryInfo nv d) wm (0, 0)
     in x = (reading (GetUtilizationRates nv d) wu (0, 0), fst mem div 1048576, snd mem div 1048576))"

definition device_answers :: "('w, 'd) nvml \<Rightarrow> 'd \<Rightarrow> metrics \<Rightarrow> bool" where
  "device_answers nv d m \<longleftrightarrow> chip_answers nv d (chip_of m) \<and> own_answers nv d (own_readings m)"

lemma overlay_says:
  "upd dflt m = m \<Longrightarrow> \<exists>w'. run_state (overlay call upd m) w = (upd (reading call w dflt) m, w')"
  by (auto simp: overlay_def reading_def case_prod_beta split: sum.split)

lemma nvlinks_say:
  "distinct ls \<Longrightarrow> \<exists>wn w'. run_state (sum_nvlinks nv d ls acc) w =
     ((fst acc + (\<Sum>l\<leftarrow>ls. fst (reading (GetNvLinkUtilizationCounter nv d l) (wn l) (0, 0))),
       snd acc + (\<Sum>l\<leftarrow>ls. snd (reading (GetNvLinkUtilizationCounter nv d l) (wn l) (0, 0)))), w')"
proof (induction ls arbitrary: acc w)
  case (Cons l ls)
  let ?r = "\<lambda>w. reading (GetNvLinkUtilizationCounter nv d l) w (0, 0)"
  obtain r w1 where r: "run_state (GetNvLinkUtilizationCounter nv d l) w = (r, w1)" by fastforce
  then have step: "run_state (sum_nvlinks nv d (l # ls) acc) w =
      run_state (sum_nvlinks nv d ls (fst acc + fst (?r w), snd acc + snd (?r w))) w1"
    by (auto simp: reading_def split: sum.split prod.split)
  have "distinct ls" using Cons.prems by simp
  from Cons.IH [OF this, of "(fst acc + fst (?r w), snd acc + snd (?r w))" w1] obtain wn w' where
    n: "run_state (sum_nvlinks nv d (l # ls) acc) w =
     ((fst acc + fst (?r w) + (\<Sum>x\<leftarrow>ls. fst (reading (GetNvLinkUtilizationCounter nv d x) (wn x) (0, 0))),
       snd acc + snd (?r w) + (\<Sum>x\<leftarrow>ls. snd (reading (GetNvLinkUtilizationCounter nv d x) (wn x) (0, 0)))), w')"
    using step by auto
  have "x \<in> set ls \<Longrightarrow> (wn(l := w)) x = wn x" for x using Cons.prems by auto
  then have "(\<Sum>x\<leftarrow>ls. part (reading (GetNvLinkUtilizationCounter nv d x) ((wn(l := w)) x) (0, 0))) =
      (\<Sum>x\<leftarrow>ls. part (reading (GetNvLinkUtilizationCounter nv d x) (wn x) (0, 0)))" for part :: "u64 \<times> u64 \<Rightarrow> u64"
    by (metis (mono_tags, lifting) map_eq_conv)
  then show ?case using n by (intro exI [of _ "wn(l := w)"] exI [of _ w']) (simp add: add.assoc fun_upd_same del: fun_upd_apply sum_nvlinks.simps)
qed simp

lemma chip_says:
  assumes "chip_of m0 = chip_of zero_metrics"
  shows "chip_answers nv d (chip_of (fst (run_state (read_chip nv d m0) w)))"
proof -
  have z: "TemperatureCelsius m0 = 0" "PowerDrawWatts m0 = 0" "PowerLimitWatts m0 = 0" "PCIeTxKBps m0 = 0" "PCIeRxKBps m0 = 0"
    using assms by (simp_all add: chip_of_def zero_metrics_def)
  obtain w1 where 1: "run_state (overlay (GetTemperature nv d) (\<lambda>t m. m\<lparr>TemperatureCelsius := t\<rparr>) m0) w =
      (m0\<lparr>TemperatureCelsius := reading (GetTemperature nv d) w 0\<rparr>, w1)" (is "_ = (?m1, _)")
    using overlay_says [of "\<lambda>t m. m\<lparr>TemperatureCelsius := t\<rparr>" 0 m0] z by (cases m0) fastforce
  obtain w2 where 2: "run_state (overlay (GetPowerUsage nv d) (\<lambda>p m. m\<lparr>PowerDrawWatts := p div 1000\<rparr>) ?m1) w1 =
      (?m1\<lparr>PowerDrawWatts := reading (GetPowerUsage nv d) w1 0 div 1000\<rparr>, w2)" (is "_ = (?m2, _)")
    using overlay_says [of "\<lambda>p m. m\<lparr>PowerDrawWatts := p div 1000\<rparr>" 0 ?m1] z by (cases m0) fastforce
  obtain w3 where 3: "run_state (overlay (GetPowerManagementLimit nv d) (\<lambda>p m. m\<lparr>PowerLimitWatts := p div 1000\<rparr>) ?m2) w2 =
      (?m2\<lparr>PowerLimitWatts := reading (GetPowerManagementLimit nv d) w2 0 div 1000\<rparr>, w3)" (is "_ = (?m3, _)")
    using overlay_says [of "\<lambda>p m. m\<lparr>PowerLimitWatts := p div 1000\<rparr>" 0 ?m2] z by (cases m0) fastforce
  obtain w4 where 4: "run_state (overlay (GetPcieThroughputTx nv d) (\<lambda>t m. m\<lparr>PCIeTxKBps := t\<rparr>) ?m3) w3 =
      (?m3\<lparr>PCIeTxKBps := reading (GetPcieThroughputTx nv d) w3 0\<rparr>, w4)" (is "_ = (?m4, _)")
    using overlay_says [of "\<lambda>t m. m\<lparr>PCIeTxKBps := t\<rparr>" 0 ?m3] z by (cases m0) fastforce
  obtain w5 where 5: "run_state (overlay (GetPcieThroughputRx nv d) (\<lambda>t m. m\<lparr>PCIeRxKBps := t\<rparr>) ?m4) w4 =
      (?m4\<lparr>PCIeRxKBps := reading (GetPcieThroughputRx nv d) w4 0\<rparr>, w5)"
    using overlay_says [of "\<lambda>t m. m\<lparr>PCIeRxKBps := t\<rparr>" 0 ?m4] z by (cases m0) fastforce
  obtain wn w6 where 6: "run_state (sum_nvlinks nv d [0..<max_nvlinks] (0, 0)) w5 =
     (((\<Sum>l\<leftarrow>[0..<18]. fst (reading (GetNvLinkUtilizationCounter nv d l) (wn l) (0, 0))),
       (\<Sum>l\<leftarrow>[0..<18]. snd (reading (GetNvLinkUtilizationCounter nv d l) (wn l) (0, 0)))), w6)"
    using nvlinks_say [of "[0..<max_nvlinks]" nv d "(0, 0)" w5] by (auto simp: max_nvlinks_def simp del: upt_Suc)
  show ?thesis unfolding chip_answers_def Let_def
    by (rule exI [of _ w], rule exI [of _ w1], rule exI [of _ w2], rule exI [of _ w3], rule exI [of _ w4], rule exI [of _ wn])
      (simp add: read_chip_def read_nvlinks_def 1 2 3 4 5 6 chip_of_def del: upt_Suc)
qed

lemma read_chip_own: "keeps own_readings m (read_chip nv d m)"
  unfolding read_chip_def by (rule keeping | simp add: own_readings_def)+

text \<open>Utilization and memory, read in turn.\<close>

lemma own_says:
  assumes "own_readings m0 = own_readings zero_metrics"
    and "run_state (do { m \<leftarrow> read_utilization nv d m0; read_memory nv d m }) w = (m, w')"
  shows "own_answers nv d (own_readings m)"
proof -
  let ?u = "reading (GetUtilizationRates nv d) w (0, 0)"
  have z: "GPUUtilization m0 = 0" "MemoryUtilization m0 = 0" "MemoryUsedMiB m0 = 0" "MemoryTotalMiB m0 = 0"
    using assms(1) by (simp_all add: own_readings_def zero_metrics_def)
  obtain w1 where 1: "run_state (read_utilization nv d m0) w = (m0\<lparr>GPUUtilization := fst ?u, MemoryUtilization := snd ?u\<rparr>, w1)"
    (is "_ = (?m1, _)")
    using overlay_says [of "\<lambda>(g, mem) m. m\<lparr>GPUUtilization := g, MemoryUtilization := mem\<rparr>" "(0, 0)" m0] z
    by (cases m0) (fastforce simp: read_utilization_def case_prod_beta)
  let ?b = "reading (GetMemoryInfo nv d) w1 (0, 0)"
  obtain w2 where 2: "run_state (read_memory nv d ?m1) w1 =
      (?m1\<lparr>MemoryUsedMiB := fst ?b div bytes_per_mib, MemoryTotalMiB := snd ?b div bytes_per_mib\<rparr>, w2)"
    using overlay_says [of "\<lambda>(used, total) m. m\<lparr>MemoryUsedMiB := used div bytes_per_mib, MemoryTotalMiB := total div bytes_per_mib\<rparr>"
        "(0, 0)" ?m1] z
    by (cases m0) (fastforce simp: read_memory_def case_prod_beta)
  have "own_readings m = (?u, fst ?b div 1048576, snd ?b div 1048576)"
    using assms(2) 1 2 by (auto simp: own_readings_def bytes_per_mib_def)
  then show ?thesis unfolding own_answers_def Let_def by blast
qed

lemma read_device_says: "run_state (read_device nv i d) w = (m, w') \<Longrightarrow> device_answers nv d m"
proof -
  assume m: "run_state (read_device nv i d) w = (m, w')"
  obtain m1 w1 where 1: "run_state (overlay (GetUUID nv d) (\<lambda>u m. m\<lparr>UUID := u\<rparr>) (zero_metrics\<lparr>Index := i\<rparr>)) w = (m1, w1)" by fastforce
  obtain m2 w2 where 2: "run_state (overlay (GetName nv d) (\<lambda>n m. m\<lparr>Name_gpu := n\<rparr>) m1) w1 = (m2, w2)" by fastforce
  obtain m3 w3 where 3: "run_state (read_utilization nv d m2) w2 = (m3, w3)" by fastforce
  obtain m4 w4 where 4: "run_state (read_memory nv d m3) w3 = (m4, w4)" by fastforce
  have 5: "run_state (read_chip nv d m4) w4 = (m, w')" using m 1 2 3 4 by (simp add: read_device_def)
  have view: "view m2 = view zero_metrics"
    if "\<And>x m. view (m\<lparr>UUID := x\<rparr>) = view m" "\<And>x m. view (m\<lparr>Name_gpu := x\<rparr>) = view m" "\<And>x m. view (m\<lparr>Index := x\<rparr>) = view m"
    for view :: "metrics \<Rightarrow> 'v"
    using pred_stateD [OF keeps_overlay [of view "\<lambda>u m. m\<lparr>UUID := u\<rparr>"] 1] pred_stateD [OF keeps_overlay [of view "\<lambda>n m. m\<lparr>Name_gpu := n\<rparr>"] 2] that
    by simp
  have "chip_of m2 = chip_of zero_metrics" "own_readings m2 = own_readings zero_metrics"
    by (rule view; simp add: chip_of_def own_readings_def)+
  then have "chip_of m4 = chip_of zero_metrics" "own_answers nv d (own_readings m4)"
    using pred_stateD [OF read_utilization_keeps(2) 3] pred_stateD [OF read_memory_keeps(2) 4] own_says [of m2 nv d w2 m4 w4] 3 4
    by simp_all
  then show ?thesis
    using chip_says [of m4 nv d w4] pred_stateD [OF read_chip_own 5] 5 by (simp add: device_answers_def)
qed

lemma collectDevice_says:
  "run_state (collectDevice nv i) w = (Inr m, w') \<Longrightarrow>
     \<exists>d. fst (run_state (DeviceGetHandleByIndex nv i) w) = Inr d \<and> device_answers nv d m"
  by (auto simp: collectDevice_def split: sum.splits prod.splits dest: read_device_says)

lemma collectMIGDevice_says:
  assumes "run_state (collectMIGDevice nv d p k physical) w = (m, w')"
  shows "own_answers nv d (own_readings m)"
proof -
  obtain m1 w1 where 1: "run_state (overlay (GetUUID nv d) (\<lambda>u m. m\<lparr>UUID := u\<rparr>) (mig_base p k physical)) w = (m1, w1)" by fastforce
  obtain m2 w2 where 2: "run_state (overlay (GetName nv d) (\<lambda>n m. m\<lparr>Name_gpu := n, MigProfile := parseMIGProfile n\<rparr>) m1) w1 = (m2, w2)"
    by fastforce
  have "own_readings m2 = own_readings zero_metrics"
    using pred_stateD [OF keeps_overlay [of own_readings "\<lambda>u m. m\<lparr>UUID := u\<rparr>"] 1]
      pred_stateD [OF keeps_overlay [of own_readings "\<lambda>n m. m\<lparr>Name_gpu := n, MigProfile := parseMIGProfile n\<rparr>"] 2]
    by (simp add: own_readings_def mig_base_def)
  then show ?thesis using assms 1 2 own_says [of m2 nv d w2 m w'] by (simp add: collectMIGDevice_def)
qed

text \<open>
  The instances of one GPU: numbered in order, of that GPU, alike in what the chip shares, and each
  with the answers for the handle of its own index.
\<close>

definition own_share :: "('w, 'd) nvml \<Rightarrow> 'd \<Rightarrow> nat \<Rightarrow> metrics \<Rightarrow> bool" where
  "own_share nv d k m \<longleftrightarrow> (\<exists>h w. fst (run_state (GetMigDeviceHandleByIndex nv d k) w) = Inr h \<and> own_answers nv h (own_readings m))"

lemma mig_instances_spec:
  assumes "mig_instances nv d p physical idx w = Some (ms, w')"
  shows "map identity_of ms = map (\<lambda>k. (int k, True, p)) [idx..<idx + length ms] \<and>
    (\<forall>m \<in> set ms. chip_of m = chip_of physical) \<and> list_all2 (own_share nv d) [idx..<idx + length ms] ms"
  using assms
proof (induction ms arbitrary: idx w)
  case (Cons m ms)
  obtain r w1 where r: "run_state (GetMigDeviceHandleByIndex nv d idx) w = (r, w1)" by fastforce
  obtain mig w2 where step: "r = Inr mig" "run_state (collectMIGDevice nv mig p (int idx) physical) w1 = (m, w2)"
    and rest: "mig_instances nv d p physical (Suc idx) w2 = Some (ms, w')"
    using Cons.prems r by (subst (asm) mig_instances.simps)
      (auto split: prod.splits sum.splits simp: bind_eq_Some_conv)
  have "identity_of m = (int idx, True, p)" "chip_of m = chip_of physical"
    using pred_stateD [OF collectMIGDevice_keeps(1) step(2)] pred_stateD [OF collectMIGDevice_keeps(2) step(2)] by simp_all
  moreover have "own_share nv d idx m" using collectMIGDevice_says [OF step(2)] r step(1) by (auto simp: own_share_def) (metis fst_conv)
  ultimately show ?case using Cons.IH [OF rest] by (simp del: upt_Suc add: upt_conv_Cons)
qed simp

text \<open>What a GPU contributes: nothing, its own snapshot, or those of its instances.\<close>

definition gpu_block :: "('w, 'd) nvml \<Rightarrow> int \<Rightarrow> metrics list \<Rightarrow> bool" where
  "gpu_block nv i ms \<longleftrightarrow> ms = [] \<or>
     (\<exists>d w. fst (run_state (DeviceGetHandleByIndex nv i) w) = Inr d \<and>
       ((\<exists>m. ms = [m] \<and> identity_of m = (i, False, 0) \<and> device_answers nv d m) \<or>
        (map identity_of ms = map (\<lambda>k. (int k, True, i)) [0..<length ms] \<and>
         (\<exists>x. chip_answers nv d x \<and> (\<forall>m \<in> set ms. chip_of m = x)) \<and>
         list_all2 (own_share nv d) [0..<length ms] ms)))"

lemma collect_gpu_block:
  assumes "run_state (collect_gpu nv i) w = (Some ms, w')"
  shows "gpu_block nv (int i) ms"
proof -
  obtain r w0 where r: "run_state (DeviceGetHandleByIndex nv (int i)) w = (r, w0)" by fastforce
  from assms r consider "ms = []"
    | d w1 where "r = Inr d" "run_state (collectMIGInstances nv d (int i)) w1 = (Some ms, w')"
    | m w1 where "ms = [m]" "run_state (collectDevice nv (int i)) w1 = (Inr m, w')"
    by (auto simp: collect_gpu_def split: prod.splits sum.splits if_splits)
  then show ?thesis
  proof cases
    case 2
    then obtain physical w2 where p: "run_state (collectPhysicalForMIG nv d (int i)) w1 = (physical, w2)"
      "map identity_of ms = map (\<lambda>k. (int k, True, int i)) [0..<length ms]" "\<forall>m \<in> set ms. chip_of m = chip_of physical"
      "list_all2 (own_share nv d) [0..<length ms] ms"
      using mig_instances_spec by (fastforce simp: collectMIGInstances_def split: prod.splits option.splits)
    have "chip_answers nv d (chip_of physical)"
      using chip_says [of "zero_metrics\<lparr>Index := int i\<rparr>" nv d w1] p(1) by (simp add: collectPhysicalForMIG_def chip_of_def)
    moreover have "fst (run_state (DeviceGetHandleByIndex nv (int i)) w) = Inr d" using r 2(1) by simp
    ultimately show ?thesis unfolding gpu_block_def using p(2-4) by blast
  next
    case 3
    obtain d where "fst (run_state (DeviceGetHandleByIndex nv (int i)) w1) = Inr d" "device_answers nv d m"
      using collectDevice_says [OF 3(2)] by blast
    then show ?thesis using collectDevice_identity [OF 3(2)] 3(1) by (auto simp: gpu_block_def)
  qed (simp add: gpu_block_def)
qed

lemma collect_gpus_blocks:
  assumes "run_state (collect_gpus nv is0) w = (Some ms, w')"
  shows "\<exists>blocks. ms = concat blocks \<and> list_all2 (\<lambda>i. gpu_block nv (int i)) is0 blocks"
  using assms
proof (induction is0 arbitrary: ms w)
  case (Cons i rest)
  obtain xs w1 ys where b: "run_state (collect_gpu nv i) w = (Some xs, w1)"
    "run_state (collect_gpus nv rest) w1 = (Some ys, w')" "ms = xs @ ys"
    using Cons.prems by (auto split: prod.splits option.splits)
  obtain blocks where "ys = concat blocks" "list_all2 (\<lambda>i. gpu_block nv (int i)) rest blocks"
    using Cons.IH [OF b(2)] by blast
  then show ?case using b(3) collect_gpu_block [OF b(1)] by (intro exI [of _ "xs # blocks"]) simp
qed simp

text \<open>\<open>CollectAll\<close> fails only when the devices cannot be counted.\<close>

definition refuses_from :: "('w, 'd) nvml \<Rightarrow> nat \<Rightarrow> bool" where
  "refuses_from nv n \<longleftrightarrow> (\<forall>d idx w. n \<le> idx \<longrightarrow> \<not> is_ok (fst (run_state (GetMigDeviceHandleByIndex nv d idx) w)))"

lemma mig_instances_ends:
  assumes "refuses_from nv n"
  shows "\<exists>r. mig_instances nv d p physical idx w = Some r"
proof (induction "n - idx" arbitrary: idx w rule: less_induct)
  case less
  obtain r w1 where r: "run_state (GetMigDeviceHandleByIndex nv d idx) w = (r, w1)" by fastforce
  show ?case
  proof (cases r)
    case (Inr mig)
    then have "idx < n" using assms r unfolding refuses_from_def
      by (metis fst_conv is_ok_simps(2) not_le)
    then have "n - Suc idx < n - idx" by simp
    note IH = less [OF this]
    obtain m w2 where m: "run_state (collectMIGDevice nv mig p (int idx) physical) w1 = (m, w2)" by fastforce
    obtain ms w3 where "mig_instances nv d p physical (Suc idx) w2 = Some (ms, w3)" using IH [of w2] by auto
    then show ?thesis using r m Inr by (subst mig_instances.simps) simp
  qed (use r in \<open>subst mig_instances.simps, simp\<close>)
qed

lemma collect_gpu_ends:
  assumes "refuses_from nv n"
  shows "\<exists>ms. fst (run_state (collect_gpu nv i) w) = Some ms"
proof -
  have "fst (run_state (collectMIGInstances nv d p) w) \<noteq> None" for d p w
    using mig_instances_ends [OF assms, of d p _ 0]
    by (auto simp: collectMIGInstances_def split: prod.splits option.splits) (metis option.distinct(1))
  then show ?thesis
    by (fastforce simp: collect_gpu_def split: prod.splits sum.splits)
qed

lemma collect_gpus_end:
  assumes "refuses_from nv n"
  shows "\<exists>ms. fst (run_state (collect_gpus nv is0) w) = Some ms"
proof (induction is0 arbitrary: w)
  case (Cons i rest)
  obtain ms w1 where "run_state (collect_gpu nv i) w = (Some ms, w1)"
    using collect_gpu_ends [OF assms, of i w] by (metis prod.collapse)
  then show ?case using Cons [of w1] by (auto split: prod.splits)
qed simp

lemma CollectAll_ends:
  assumes "refuses_from nv n"
  shows "fst (run_state (nvml_CollectAll nv) w) \<noteq> Inl CollectionHangs"
proof -
  obtain r w1 where r: "run_state (DeviceGetCount nv) w = (r, w1)" by fastforce
  obtain ms w2 where "run_state (collect_gpus nv [0..<nat (ok_of r)]) w1 = (Some ms, w2)"
    using collect_gpus_end [OF assms] by (metis prod.collapse)
  then show ?thesis using r by (cases r) (simp_all add: nvml_CollectAll_def nvml_DeviceCount_def)
qed

lemma mig_instances_endless:
  assumes "\<And>idx w. is_ok (fst (run_state (GetMigDeviceHandleByIndex nv d idx) w))"
  shows "mig_instances nv d p physical idx w = None"
proof -
  have "mig_instances nv d p physical idx w = Some r \<Longrightarrow> False" for r
  proof (induction "fst r" arbitrary: idx w r)
    case Nil
    then show ?case
      using assms [of idx w]
      by (subst (asm) mig_instances.simps) (auto split: prod.splits sum.splits simp: bind_eq_Some_conv)
  next
    case (Cons m ms)
    then show ?case
      using assms [of idx w]
      by (subst (asm) mig_instances.simps) (fastforce split: prod.splits sum.splits simp: bind_eq_Some_conv)
  qed
  then show ?thesis by (cases "mig_instances nv d p physical idx w") auto
qed

section \<open>The collector keeps the contract of the interface\<close>

lemma nvml_ops_simps [simp]:
  "CollectAll (nvml_ops nv) = on_world (nvml_CollectAll nv)"
  "CollectDevice (nvml_ops nv) i = on_world (nvml_CollectDevice nv i)"
  "CollectByUUID (nvml_ops nv) u = on_world (nvml_CollectByUUID nv u)"
  "DeviceCount (nvml_ops nv) = on_world (nvml_DeviceCount nv)"
  "DriverVersion (nvml_ops nv) = driverVersion"
  "Close (nvml_ops nv) = on_world (nvml_Close nv)"
  by (simp_all add: nvml_ops_def)

lemma driverVersion_on_world [simp]: "driverVersion (snd (on_world call c)) = driverVersion c"
  by (simp add: on_world_def split: prod.split)

lemma nvml_CollectDevice_index:
  assumes "run_state (nvml_CollectDevice nv i) w = (Inr m, w')"
  shows "identity_of m = (i, False, 0)"
  using assms by (auto simp: nvml_CollectDevice_def split: prod.splits dest!: collectDevice_identity)

interpretation nvml: collector "nvml_ops nv" "\<lambda>_. True"
  by unfold_locales
    (auto simp: on_world_def identity_of_def split: prod.splits dest!: nvml_CollectDevice_index)

section \<open>A library whose answers do not change\<close>

text \<open>Where the library is quiet, every call of it leaves it as it is.\<close>

definition quiet :: "('w, 'd) nvml \<Rightarrow> 'w \<Rightarrow> bool" where
  "quiet nv w \<longleftrightarrow>
     snd (run_state (DeviceGetCount nv) w) = w \<and>
     (\<forall>i. snd (run_state (DeviceGetHandleByIndex nv i) w) = w) \<and>
     (\<forall>u. snd (run_state (DeviceGetHandleByUUID nv u) w) = w) \<and>
     (\<forall>d. snd (run_state (DeviceGetDeviceHandleFromMigDeviceHandle nv d) w) = w \<and>
        (\<forall>k. snd (run_state (GetMigDeviceHandleByIndex nv d k) w) = w) \<and>
        snd (run_state (GetMigMode nv d) w) = w \<and> snd (run_state (GetIndex nv d) w) = w \<and>
        snd (run_state (GetUUID nv d) w) = w \<and> snd (run_state (GetName nv d) w) = w \<and>
        snd (run_state (GetUtilizationRates nv d) w) = w \<and> snd (run_state (GetMemoryInfo nv d) w) = w \<and>
        snd (run_state (GetTemperature nv d) w) = w \<and> snd (run_state (GetPowerUsage nv d) w) = w \<and>
        snd (run_state (GetPowerManagementLimit nv d) w) = w \<and>
        snd (run_state (GetPcieThroughputTx nv d) w) = w \<and> snd (run_state (GetPcieThroughputRx nv d) w) = w \<and>
        (\<forall>l. snd (run_state (GetNvLinkUtilizationCounter nv d l) w) = w))"

named_theorems stays

lemma stays_bind [stays]:
  "snd (run_state a w) = w \<Longrightarrow> (\<And>x. snd (run_state (b x) w) = w) \<Longrightarrow> snd (run_state (a \<bind> b) w) = w"
  by (metis case_prod_beta run_state_bind)

lemma stays_return [stays]: "snd (run_state (State_Monad.return x) w) = w"
  by simp

lemma stays_overlay [stays]: "snd (run_state call w) = w \<Longrightarrow> snd (run_state (overlay call upd m) w) = w"
  by (simp add: overlay_def case_prod_beta)

lemma stays_nvlinks [stays]:
  "quiet nv w \<Longrightarrow> snd (run_state (sum_nvlinks nv d ls acc) w) = w"
  by (induction ls arbitrary: acc) (simp_all add: quiet_def case_prod_beta)

lemma stays_read_chip [stays]: "quiet nv w \<Longrightarrow> snd (run_state (read_chip nv d m) w) = w"
  unfolding read_chip_def read_nvlinks_def
  by (intro stays) (auto simp: quiet_def stays split: prod.split)

lemma stays_read_device [stays]: "quiet nv w \<Longrightarrow> snd (run_state (read_device nv i d) w) = w"
  unfolding read_device_def read_utilization_def read_memory_def
  by (intro stays) (auto simp: quiet_def)

lemma stays_collectDevice [stays]: "quiet nv w \<Longrightarrow> snd (run_state (collectDevice nv i) w) = w"
  unfolding collectDevice_def by (intro stays) (auto simp: quiet_def case_prod_beta stays split: sum.split)

lemma stays_isMIGEnabled [stays]: "quiet nv w \<Longrightarrow> snd (run_state (isMIGEnabled nv d) w) = w"
  unfolding isMIGEnabled_def by (intro stays) (simp add: quiet_def)

lemma run_quiet: "snd (run_state a w) = w \<Longrightarrow> run_state a w = (fst (run_state a w), w)"
  by (metis prod.collapse)

text \<open>One GPU, read by \<open>CollectAll\<close> or by its index.\<close>

definition no_mig :: "('w, 'd) nvml \<Rightarrow> 'w \<Rightarrow> bool" where
  "no_mig nv w \<longleftrightarrow> (\<forall>d. \<not> fst (run_state (isMIGEnabled nv d) w))"

definition device_list :: "('e, 'a) result \<Rightarrow> 'a list" where
  "device_list r = (case r of Inl _ \<Rightarrow> [] | Inr m \<Rightarrow> [m])"

lemma CollectDevice_quiet:
  assumes "quiet nv w"
  shows "run_state (nvml_CollectDevice nv i) w = (fst (run_state (collectDevice nv i) w), w)"
proof -
  obtain h where h: "run_state (DeviceGetHandleByIndex nv i) w = (h, w)"
    using assms by (metis quiet_def prod.collapse)
  obtain c where c: "run_state (collectDevice nv i) w = (c, w)"
    using run_quiet [OF stays_collectDevice [OF assms]] by blast
  show ?thesis
  proof (cases h)
    case (Inr d)
    obtain b where "run_state (isMIGEnabled nv d) w = (b, w)"
      using run_quiet [OF stays_isMIGEnabled [OF assms]] by blast
    then show ?thesis by (simp add: nvml_CollectDevice_def h c Inr)
  qed (simp add: nvml_CollectDevice_def h c)
qed

lemma collect_gpu_quiet:
  assumes "quiet nv w" "no_mig nv w"
  shows "run_state (collect_gpu nv i) w =
    (Some (device_list (fst (run_state (nvml_CollectDevice nv (int i)) w))), w)"
proof (cases "fst (run_state (DeviceGetHandleByIndex nv (int i)) w)")
  case (Inl e)
  then have "run_state (DeviceGetHandleByIndex nv (int i)) w = (Inl e, w)"
    using assms(1) by (metis quiet_def prod.collapse)
  then show ?thesis
    by (simp add: collect_gpu_def CollectDevice_quiet [OF assms(1)] collectDevice_def device_list_def)
next
  case (Inr d)
  then have h: "run_state (DeviceGetHandleByIndex nv (int i)) w = (Inr d, w)"
    using assms(1) by (metis quiet_def prod.collapse)
  have "run_state (isMIGEnabled nv d) w = (False, w)"
    using run_quiet [OF stays_isMIGEnabled [OF assms(1), of d]] assms(2) by (simp add: no_mig_def)
  moreover obtain c where "run_state (collectDevice nv (int i)) w = (c, w)"
    using run_quiet [OF stays_collectDevice [OF assms(1)]] by blast
  ultimately show ?thesis
    by (simp add: collect_gpu_def h CollectDevice_quiet [OF assms(1)] device_list_def)
qed

lemma collect_gpus_quiet:
  assumes "quiet nv w" "no_mig nv w"
  shows "run_state (collect_gpus nv is0) w =
    (Some (concat (map (\<lambda>i. device_list (fst (run_state (nvml_CollectDevice nv (int i)) w))) is0)), w)"
  by (induction is0) (simp_all add: collect_gpu_quiet [OF assms])

text \<open>The counters of the links are added up.\<close>

definition link_counters :: "('w, 'd) nvml \<Rightarrow> 'd \<Rightarrow> 'w \<Rightarrow> nat \<Rightarrow> u64 \<times> u64" where
  "link_counters nv d w l = (case fst (run_state (GetNvLinkUtilizationCounter nv d l) w) of Inl _ \<Rightarrow> (0, 0) | Inr c \<Rightarrow> c)"

lemma sum_nvlinks_quiet:
  assumes "\<And>l. snd (run_state (GetNvLinkUtilizationCounter nv d l) w) = w"
  shows "run_state (sum_nvlinks nv d ls acc) w =
    ((fst acc + sum_list (map (fst \<circ> link_counters nv d w) ls),
      snd acc + sum_list (map (snd \<circ> link_counters nv d w) ls)), w)"
proof (induction ls arbitrary: acc)
  case (Cons l ls)
  obtain r where "run_state (GetNvLinkUtilizationCounter nv d l) w = (r, w)"
    using run_quiet [OF assms] by blast
  then show ?case
    by (cases r) (simp_all add: Cons link_counters_def add.assoc split: prod.split)
qed simp

lemma run_overlay: "run_state (overlay call upd m) w =
    (case run_state call w of (r, w') \<Rightarrow> (case r of Inl _ \<Rightarrow> m | Inr v \<Rightarrow> upd v m, w'))"
  by (simp add: overlay_def split: prod.split)

section \<open>A sample library\<close>

text \<open>
  A node with a plain GPU 0, a GPU 1 split into two MIG instances, and a third index without a
  handle.  Instance handles are numbered from 10.
\<close>

abbreviation answer :: "'v \<Rightarrow> (unit, (int, 'v) result) state" where
  "answer v \<equiv> State_Monad.return (Inr v)"

abbreviation refuse :: "(unit, (int, 'v) result) state" where
  "refuse \<equiv> State_Monad.return (Inl 6)"

definition demo_nvml :: "(unit, nat) nvml" where
  "demo_nvml = \<lparr>Init = answer (), Shutdown = answer (), SystemGetDriverVersion = answer ''550.54'',
     DeviceGetCount = answer 3,
     DeviceGetHandleByIndex = (\<lambda>i. if i = 0 \<or> i = 1 then answer (nat i) else refuse),
     DeviceGetHandleByUUID = (\<lambda>u. if u = ''GPU-0'' then answer 0 else if u = ''MIG-10'' then answer 10 else refuse),
     DeviceGetDeviceHandleFromMigDeviceHandle = (\<lambda>d. if 10 \<le> d then answer 1 else refuse),
     GetMigDeviceHandleByIndex = (\<lambda>d k. if d = 1 \<and> k < 2 then answer (10 + k) else refuse),
     GetMigMode = (\<lambda>d. if d = 1 then answer (1, 1) else refuse), DEVICE_MIG_ENABLE = 1,
     GetIndex = (\<lambda>d. answer (int d)), GetUUID = (\<lambda>d. if d = 0 then answer ''GPU-0'' else refuse),
     GetName = (\<lambda>d. if 10 \<le> d then answer ''MIG 3g.40gb'' else answer ''H100''),
     GetUtilizationRates = (\<lambda>d. answer (50, 40)), GetMemoryInfo = (\<lambda>d. answer (1048576, 4194304)),
     GetTemperature = (\<lambda>d. answer 60), GetPowerUsage = (\<lambda>d. answer 300500),
     GetPowerManagementLimit = (\<lambda>d. refuse), GetPcieThroughputTx = (\<lambda>d. answer 7),
     GetPcieThroughputRx = (\<lambda>d. refuse),
     GetNvLinkUtilizationCounter = (\<lambda>d l. if l < 4 then answer (1024, 512) else refuse)\<rparr>"

lemma demo_refuses: "refuses_from demo_nvml 2"
  by (simp add: refuses_from_def demo_nvml_def)

lemma demo_sel [simp]:
  "DeviceGetCount demo_nvml = answer 3"
  "DeviceGetHandleByIndex demo_nvml i = (if i = 0 \<or> i = 1 then answer (nat i) else refuse)"
  "GetMigDeviceHandleByIndex demo_nvml d k = (if d = 1 \<and> k < 2 then answer (10 + k) else refuse)"
  "GetMigMode demo_nvml d = (if d = 1 then answer (1, 1) else refuse)"
  "DEVICE_MIG_ENABLE demo_nvml = 1"
  "GetUUID demo_nvml d = (if d = 0 then answer ''GPU-0'' else refuse)"
  "GetName demo_nvml d = (if 10 \<le> d then answer ''MIG 3g.40gb'' else answer ''H100'')"
  "GetUtilizationRates demo_nvml d = answer (50, 40)"
  "GetMemoryInfo demo_nvml d = answer (1048576, 4194304)"
  "GetTemperature demo_nvml d = answer 60"
  "GetPowerUsage demo_nvml d = answer 300500"
  "GetPowerManagementLimit demo_nvml d = refuse"
  "GetPcieThroughputTx demo_nvml d = answer 7"
  "GetPcieThroughputRx demo_nvml d = refuse"
  "GetNvLinkUtilizationCounter demo_nvml d l = (if l < 4 then answer (1024, 512) else refuse)"
  by (simp_all add: demo_nvml_def)

lemma demo_nvlinks: "run_state (sum_nvlinks demo_nvml d [0..<max_nvlinks] (0, 0)) () = ((4096, 2048), ())"
proof -
  have "map (link_counters demo_nvml d ()) [0..<max_nvlinks] = replicate 4 (1024, 512) @ replicate 14 (0, 0)"
    by (rule nth_equalityI) (auto simp: max_nvlinks_def link_counters_def nth_append)
  then show ?thesis
    by (subst sum_nvlinks_quiet) (simp_all add: sum_list_replicate flip: map_map)
qed

lemma demo_chip:
  "run_state (read_chip demo_nvml d m) () =
    (m\<lparr>TemperatureCelsius := 60, PowerDrawWatts := 300, PCIeTxKBps := 7, NVLinkTxMBps := 4, NVLinkRxMBps := 2\<rparr>, ())"
  by (simp add: read_chip_def read_nvlinks_def demo_nvlinks run_overlay)

lemma demo_collectDevice:
  "run_state (collectDevice demo_nvml 0) () = (Inr (zero_metrics\<lparr>UUID := ''GPU-0'', Name_gpu := ''H100'',
     GPUUtilization := 50, MemoryUtilization := 40, MemoryUsedMiB := 1, MemoryTotalMiB := 4,
     TemperatureCelsius := 60, PowerDrawWatts := 300, PCIeTxKBps := 7, NVLinkTxMBps := 4, NVLinkRxMBps := 2\<rparr>), ())"
  by (simp add: collectDevice_def read_device_def run_overlay read_utilization_def read_memory_def demo_chip
      bytes_per_mib_def zero_metrics_def)

definition demo_instance :: "int \<Rightarrow> metrics" where
  "demo_instance k = zero_metrics\<lparr>Index := k, Name_gpu := ''MIG 3g.40gb'', GPUUtilization := 50, MemoryUtilization := 40,
     MemoryUsedMiB := 1, MemoryTotalMiB := 4, TemperatureCelsius := 60, PowerDrawWatts := 300, PCIeTxKBps := 7,
     NVLinkTxMBps := 4, NVLinkRxMBps := 2, IsMIGInstance := True, ParentIndex := 1, MigProfile := ''3g.40gb''\<rparr>"

lemma demo_instances: "run_state (collectMIGInstances demo_nvml 1 1) () = (Some [demo_instance 0, demo_instance 1], ())"
  by (simp add: collectMIGInstances_def collectPhysicalForMIG_def demo_chip mig_instances.simps collectMIGDevice_def
     run_overlay read_utilization_def read_memory_def bytes_per_mib_def mig_base_def zero_metrics_def
     parseMIGProfile_def has_prefix_def trim_prefix_def demo_instance_def)

lemma demo_all:
  "\<exists>m. run_state (nvml_CollectAll demo_nvml) () = (Inr [m, demo_instance 0, demo_instance 1], ())"
  using demo_instances 
  by (simp add: nvml_CollectAll_def nvml_DeviceCount_def collect_gpu_def isMIGEnabled_def demo_collectDevice upt_rec)

section \<open>Properties\<close>

text \<open>
  \<open>CollectAll\<close> lists the node GPU by GPU: its result is the concatenation of one block for each
  index below the device count, in the order of the indices, and each block is empty, or the one
  snapshot of that GPU, or the snapshots of its MIG instances, numbered from 0, with that GPU as
  their parent, with the library's answers for the handles of that GPU and of the instances.\<close>

theorem collect_all_blocks:
  assumes "run_state (nvml_CollectAll nv) w = (Inr ms, w')"
  shows "\<exists>count blocks. fst (run_state (DeviceGetCount nv) w) = Inr count \<and> ms = concat blocks \<and>
    length blocks = nat count \<and> (\<forall>i < nat count. gpu_block nv (int i) (blocks ! i))"
proof -
  obtain count w1 where "run_state (DeviceGetCount nv) w = (Inr count, w1)"
    "run_state (collect_gpus nv [0..<nat count]) w1 = (Some ms, w')"
    using assms by (auto simp: nvml_CollectAll_def nvml_DeviceCount_def map_err_def split: prod.splits sum.splits option.splits)
  then show ?thesis
    using collect_gpus_blocks by (fastforce simp: list_all2_conv_all_nth)
qed

lemma collect_all_blocks_witness:
  "\<exists>m. run_state (nvml_CollectAll demo_nvml) () = (Inr [m, demo_instance 0, demo_instance 1], ()) \<and>
     (\<exists>blocks. [m, demo_instance 0, demo_instance 1] = concat blocks \<and> length blocks = 3 \<and>
        (\<forall>i < 3. gpu_block demo_nvml (int i) (blocks ! i)))"
  using demo_all collect_all_blocks [of demo_nvml "()"] by fastforce

text \<open>C15
  \<open>CollectAll\<close> returns, and fails only with the device count.  If the driver refuses the handles of
  MIG instances from some index on, the loop over the instances ends on every GPU, and a GPU that
  cannot be read never fails the collection of the others.\<close>

theorem collect_all_returns:
  assumes "refuses_from nv n"
  shows "fst (run_state (nvml_CollectAll nv) w) \<noteq> Inl CollectionHangs \<and>
    (is_ok (fst (run_state (nvml_CollectAll nv) w)) \<longleftrightarrow> is_ok (fst (run_state (DeviceGetCount nv) w)))"
proof -
  obtain r w1 where r: "run_state (DeviceGetCount nv) w = (r, w1)" by fastforce
  obtain ms w2 where "run_state (collect_gpus nv [0..<nat (ok_of r)]) w1 = (Some ms, w2)"
    using collect_gpus_end [OF assms] by (metis prod.collapse)
  then show ?thesis
    using r by (cases r) (simp_all add: nvml_CollectAll_def nvml_DeviceCount_def)
qed

lemma collect_all_returns_witness:
  "is_ok (fst (run_state (nvml_CollectAll demo_nvml) ()))"
  using collect_all_returns [OF demo_refuses, of "()"] by simp

text \<open>
  Reading all GPUs and reading them one by one agree.  While the library's answers do not change
  and no GPU has MIG enabled, \<open>CollectAll\<close> returns the snapshots that \<open>CollectDevice\<close> returns for
  the indices below the device count, those that fail left out, in the order of the indices.\<close>

theorem collect_all_is_each_device:
  assumes "quiet nv w" "no_mig nv w" "fst (run_state (DeviceGetCount nv) w) = Inr count"
  shows "fst (run_state (nvml_CollectAll nv) w) =
    Inr (concat (map (\<lambda>i. device_list (fst (run_state (nvml_CollectDevice nv (int i)) w))) [0..<nat count]))"
proof -
  have "run_state (DeviceGetCount nv) w = (Inr count, w)"
    using assms(1,3) by (metis quiet_def prod.collapse)
  then show ?thesis
    by (simp add: nvml_CollectAll_def nvml_DeviceCount_def collect_gpus_quiet [OF assms(1,2)])
qed

lemma collect_all_is_each_device_witness:
  "fst (run_state (nvml_CollectAll (demo_nvml\<lparr>GetMigMode := \<lambda>d. refuse\<rparr>)) ()) =
     Inr (concat (map (\<lambda>i. device_list (fst (run_state (nvml_CollectDevice (demo_nvml\<lparr>GetMigMode := \<lambda>d. refuse\<rparr>) (int i)) ())))
       [0..<nat 3]))"
  by (rule collect_all_is_each_device) (simp_all add: quiet_def no_mig_def isMIGEnabled_def)

end
