(* ===== verification/Instrumented.thy ===== *)
theory Instrumented
  imports Scaler Nvml
begin

text \<open>
  The instrumented collector, \<open>pkg/metrics\<close>: a collector around another one that tells the
  Prometheus client library of every collection.  The library is outside: what it is told
  is a list of its calls, kept beside the state of the inner collector.
\<close>

section \<open>The metrics\<close>

datatype prom_call =
    CounterInc string
  | HistogramObserve string f64
  | GaugeSet string "string list" f64

definition prom_namespace :: string where "prom_namespace = ''keda_gpu_scaler''"

definition fq_name :: "string \<Rightarrow> string" where
  "fq_name n = prom_namespace @ ''_'' @ n"

definition CollectionsTotal :: string where "CollectionsTotal = fq_name ''collections_total''"
definition CollectionErrorsTotal :: string where "CollectionErrorsTotal = fq_name ''collection_errors_total''"
definition CollectionDuration :: string where "CollectionDuration = fq_name ''collection_duration_seconds''"
definition GPUUtilization_gauge :: string where "GPUUtilization_gauge = fq_name ''gpu_utilization_percent''"
definition GPUMemoryUsedBytes :: string where "GPUMemoryUsedBytes = fq_name ''gpu_memory_used_bytes''"
definition GPUMemoryTotalBytes :: string where "GPUMemoryTotalBytes = fq_name ''gpu_memory_total_bytes''"
definition GPUTemperature_gauge :: string where "GPUTemperature_gauge = fq_name ''gpu_temperature_celsius''"
definition GPUPowerDraw_gauge :: string where "GPUPowerDraw_gauge = fq_name ''gpu_power_draw_watts''"
definition PCIeThroughput :: string where "PCIeThroughput = fq_name ''gpu_pcie_throughput_kbps''"
definition NVLinkThroughput :: string where "NVLinkThroughput = fq_name ''gpu_nvlink_throughput_mbps''"
definition ScalerRequestsTotal :: string where "ScalerRequestsTotal = fq_name ''scaler_requests_total''"
definition ScalerRequestErrors :: string where "ScalerRequestErrors = fq_name ''scaler_request_errors_total''"

text \<open>What \<open>Register\<close> hands to the registry.\<close>

definition Register :: "string list" where
  "Register = [CollectionsTotal, CollectionErrorsTotal, CollectionDuration, GPUUtilization_gauge,
     GPUMemoryUsedBytes, GPUMemoryTotalBytes, GPUTemperature_gauge, GPUPowerDraw_gauge,
     PCIeThroughput, NVLinkThroughput, ScalerRequestsTotal, ScalerRequestErrors]"

definition mib_bytes :: "u64 \<Rightarrow> f64" where
  "mib_bytes x = f64_mul (f64_mul (u_float x) (f64_of_nat 1024)) (f64_of_nat 1024)"

definition gpu_labels :: "metrics \<Rightarrow> string list" where
  "gpu_labels m = [itoa (Index m), UUID m, Name_gpu m]"

definition recordGauges :: "metrics \<Rightarrow> prom_call list" where
  "recordGauges m = (let ls = gpu_labels m in
     [GaugeSet GPUUtilization_gauge ls (u_float (GPUUtilization m)),
      GaugeSet GPUMemoryUsedBytes ls (mib_bytes (MemoryUsedMiB m)),
      GaugeSet GPUMemoryTotalBytes ls (mib_bytes (MemoryTotalMiB m)),
      GaugeSet GPUTemperature_gauge ls (u_float (TemperatureCelsius m)),
      GaugeSet GPUPowerDraw_gauge ls (u_float (PowerDrawWatts m)),
      GaugeSet PCIeThroughput (ls @ [''tx'']) (u_float (PCIeTxKBps m)),
      GaugeSet PCIeThroughput (ls @ [''rx'']) (u_float (PCIeRxKBps m)),
      GaugeSet NVLinkThroughput (ls @ [''tx'']) (u_float (NVLinkTxMBps m)),
      GaugeSet NVLinkThroughput (ls @ [''rx'']) (u_float (NVLinkRxMBps m))])"

section \<open>The collector\<close>

record 's instrumented =
  inner :: 's
  told :: "prom_call list"

definition Wrap :: "'s \<Rightarrow> 's instrumented" where
  "Wrap c = \<lparr>inner = c, told = []\<rparr>"

text \<open>
  One collection: the calls of the library around the call of the inner collector, whose
  duration is the difference of two clock readings; \<open>now\<close> reads the clock in a state.
\<close>

definition collection ::
  "('s \<Rightarrow> gotime) \<Rightarrow> ('s \<Rightarrow> ('e, 'a) result \<times> 's) \<Rightarrow> ('a \<Rightarrow> prom_call list)
     \<Rightarrow> 's instrumented \<Rightarrow> ('e, 'a) result \<times> 's instrumented" where
  "collection now call gauges s = (case call (inner s) of (r, k) \<Rightarrow>
     (let before = [CounterInc CollectionsTotal,
                    HistogramObserve CollectionDuration (in_seconds (time_sub (now k) (now (inner s))))];
          after = (case r of Inl e \<Rightarrow> [CounterInc CollectionErrorsTotal] | Inr a \<Rightarrow> gauges a)
      in (r, \<lparr>inner = k, told = told s @ before @ after\<rparr>)))"

definition delegate :: "('s \<Rightarrow> 'r \<times> 's) \<Rightarrow> 's instrumented \<Rightarrow> 'r \<times> 's instrumented" where
  "delegate call s = (case call (inner s) of (r, k) \<Rightarrow> (r, s\<lparr>inner := k\<rparr>))"

definition wrap_ops :: "('s \<Rightarrow> gotime) \<Rightarrow> 's metrics_collector \<Rightarrow> 's instrumented metrics_collector" where
  "wrap_ops now C = \<lparr>
     CollectAll = collection now (CollectAll C) (\<lambda>ms. concat (map recordGauges ms)),
     CollectDevice = (\<lambda>i. collection now (CollectDevice C i) recordGauges),
     CollectByUUID = (\<lambda>u. collection now (CollectByUUID C u) recordGauges),
     DeviceCount = delegate (DeviceCount C),
     DriverVersion = (\<lambda>s. DriverVersion C (inner s)),
     Close = delegate (Close C)\<rparr>"

section \<open>Facts\<close>

lemma wrap_ops_simps [simp]:
  "CollectAll (wrap_ops now C) = collection now (CollectAll C) (\<lambda>ms. concat (map recordGauges ms))"
  "CollectDevice (wrap_ops now C) i = collection now (CollectDevice C i) recordGauges"
  "CollectByUUID (wrap_ops now C) u = collection now (CollectByUUID C u) recordGauges"
  "DeviceCount (wrap_ops now C) = delegate (DeviceCount C)"
  "DriverVersion (wrap_ops now C) s = DriverVersion C (inner s)"
  "Close (wrap_ops now C) = delegate (Close C)"
  by (simp_all add: wrap_ops_def)

lemma collection_view [simp]:
  "fst (collection now call g s) = fst (call (inner s))"
  "inner (snd (collection now call g s)) = snd (call (inner s))"
  by (simp_all add: collection_def case_prod_beta Let_def)

lemma delegate_view [simp]:
  "fst (delegate call s) = fst (call (inner s))"
  "inner (snd (delegate call s)) = snd (call (inner s))"
  "told (snd (delegate call s)) = told s"
  by (simp_all add: delegate_def case_prod_beta)

text \<open>Wrapping keeps the contract of the interface.\<close>

locale instrumented_collector = collector C inv
  for C :: "'s metrics_collector" and inv +
  fixes now :: "'s \<Rightarrow> gotime"

sublocale instrumented_collector \<subseteq> outer: collector "wrap_ops now C" "\<lambda>s. inv (inner s)"
  by unfold_locales
    (simp_all add: inv_all inv_device inv_uuid inv_count device_index version_all version_device version_uuid version_count)

interpretation mock_wrapped: instrumented_collector mock_ops mock_inv now for now
  by unfold_locales

interpretation nvml_wrapped: instrumented_collector "nvml_ops nv" "\<lambda>_. True" now for nv now
  by unfold_locales

section \<open>A collector seen through another\<close>

text \<open>
  A collector that answers like another one on a view of its state.  Every handler of the
  scaler gives the same results over both, whatever the calls before.
\<close>

locale collector_view =
  fixes A :: "'a metrics_collector" and C :: "'s metrics_collector" and view :: "'a \<Rightarrow> 's"
  assumes view_all: "map_prod id view (CollectAll A s) = CollectAll C (view s)"
    and view_device: "map_prod id view (CollectDevice A i s) = CollectDevice C i (view s)"

definition scaler_view :: "('a \<Rightarrow> 's) \<Rightarrow> 'a scaler \<Rightarrow> 's scaler" where
  "scaler_view view s = \<lparr>coll = view (coll s), vllmClients = vllmClients s,
     tritonClients = tritonClients s, cooldowns = cooldowns s\<rparr>"

lemma scaler_view_simps [simp]:
  "coll (scaler_view view s) = view (coll s)"
  "vllmClients (scaler_view view s) = vllmClients s"
  "tritonClients (scaler_view view s) = tritonClients s"
  "cooldowns (scaler_view view s) = cooldowns s"
  "scaler_view view (s\<lparr>coll := k\<rparr>) = (scaler_view view s)\<lparr>coll := view k\<rparr>"
  "scaler_view view (s\<lparr>vllmClients := v\<rparr>) = (scaler_view view s)\<lparr>vllmClients := v\<rparr>"
  "scaler_view view (s\<lparr>tritonClients := t\<rparr>) = (scaler_view view s)\<lparr>tritonClients := t\<rparr>"
  "scaler_view view (s\<lparr>cooldowns := c\<rparr>) = (scaler_view view s)\<lparr>cooldowns := c\<rparr>"
  by (simp_all add: scaler_view_def)

context collector_view
begin

lemma read_view:
  "map_prod id (scaler_view view) (getMetricValue A env cfg s) = getMetricValue C env cfg (scaler_view view s)"
  using view_all [of "coll s"] view_device [of "gpuIndex cfg" "coll s"]
  by (auto simp: getMetricValue_def getVLLMMetricValue_def getTritonMetricValue_def Let_def case_prod_beta prod_eq_iff)

lemma read_viewD:
  "getMetricValue A env cfg s = (r, s') \<Longrightarrow> getMetricValue C env cfg (scaler_view view s) = (r, scaler_view view s')"
  using read_view [of env cfg s] by simp

lemma GetMetrics_view:
  "map_prod id (scaler_view view) (GetMetrics A env req s) = GetMetrics C env req (scaler_view view s)"
proof (cases req)
  case (Some ref)
  show ?thesis unfolding Some
  proof (cases rule: GetMetrics_cases [where ref = ref and C = A and env = env and s = s])
    case (parse e)
    then show "map_prod id (scaler_view view) (GetMetrics A env (Some ref) s) = GetMetrics C env (Some ref) (scaler_view view s)"
      by (simp add: GetMetrics_def)
  next
    case (metric cfg e s')
    then show "map_prod id (scaler_view view) (GetMetrics A env (Some ref) s) = GetMetrics C env (Some ref) (scaler_view view s)"
      by (simp add: GetMetrics_def read_viewD)
  next
    case (ok cfg x s' v cds)
    then show "map_prod id (scaler_view view) (GetMetrics A env (Some ref) s) = GetMetrics C env (Some ref) (scaler_view view s)"
      by (simp add: GetMetrics_def read_viewD)
  qed
qed (simp add: GetMetrics_def)

lemma IsActive_view:
  "map_prod id (scaler_view view) (IsActive A env ref s) = IsActive C env ref (scaler_view view s)"
  by (cases "parseMetadata (scalerMetadata ref)"; cases "getMetricValue A env (ok_of (parseMetadata (scalerMetadata ref))) s")
    (simp_all add: IsActive_def read_viewD)

end

interpretation wrapped: collector_view "wrap_ops now C" C inner for now C
  by unfold_locales (simp_all add: prod_eq_iff)

section \<open>What the library is told\<close>

datatype collect_call = AskAll | AskDevice int | AskUUID string | AskCount

text \<open>A call of a collector: whether it succeeded, and the next state.\<close>

fun ask :: "'s metrics_collector \<Rightarrow> collect_call \<Rightarrow> 's \<Rightarrow> bool \<times> 's" where
  "ask C AskAll s = apfst is_ok (CollectAll C s)"
| "ask C (AskDevice i) s = apfst is_ok (CollectDevice C i s)"
| "ask C (AskUUID u) s = apfst is_ok (CollectByUUID C u s)"
| "ask C AskCount s = apfst is_ok (DeviceCount C s)"

fun ask_each :: "'s metrics_collector \<Rightarrow> collect_call list \<Rightarrow> 's \<Rightarrow> (collect_call \<times> bool) list \<times> 's" where
  "ask_each C [] s = ([], s)"
| "ask_each C (c # cs) s = (case ask C c s of (b, s1) \<Rightarrow> (case ask_each C cs s1 of
     (bs, s2) \<Rightarrow> ((c, b) # bs, s2)))"

definition counter_value :: "prom_call list \<Rightarrow> string \<Rightarrow> nat" where
  "counter_value log n = count_list log (CounterInc n)"

definition observations :: "prom_call list \<Rightarrow> string \<Rightarrow> nat" where
  "observations log n = length (filter (\<lambda>p. case p of HistogramObserve m _ \<Rightarrow> m = n | _ \<Rightarrow> False) log)"

definition gauge_entries :: "prom_call list \<Rightarrow> ((string \<times> string list) \<times> f64) list" where
  "gauge_entries log = concat (map (\<lambda>p. case p of GaugeSet g ls v \<Rightarrow> [((g, ls), v)] | _ \<Rightarrow> []) log)"

text \<open>A gauge shows what was set last.\<close>

definition gauge_value :: "prom_call list \<Rightarrow> string \<Rightarrow> string list \<Rightarrow> f64 option" where
  "gauge_value log g ls = map_of (rev (gauge_entries log)) (g, ls)"

lemma record_no_counters [simp]:
  "count_list (recordGauges m) (CounterInc n) = 0"
  "count_list (concat (map recordGauges ms)) (CounterInc n) = 0"
  "observations (recordGauges m) n = 0"
  "observations (concat (map recordGauges ms)) n = 0"
proof -
  have "CounterInc n \<notin> set (recordGauges m)" for m by (simp add: recordGauges_def Let_def)
  then show "count_list (recordGauges m) (CounterInc n) = 0" "count_list (concat (map recordGauges ms)) (CounterInc n) = 0"
    by (auto intro!: count_notin)
  have "\<forall>p \<in> set (recordGauges m). \<exists>g ls v. p = GaugeSet g ls v" for m by (simp add: recordGauges_def Let_def)
  then show "observations (recordGauges m) n = 0" "observations (concat (map recordGauges ms)) n = 0"
    by (fastforce simp: observations_def filter_empty_conv)+
qed

lemma totals_differ [simp]:
  "CollectionsTotal \<noteq> CollectionErrorsTotal" "CollectionErrorsTotal \<noteq> CollectionsTotal"
  by (simp_all add: CollectionsTotal_def CollectionErrorsTotal_def fq_name_def)

lemma collection_told:
  assumes "\<And>a n. count_list (gauges a) (CounterInc n) = 0" "\<And>a n. observations (gauges a) n = 0"
  shows "counter_value (told (snd (collection now call gauges s))) CollectionsTotal = Suc (counter_value (told s) CollectionsTotal)"
    and "counter_value (told (snd (collection now call gauges s))) CollectionErrorsTotal =
      counter_value (told s) CollectionErrorsTotal + (if is_ok (fst (call (inner s))) then 0 else 1)"
    and "observations (told (snd (collection now call gauges s))) CollectionDuration = Suc (observations (told s) CollectionDuration)"
  using assms by (auto simp: collection_def counter_value_def observations_def count_list_append
      split: prod.split sum.split)

text \<open>One call, by what it adds to the books.\<close>

lemma ask_told:
  "counter_value (told (snd (ask (wrap_ops now C) c s))) CollectionsTotal =
     counter_value (told s) CollectionsTotal + (if c = AskCount then 0 else 1)"
  "counter_value (told (snd (ask (wrap_ops now C) c s))) CollectionErrorsTotal =
     counter_value (told s) CollectionErrorsTotal + (if c = AskCount \<or> fst (ask (wrap_ops now C) c s) then 0 else 1)"
  "observations (told (snd (ask (wrap_ops now C) c s))) CollectionDuration =
     observations (told s) CollectionDuration + (if c = AskCount then 0 else 1)"
  by (cases c; simp add: collection_told)+

text \<open>The gauges of different devices, and of one device, have different keys.\<close>

lemma gauge_entries_simps [simp]:
  "gauge_entries [] = []"
  "gauge_entries (a @ b) = gauge_entries a @ gauge_entries b"
  "gauge_entries (CounterInc n # b) = gauge_entries b"
  "gauge_entries (HistogramObserve n x # b) = gauge_entries b"
  "gauge_entries (GaugeSet g ls v # b) = ((g, ls), v) # gauge_entries b"
  by (simp_all add: gauge_entries_def)

lemma gauge_entries_iff: "((g, ls), v) \<in> set (gauge_entries log) \<longleftrightarrow> GaugeSet g ls v \<in> set log"
  by (induction log) (auto simp: gauge_entries_def split: prom_call.splits)

lemma gauge_key_labels: "((g, ls), v) \<in> set (gauge_entries (recordGauges m)) \<Longrightarrow> take 3 ls = gpu_labels m"
  by (auto simp: recordGauges_def Let_def gpu_labels_def)

lemma gauge_names_differ: "distinct (map fst (gauge_entries (recordGauges m)))"
  by (simp add: recordGauges_def Let_def gpu_labels_def GPUUtilization_gauge_def GPUMemoryUsedBytes_def
    GPUMemoryTotalBytes_def GPUTemperature_gauge_def GPUPowerDraw_gauge_def PCIeThroughput_def NVLinkThroughput_def fq_name_def)

lemma gauge_keys_distinct:
  "distinct (map gpu_labels ms) \<Longrightarrow> distinct (map fst (gauge_entries (concat (map recordGauges ms))))"
proof (induction ms)
  case (Cons m ms)
  have "False" if a: "((g, ls), v) \<in> set (gauge_entries (recordGauges m))"
    and b: "((g, ls), v') \<in> set (gauge_entries (concat (map recordGauges ms)))" for g ls v v'
  proof -
    obtain m' where m': "m' \<in> set ms" "((g, ls), v') \<in> set (gauge_entries (recordGauges m'))"
      using b by (auto simp: gauge_entries_iff)
    then have "gpu_labels m' = gpu_labels m" using gauge_key_labels a by metis
    then show False using Cons.prems m'(1) by (metis (no_types, lifting) distinct.simps(2) image_eqI list.simps(9) list.set_map)
  qed
  then have "set (map fst (gauge_entries (recordGauges m))) \<inter> set (map fst (gauge_entries (concat (map recordGauges ms)))) = {}"
    by fastforce
  then show ?case using Cons gauge_names_differ [of m] by simp
qed simp

lemma gauge_value_after:
  assumes "distinct (map fst (gauge_entries new))" "GaugeSet g ls v \<in> set new"
  shows "gauge_value (old @ new) g ls = Some v"
proof -
  have "map_of (rev (gauge_entries new)) (g, ls) = Some v"
    using assms by (intro map_of_is_SomeI) (simp_all add: rev_map [symmetric] gauge_entries_iff)
  then show ?thesis by (simp add: gauge_value_def map_add_def)
qed

lemma collect_all_gauges:
  assumes "CollectAll (wrap_ops now C) s = (Inr ms, s')" "distinct (map gpu_labels ms)"
    and "m \<in> set ms" "GaugeSet g ls v \<in> set (recordGauges m)"
  shows "gauge_value (told s') g ls = Some v"
proof -
  have "\<exists>pre. told s' = (told s @ pre) @ concat (map recordGauges ms)"
    using assms(1) by (auto simp: collection_def Let_def split: prod.splits)
  then obtain pre where pre: "told s' = (told s @ pre) @ concat (map recordGauges ms)" by blast
  show ?thesis
    unfolding pre by (rule gauge_value_after [OF gauge_keys_distinct [OF assms(2)]]) (use assms(3,4) in auto)
qed

lemma mib_bytes_exact:
  assumes "unat x \<le> 2 ^ 43"
  shows "mib_bytes x = f64_of_nat (unat x * 1048576)"
  using assms by (simp add: mib_bytes_def u_float_def mult.commute)

section \<open>Properties\<close>

text \<open>C19
  The scaler cannot tell the instrumented collector from the one inside: over both,
  \<open>GetMetrics\<close> and \<open>IsActive\<close> give the same results and lead to the same states, what the
  client library was told aside.\<close>

theorem instrumentation_transparent:
  "map_prod id (scaler_view inner) (GetMetrics (wrap_ops now C) env req s) = GetMetrics C env req (scaler_view inner s) \<and>
   map_prod id (scaler_view inner) (IsActive (wrap_ops now C) env ref s) = IsActive C env ref (scaler_view inner s)"
  by (intro conjI wrapped.GetMetrics_view wrapped.IsActive_view)

text \<open>C20
  The books balance.  After any sequence of calls of an instrumented collector, the counter of
  collections has grown by the number of collections asked for, the counter of errors by the number
  of those that failed, and the histogram has one more observation for each collection; counting the
  devices is no collection.\<close>

theorem books_balance:
  assumes "ask_each (wrap_ops now C) cs s = (rs, s')"
  shows "counter_value (told s') CollectionsTotal =
      counter_value (told s) CollectionsTotal + length (filter (\<lambda>c. c \<noteq> AskCount) cs) \<and>
    counter_value (told s') CollectionErrorsTotal =
      counter_value (told s) CollectionErrorsTotal + length (filter (\<lambda>(c, ok). c \<noteq> AskCount \<and> \<not> ok) rs) \<and>
    observations (told s') CollectionDuration =
      observations (told s) CollectionDuration + length (filter (\<lambda>c. c \<noteq> AskCount) cs)"
  using assms
proof (induction cs arbitrary: s rs)
  case (Cons c cs)
  obtain b s1 where a: "ask (wrap_ops now C) c s = (b, s1)" by fastforce
  obtain bs where r: "ask_each (wrap_ops now C) cs s1 = (bs, s')" "rs = (c, b) # bs"
    using Cons.prems a by (auto split: prod.splits)
  show ?case
    using Cons.IH [OF r(1)] ask_told [of now C c s] by (simp add: a r(2))
qed simp

lemma books_balance_witness:
  "counter_value (told (snd (ask_each (wrap_ops (\<lambda>_. zero_time) mock_ops)
     [AskAll, AskDevice 5, AskCount, AskDevice 0] (Wrap (NewMockCollector [zero_metrics]))))) CollectionErrorsTotal = 1"
  using books_balance [OF prod.collapse [symmetric], of "\<lambda>_. zero_time" mock_ops
      "[AskAll, AskDevice 5, AskCount, AskDevice 0]" "Wrap (NewMockCollector [zero_metrics])"]
  by (simp add: Wrap_def mock_CollectAll_def mock_CollectDevice_def NewMockCollector_def case_prod_beta counter_value_def)

text \<open>
  After a successful collection of all devices the gauges show it: for devices that differ in
  index, UUID or name, every gauge of every device has the value just read, with memory in bytes,
  exactly, for up to 8 EiB.\<close>

theorem gauges_show_collection:
  assumes "CollectAll (wrap_ops now C) s = (Inr ms, s')" "distinct (map gpu_labels ms)" "m \<in> set ms"
    and "unat (MemoryUsedMiB m) \<le> 2 ^ 43" "unat (MemoryTotalMiB m) \<le> 2 ^ 43"
  shows "gauge_value (told s') GPUUtilization_gauge (gpu_labels m) = Some (f64_of_nat (unat (GPUUtilization m))) \<and>
    gauge_value (told s') GPUMemoryUsedBytes (gpu_labels m) = Some (f64_of_nat (unat (MemoryUsedMiB m) * 1048576)) \<and>
    gauge_value (told s') GPUMemoryTotalBytes (gpu_labels m) = Some (f64_of_nat (unat (MemoryTotalMiB m) * 1048576)) \<and>
    gauge_value (told s') GPUTemperature_gauge (gpu_labels m) = Some (f64_of_nat (unat (TemperatureCelsius m))) \<and>
    gauge_value (told s') GPUPowerDraw_gauge (gpu_labels m) = Some (f64_of_nat (unat (PowerDrawWatts m))) \<and>
    gauge_value (told s') PCIeThroughput (gpu_labels m @ [''tx'']) = Some (f64_of_nat (unat (PCIeTxKBps m))) \<and>
    gauge_value (told s') PCIeThroughput (gpu_labels m @ [''rx'']) = Some (f64_of_nat (unat (PCIeRxKBps m))) \<and>
    gauge_value (told s') NVLinkThroughput (gpu_labels m @ [''tx'']) = Some (f64_of_nat (unat (NVLinkTxMBps m))) \<and>
    gauge_value (told s') NVLinkThroughput (gpu_labels m @ [''rx'']) = Some (f64_of_nat (unat (NVLinkRxMBps m)))"
  unfolding u_float_def [symmetric]
    mib_bytes_exact [OF assms(4), symmetric] mib_bytes_exact [OF assms(5), symmetric]
  by (intro conjI; rule collect_all_gauges [OF assms(1-3)]; simp add: recordGauges_def Let_def)

lemma gauges_show_collection_witness:
  "gauge_value (told (snd (CollectAll (wrap_ops (\<lambda>_. zero_time) mock_ops) (Wrap (NewMockCollector [mock_device 80 0])))))
     GPUMemoryUsedBytes (gpu_labels (mock_device 80 0)) = Some (f64_of_nat 68719476736)"
proof -
  have "unat (MemoryUsedMiB (mock_device 80 0)) = 65536" "unat (MemoryTotalMiB (mock_device 80 0)) = 81920"
    by (simp_all add: mock_device_def mock_total_mib_def)
  moreover have "CollectAll (wrap_ops (\<lambda>_. zero_time) mock_ops) (Wrap (NewMockCollector [mock_device 80 0])) =
      (Inr [mock_device 80 0], snd (CollectAll (wrap_ops (\<lambda>_. zero_time) mock_ops) (Wrap (NewMockCollector [mock_device 80 0]))))"
    by (simp add: prod_eq_iff mock_CollectAll_def Wrap_def NewMockCollector_def)
  ultimately show ?thesis
    using gauges_show_collection [of "\<lambda>_. zero_time" mock_ops _ "[mock_device 80 0]" _ "mock_device 80 0"] by simp
qed

end
