(* ===== verification/GoOs.thy ===== *)
theory GoOs
  imports GoStrconv
begin

text \<open>
  The process environment behind Go's \<open>os\<close> package, \<open>strconv.Atoi\<close> with its error thrown
  away, and \<open>strings.Join\<close> with the facts on comma-separated lists that the HPC packages need.
\<close>

section \<open>The process\<close>

text \<open>\<open>os.Hostname\<close> fails with \<open>None\<close>; its callers drop the error and keep the empty string.\<close>

record process =
  environ :: "string \<rightharpoonup> string"
  host_name :: "string option"

definition getenv :: "process \<Rightarrow> string \<Rightarrow> string" where
  "getenv p k = (case environ p k of None \<Rightarrow> [] | Some v \<Rightarrow> v)"

definition env_is_set :: "process \<Rightarrow> string \<Rightarrow> bool" where
  "env_is_set p k \<longleftrightarrow> environ p k \<noteq> None"

definition hostname_or_empty :: "process \<Rightarrow> string" where
  "hostname_or_empty p = (case host_name p of None \<Rightarrow> [] | Some h \<Rightarrow> h)"

text \<open>
  The integer \<open>strconv.Atoi\<close> returns beside its error: 0 for a syntax error, the nearest
  64-bit integer for a number out of range.
\<close>

definition atoi_value :: "string \<Rightarrow> int" where
  "atoi_value s = (case atoi s of
     Inr i \<Rightarrow> i
   | Inl ErrSyntax \<Rightarrow> 0
   | Inl ErrRange \<Rightarrow> (if hd s = CHR ''-'' then min_int64 else max_int64))"

fun str_join :: "string \<Rightarrow> string list \<Rightarrow> string" where
  "str_join sep [] = []"
| "str_join sep [p] = p"
| "str_join sep (p # q # ps) = p @ sep @ str_join sep (q # ps)"

section \<open>Facts\<close>

lemma atoi_value_range: "in_int64 (atoi_value s)"
  using atoi_in_int64 [of s]
  by (cases "atoi s"; cases "projl (atoi s)") (auto simp: atoi_value_def in_int64_def min_int64_def max_int64_def)

lemma atoi_value_itoa: "in_int64 i \<Longrightarrow> atoi_value (itoa i) = i"
  by (simp add: atoi_value_def atoi_itoa)

lemma split_join: "ps \<noteq> [] \<Longrightarrow> \<forall>p \<in> set ps. c \<notin> set p \<Longrightarrow> split_byte c (str_join [c] ps) = ps"
  by (induction "[c]" ps rule: str_join.induct) simp_all

lemma join_empty: "str_join [c] ps = [] \<longleftrightarrow> ps = [] \<or> ps = [[]]"
  by (cases ps rule: remdups_adj.cases) auto

definition blanks :: "nat \<Rightarrow> string" where
  "blanks n = replicate n (CHR '' '')"

lemma trim_left_blanks: "trim_left (blanks n @ s) = trim_left s"
  by (induction n) (simp_all add: blanks_def trim_left.simps [of "CHR '' '' # _"] space_len_blank)

lemma trim_left_plain: "w = [] \<or> plain (hd w) \<Longrightarrow> trim_left w = w"
  using space_len_plain [of "hd w" "tl w"] by (subst trim_left.simps, cases w) simp_all

lemma trim_right_blanks: "trim_right (s @ blanks n) = trim_right s"
proof (induction n)
  case (Suc n)
  have "blanks (Suc n) = blanks n @ '' ''" by (simp add: blanks_def replicate_append_same)
  then show ?case
    using Suc by (simp add: trim_right.simps [of "s @ blanks n @ '' ''"] space_suffix_len_def space_len_blank)
qed (simp add: blanks_def)

lemma trim_right_plain: "list_all plain w \<Longrightarrow> trim_right w = w"
proof -
  assume w: "list_all plain w"
  have "space_len (drop k w) = 0" for k
  proof (cases "drop k w")
    case (Cons c s)
    then have "c \<in> set w" using in_set_dropD [of c k w] by simp
    then show ?thesis using w Cons by (simp add: list_all_iff space_len_plain)
  qed simp
  then have "space_suffix_len w = 0" by (simp add: space_suffix_len_def)
  then show ?thesis by (simp add: trim_right.simps [of w])
qed

lemma trim_padded: "list_all plain w \<Longrightarrow> w \<noteq> [] \<Longrightarrow> trim_space (blanks a @ w @ blanks b) = w"
proof -
  assume w: "list_all plain w" "w \<noteq> []"
  then have "plain (hd (w @ blanks b))" by (cases w) simp_all
  then have "trim_left (w @ blanks b) = w @ blanks b" by (rule trim_left_plain [OF disjI2])
  then show ?thesis by (simp add: trim_space_def trim_left_blanks trim_right_blanks trim_right_plain [OF w(1)])
qed

lemma trim_plain: "list_all plain w \<Longrightarrow> trim_space w = w"
  using trim_padded [of w 0 0] by (cases w) (simp_all add: blanks_def trim_space_def trim_left_plain trim_right_plain)

lemma itoa_plain [simp]: "list_all plain (itoa i)"
  by (simp add: itoa_def plain_def byte_def)

lemma itoa_nonempty [simp]: "itoa i \<noteq> []"
  by (simp add: itoa_def)

lemma digits_no_comma: "CHR '','' \<notin> set (format_uint n)"
  using format_uint_digits [of n] by (auto simp: list_all_iff is_digit_def byte_def)

lemma itoa_no_comma [simp]: "CHR '','' \<notin> set (itoa i)"
  by (simp add: itoa_def digits_no_comma)

lemma blanks_no_comma [simp]: "CHR '','' \<notin> set (blanks n)"
  by (auto simp: blanks_def)

end
