(* ===== verification/Version.thy ===== *)
theory Version
  imports GoOs
begin

text \<open>
  \<open>pkg/version/version.go\<close>.  The version and the build date are set by the linker, the version of
  the Go runtime by the toolchain; they are arguments.
\<close>

record build_info =
  Version :: string
  BuildDate :: string
  runtime_Version :: string

definition String_version :: "build_info \<Rightarrow> string \<Rightarrow> string" where
  "String_version b name =
     name @ '' '' @ Version b @ '' ('' @ runtime_Version b @ '', built '' @ BuildDate b @ '')''"

definition Requested :: "bool \<Rightarrow> string list \<Rightarrow> bool" where
  "Requested flagSet args \<longleftrightarrow> flagSet \<or> (args \<noteq> [] \<and> hd args = ''version'')"

end
