(* ===== verification/Health.thy ===== *)
theory Health
  imports Instrumented Version
begin

text \<open>
  \<open>pkg/healthcheck/checker.go\<close> and \<open>pkg/probes/probes.go\<close>: the status a client of the health
  service sees, and the two probe endpoints.  The gRPC health server is outside; what it is
  told, and what is logged, is the list of the checker's effects.
\<close>

section \<open>The health checker\<close>

datatype serving_status = UNKNOWN | SERVING | NOT_SERVING

datatype checker_effect =
    SetServingStatus string serving_status
  | LogFailed gpu_error
  | LogRecovered

definition DefaultInterval :: duration where "DefaultInterval = seconds 30"

definition ServiceName :: string where "ServiceName = ''''"

record checker =
  interval_checker :: duration
  lastStatus :: serving_status

definition New_checker :: "duration \<Rightarrow> checker" where
  "New_checker interval =
     \<lparr>interval_checker = (if interval \<le> 0 then DefaultInterval else interval), lastStatus = UNKNOWN\<rparr>"

definition Check ::
  "'s metrics_collector \<Rightarrow> checker \<times> 's \<Rightarrow> serving_status \<times> checker_effect list \<times> checker \<times> 's" where
  "Check C cs = (case cs of (c, s) \<Rightarrow> (case DeviceCount C s of (r, s') \<Rightarrow>
     (let status = (case r of Inl _ \<Rightarrow> NOT_SERVING | Inr _ \<Rightarrow> SERVING);
          logged = (if status = lastStatus c then []
                    else (case r of Inl e \<Rightarrow> [LogFailed e] | Inr _ \<Rightarrow> [LogRecovered]))
      in (status, logged @ [SetServingStatus ServiceName status], c\<lparr>lastStatus := status\<rparr>, s'))))"

text \<open>
  \<open>Run\<close>: a check at once, then one for each tick until the context is done.  \<open>None\<close> is the
  panic of a ticker with an interval that is not positive.  The run returns the effects and
  whether it has returned.
\<close>

datatype checker_event = CheckTick | CheckDone

fun check_loop ::
  "'s metrics_collector \<Rightarrow> checker_event list \<Rightarrow> checker \<times> 's \<Rightarrow> checker_effect list \<times> bool \<times> checker \<times> 's" where
  "check_loop C [] cs = ([], False, cs)"
| "check_loop C (CheckDone # es) cs = ([], True, cs)"
| "check_loop C (CheckTick # es) cs = (case Check C cs of
     (status, eff, cs1) \<Rightarrow> (case check_loop C es cs1 of (effs, r) \<Rightarrow> (eff @ effs, r)))"

definition Run ::
  "'s metrics_collector \<Rightarrow> checker_event list \<Rightarrow> checker \<times> 's
     \<Rightarrow> (checker_effect list \<times> bool \<times> checker \<times> 's) option" where
  "Run C es cs = (case Check C cs of (status, eff, cs1) \<Rightarrow>
     if interval_checker (fst cs1) \<le> 0 then None
     else (case check_loop C es cs1 of (effs, r) \<Rightarrow> Some (eff @ effs, r)))"

section \<open>The probes\<close>

record probe_state =
  ready :: bool

definition MarkReady :: "probe_state \<Rightarrow> probe_state" where
  "MarkReady s = s\<lparr>ready := True\<rparr>"

definition Ready :: "probe_state \<Rightarrow> bool" where
  "Ready s = ready s"

text \<open>The status code for a path; \<open>None\<close> is a path the multiplexer answers itself.\<close>

definition Handler :: "probe_state \<Rightarrow> string \<Rightarrow> nat option" where
  "Handler s path =
     (if path = ''/healthz'' then Some 200
      else if path = ''/readyz'' then (if \<not> Ready s then Some 503 else Some 200)
      else None)"

section \<open>Facts\<close>

text \<open>What the health server shows: the status it was told last.\<close>

definition shown_status :: "checker_effect list \<Rightarrow> serving_status" where
  "shown_status es = fold (\<lambda>e st. case e of SetServingStatus n s \<Rightarrow> if n = ServiceName then s else st | _ \<Rightarrow> st) es UNKNOWN"

text \<open>The device counts the checks see, one for each, and the state after them.\<close>

fun counts :: "nat \<Rightarrow> 's metrics_collector \<Rightarrow> 's \<Rightarrow> bool list \<times> 's" where
  "counts 0 C s = ([], s)"
| "counts (Suc n) C s = (case DeviceCount C s of (r, s1) \<Rightarrow> apfst ((#) (is_ok r)) (counts n C s1))"

definition status_of :: "bool \<Rightarrow> serving_status" where
  "status_of b = (if b then SERVING else NOT_SERVING)"

definition ticks_before_done :: "checker_event list \<Rightarrow> nat" where
  "ticks_before_done es = length (takeWhile (\<lambda>e. e = CheckTick) es)"

definition statuses :: "checker_effect list \<Rightarrow> serving_status list" where
  "statuses es = concat (map (\<lambda>e. case e of SetServingStatus n s \<Rightarrow> [s] | _ \<Rightarrow> []) es)"

definition log_lines :: "checker_effect list \<Rightarrow> bool list" where
  "log_lines es = concat (map (\<lambda>e. case e of LogFailed _ \<Rightarrow> [False] | LogRecovered \<Rightarrow> [True] | _ \<Rightarrow> []) es)"

text \<open>The changes along a list of statuses that begins after \<open>prev\<close>.\<close>

fun changes :: "serving_status \<Rightarrow> bool list \<Rightarrow> bool list" where
  "changes prev [] = []"
| "changes prev (b # bs) = (if status_of b = prev then [] else [b]) @ changes (status_of b) bs"

lemma effects_append [simp]:
  "statuses (a @ b) = statuses a @ statuses b" "log_lines (a @ b) = log_lines a @ log_lines b"
  by (simp_all add: statuses_def log_lines_def)

lemma Check_effects:
  assumes "Check C (c, s) = (st, eff, c', s')"
  shows "\<exists>r. DeviceCount C s = (r, s') \<and> st = status_of (is_ok r) \<and> statuses eff = [st] \<and>
    log_lines eff = (if st = lastStatus c then [] else [is_ok r]) \<and> c' = c\<lparr>lastStatus := st\<rparr>"
proof -
  obtain r s1 where "DeviceCount C s = (r, s1)" by fastforce
  then show ?thesis
    using assms by (cases r) (auto simp: Check_def Let_def status_of_def statuses_def log_lines_def split: if_splits)
qed

lemma check_loop_effects:
  assumes "check_loop C es (c, s) = (eff, fin, c', s')"
  shows "(case counts (ticks_before_done es) C s of (bs, s2) \<Rightarrow>
     statuses eff = map status_of bs \<and> log_lines eff = changes (lastStatus c) bs \<and> s' = s2) \<and>
     (fin \<longleftrightarrow> CheckDone \<in> set es) \<and> interval_checker c' = interval_checker c"
  using assms
proof (induction es arbitrary: c s eff)
  case Nil
  then show ?case by (simp add: ticks_before_done_def statuses_def log_lines_def)
next
  case (Cons e es)
  show ?case
  proof (cases e)
    case CheckTick
    obtain st e1 c1 s1 where ch: "Check C (c, s) = (st, e1, c1, s1)" by (metis prod_cases4)
    obtain e2 where lp: "check_loop C es (c1, s1) = (e2, fin, c', s')" "eff = e1 @ e2"
      using Cons.prems CheckTick ch by (auto split: prod.splits)
    show ?thesis
      using Check_effects [OF ch] Cons.IH [OF lp(1)] lp(2) CheckTick
      by (auto simp: ticks_before_done_def split: prod.splits)
  next
    case CheckDone
    then show ?thesis using Cons.prems by (simp add: ticks_before_done_def statuses_def log_lines_def)
  qed
qed

lemma DefaultInterval_pos [simp]: "0 < DefaultInterval"
  by (simp add: DefaultInterval_def seconds_max nanos_per_second_def)

section \<open>Properties\<close>

text \<open>C26
  The health service tells the truth, and the log tells the changes.  A checker made with any
  interval runs without a panic; it checks once at once and once for each tick before the end, each check
  reports \<open>SERVING\<close> exactly if the devices could be counted, a line is logged exactly where the status
  differs from the one before (the first check counting as a change), and the run returns exactly if its
  context is done.\<close>

theorem health_reports_counts:
  "\<exists>eff fin c' s'. Run C es (New_checker interval, s) = Some (eff, fin, c', s') \<and>
    (case counts (Suc (ticks_before_done es)) C s of (bs, s2) \<Rightarrow>
       statuses eff = map status_of bs \<and> log_lines eff = changes UNKNOWN bs \<and> s' = s2) \<and>
    (fin \<longleftrightarrow> CheckDone \<in> set es)"
proof -
  let ?c = "New_checker interval"
  obtain st e1 c1 s1 where ch: "Check C (?c, s) = (st, e1, c1, s1)" by (metis prod_cases4)
  obtain e2 fin c' s' where lp: "check_loop C es (c1, s1) = (e2, fin, c', s')" by (metis prod_cases4)
  have c1: "interval_checker c1 = interval_checker ?c" "lastStatus ?c = UNKNOWN"
    using Check_effects [OF ch] by (auto simp: New_checker_def)
  then have "0 < interval_checker c1"
    using DefaultInterval_pos by (auto simp: New_checker_def)
  then have "Run C es (?c, s) = Some (e1 @ e2, fin, c', s')" by (simp add: Run_def ch lp)
  then show ?thesis
    using Check_effects [OF ch] check_loop_effects [OF lp] c1(2) by (auto split: prod.splits)
qed

end
