(* ===== verification/Factory.thy ===== *)
theory Factory
  imports Nvml
begin

text \<open>
  Vendor detection, \<open>pkg/gpu/factory.go\<close>: which collector a node gets, from the device files
  that exist on it.  The file system is a predicate on paths.
\<close>

type_synonym vendor = string

definition VendorNVIDIA :: vendor where "VendorNVIDIA = ''nvidia''"
definition VendorAMD :: vendor where "VendorAMD = ''amd''"
definition VendorUnknown :: vendor where "VendorUnknown = ''''"

definition nvidiaDevPath :: string where "nvidiaDevPath = ''/dev/nvidiactl''"
definition amdDevPath :: string where "amdDevPath = ''/dev/kfd''"

definition detectVendor :: "(string \<Rightarrow> bool) \<Rightarrow> vendor" where
  "detectVendor exists =
     (if exists nvidiaDevPath then VendorNVIDIA
      else if exists amdDevPath then VendorAMD
      else VendorUnknown)"

datatype factory_error =
    CollectorInit gpu_error
  | AMDNotImplemented
  | UnsupportedVendor vendor
  | NoGPUDevice

definition NewCollectorForVendor ::
  "('w, 'd) nvml \<Rightarrow> vendor \<Rightarrow> 'w \<Rightarrow> (factory_error, 'w nvml_collector) result" where
  "NewCollectorForVendor nv v w =
     (if v = VendorNVIDIA then map_err CollectorInit (NewCollector nv w)
      else if v = VendorAMD then Inl AMDNotImplemented
      else Inl (UnsupportedVendor v))"

definition NewDetectedCollector ::
  "('w, 'd) nvml \<Rightarrow> (string \<Rightarrow> bool) \<Rightarrow> 'w \<Rightarrow> (factory_error, 'w nvml_collector) result" where
  "NewDetectedCollector nv exists w =
     (let v = detectVendor exists in
      if v = VendorUnknown then Inl NoGPUDevice else NewCollectorForVendor nv v w)"

section \<open>Facts\<close>

lemmas vendor_defs = VendorNVIDIA_def VendorAMD_def VendorUnknown_def

lemma vendors_distinct [simp]:
  "VendorNVIDIA \<noteq> VendorAMD" "VendorNVIDIA \<noteq> VendorUnknown" "VendorAMD \<noteq> VendorUnknown"
  "VendorAMD \<noteq> VendorNVIDIA" "VendorUnknown \<noteq> VendorNVIDIA" "VendorUnknown \<noteq> VendorAMD"
  by (simp_all add: vendor_defs)

text \<open>The unsupported-vendor error is for callers that name a vendor: detection never meets it.\<close>

lemma detected_supported: "NewDetectedCollector nv exists w \<noteq> Inl (UnsupportedVendor v)"
  by (auto simp: NewDetectedCollector_def NewCollectorForVendor_def detectVendor_def Let_def map_err_Inl_iff split: if_splits)

lemma NewCollector_iff:
  "NewCollector nv w = Inr c \<longleftrightarrow>
     (\<exists>w1 v w2. run_state (Init nv) w = (Inr (), w1) \<and> run_state (SystemGetDriverVersion nv) w1 = (v, w2) \<and>
        c = \<lparr>nvml_world = w2, driverVersion = (case v of Inl _ \<Rightarrow> [] | Inr s \<Rightarrow> s)\<rparr>)"
  by (auto simp: NewCollector_def split: prod.splits sum.splits)

text \<open>A collector is built exactly where the NVIDIA device file exists and the library starts.\<close>

lemma detected_iff:
  "NewDetectedCollector nv exists w = Inr c \<longleftrightarrow> exists nvidiaDevPath \<and> NewCollector nv w = Inr c"
  by (auto simp: NewDetectedCollector_def NewCollectorForVendor_def detectVendor_def Let_def)

lemma detected_error:
  "NewDetectedCollector nv exists w = Inl e \<longleftrightarrow>
     (if exists nvidiaDevPath then \<exists>g. NewCollector nv w = Inl g \<and> e = CollectorInit g
      else e = (if exists amdDevPath then AMDNotImplemented else NoGPUDevice))"
  by (auto simp: NewDetectedCollector_def NewCollectorForVendor_def detectVendor_def Let_def map_err_Inl_iff)

end
