(* ===== verification/Engines.thy ===== *)
theory Engines
  imports Vllm Triton
begin

text \<open>
  What holds of both engine clients: their line parsers, written twice in the source, and what
  those make of a line an exporter writes.
\<close>

lemma parsers_agree: "parseLine_triton = parseLine_vllm"
  by (rule ext) (simp add: parseLine_triton_def parseLine_vllm_def)

definition engine_names :: "string set" where
  "engine_names = vllm_names \<union> triton_names"

lemma engine_names_no_brace: "n \<in> engine_names \<Longrightarrow> CHR ''}'' \<notin> set n"
  by (auto simp: engine_names_def vllm_names_def triton_names_def vllm_name_defs)

lemma engine_names_metric: "n \<in> engine_names \<Longrightarrow> metric_name n \<and> hd n \<noteq> CHR ''#''"
  by (auto simp: engine_names_def vllm_names_def triton_names_def vllm_name_defs metric_name_def plain_def byte_def)

section \<open>Properties\<close>

text \<open>
  A sample an exporter writes is read back by both clients: for a name without white space or
  an opening brace, any label text without a closing brace (white space included) and any natural
  value in range, the parsed line is the name and the value.\<close>

theorem sample_roundtrip:
  assumes "metric_name name" "CHR ''}'' \<notin> set labels" "n \<le> 2 ^ 1023"
  shows "parseLine_vllm (sample_line name labels n) = Some (name, f64_of_nat n) \<and>
    parseLine_triton (sample_line name labels n) = Some (name, f64_of_nat n)"
  using sample_line_labels [OF assms(1,2), of "[]" n] assms(3)
  by (simp add: sample_line_def parsers_agree)

lemma sample_roundtrip_witness:
  "parseLine_vllm (sample_line MetricQueueDepth ''model=a b'' 7) = Some (MetricQueueDepth, f64_of_nat 7)"
  using sample_roundtrip [of MetricQueueDepth "''model=a b''" 7]
  by (simp add: MetricQueueDepth_def metric_name_def plain_def byte_def)

text \<open>
  A closing brace inside a label value loses the sample.  The label block is cut at its first
  closing brace, what follows it is taken for part of the name, and the line of a metric the
  clients know changes nothing.\<close>

theorem brace_in_label_loses_sample:
  assumes "name \<in> engine_names" "CHR ''}'' \<notin> set l1" "list_all plain l2" "n \<le> 2 ^ 1023"
    and "line = sample_line name (l1 @ CHR ''}'' # l2) n"
  shows "vllm_line line m = m \<and> triton_line line m' = m'"
proof -
  have name: "metric_name name" "hd name \<noteq> CHR ''#''" using engine_names_metric [OF assms(1)] by simp_all
  have "list_all plain (l2 @ ''}'')" using assms(3) by (simp add: plain_def byte_def)
  then have parse: "parseLine_vllm line = Some (name @ l2 @ ''}'', f64_of_nat n)"
    using sample_line_labels [OF name(1) assms(2), of "l2 @ ''}''" n] assms(4,5) by (simp add: sample_line_def)
  have "name @ l2 @ ''}'' \<notin> engine_names" using engine_names_no_brace [of "name @ l2 @ ''}''"] by auto
  then have "name @ l2 @ ''}'' \<notin> vllm_names" "name @ l2 @ ''}'' \<notin> triton_names"
    by (simp_all add: engine_names_def)
  then show ?thesis
    using parse vllm.unknown [of line] triton.unknown [of line] by (simp add: parsers_agree)
qed

lemma brace_in_label_loses_sample_witness:
  "vllm_line (sample_line MetricQueueDepth (''model=a'' @ CHR ''}'' # ''b'') 7) zero_vllm_metrics = zero_vllm_metrics"
  using brace_in_label_loses_sample [of MetricQueueDepth "''model=a''" "''b''" 7 _ zero_vllm_metrics]
  by (simp add: engine_names_def vllm_names_def plain_def byte_def)

end
