(* ===== verification/Service.thy ===== *)
theory Service
  imports Scaler Engines
begin

text \<open>
  The scaler over many calls: worlds that reply alike to requests for endpoints the guard accepts,
  the trace of a series of \<open>GetMetrics\<close> calls as a run of the cooldown, a stream as a series of
  \<open>IsActive\<close> calls; and the concrete scalers and objects the witnesses use.
\<close>

section \<open>Worlds and traces\<close>

text \<open>Two environments that give the same replies, redirects followed, to requests for URLs the guard accepts.\<close>

definition same_vetted_world :: "call_env \<Rightarrow> call_env \<Rightarrow> bool" where
  "same_vetted_world env env' \<longleftrightarrow>
     scrape_now env = scrape_now env' \<and> cooldown_now env = cooldown_now env' \<and>
     (\<forall>u. vetted u \<longrightarrow> http_get env u = http_get env' u)"

lemma read_same_world:
  assumes "clients_vetted s" "endpoints_ok cfg" "same_vetted_world env env'"
  shows "getMetricValue C env cfg s = getMetricValue C env' cfg s"
proof -
  have "getVLLMMetricValue env cfg s = getVLLMMetricValue env' cfg s" if "IsVLLMMetric (metricType cfg)"
    using getVLLMClient_endpoint [OF assms(1), of "vllmEndpoint cfg"] endpoints_ok_vetted(1) [OF assms(2) that] assms(3)
    by (simp add: getVLLMMetricValue_def same_vetted_world_def case_prod_beta)
  moreover have "getTritonMetricValue env cfg s = getTritonMetricValue env' cfg s" if "IsTritonMetric (metricType cfg)"
    using getTritonClient_endpoint [OF assms(1), of "tritonEndpoint cfg"] endpoints_ok_vetted(2) [OF assms(2) that] assms(3)
    by (simp add: getTritonMetricValue_def same_vetted_world_def case_prod_beta)
  ultimately show ?thesis by (simp add: getMetricValue_def)
qed

text \<open>
  The trace of a series of \<open>GetMetrics\<close> calls: for each that succeeds, the call of the
  cooldown it makes and the value it reports.
\<close>

fun metrics_trace ::
  "'s metrics_collector \<Rightarrow> (call_env \<times> scaled_object_ref) list \<Rightarrow> 's scaler \<Rightarrow> (cooldown_call \<times> f64) list" where
  "metrics_trace C [] s = []"
| "metrics_trace C ((env, ref) # cs) s =
     (case (parseMetadata (scalerMetadata ref), GetMetrics C env (Some ref) s) of
        (Inr cfg, (Inr ((name, v) # vs), s')) \<Rightarrow>
          (case getMetricValue C env cfg s of
             (Inr x, _) \<Rightarrow>
               (\<lparr>cc_now = cooldown_now env, cc_key = newCooldownKey ref cfg, cc_value = x,
                  cc_window = seconds (cooldownSeconds cfg)\<rparr>, v) # metrics_trace C cs s'
           | _ \<Rightarrow> metrics_trace C cs s')
      | (_, (_, s')) \<Rightarrow> metrics_trace C cs s')"

lemma trace_is_cooldown_run:
  "fst (cooldown_run (map fst (metrics_trace C cs s)) (cooldowns s)) = metrics_trace C cs s"
proof (induction cs arbitrary: s)
  case (Cons a cs)
  obtain env ref where a: "a = (env, ref)" by (cases a)
  show ?case
  proof (cases rule: GetMetrics_cases [where ref = ref and C = C and env = env and s = s])
    case (parse e)
    then have "metrics_trace C (a # cs) s = metrics_trace C cs s" by (simp add: a)
    then show "fst (cooldown_run (map fst (metrics_trace C (a # cs) s)) (cooldowns s)) = metrics_trace C (a # cs) s"
      using Cons.IH by simp
  next
    case (metric cfg e s')
    then have "metrics_trace C (a # cs) s = metrics_trace C cs s'" "cooldowns s' = cooldowns s"
      by (simp_all add: a getMetricValue_cooldownsD)
    then show "fst (cooldown_run (map fst (metrics_trace C (a # cs) s)) (cooldowns s)) = metrics_trace C (a # cs) s"
      using Cons.IH [of s'] by simp
  next
    case (ok cfg x s' v cds)
    then have "cooldowns s' = cooldowns s" by (simp add: getMetricValue_cooldownsD)
    then show "fst (cooldown_run (map fst (metrics_trace C (a # cs) s)) (cooldowns s)) = metrics_trace C (a # cs) s"
      using Cons.IH [of "s'\<lparr>cooldowns := cds\<rparr>"] ok
      by (simp add: a cooldown_step_def case_prod_beta)
  qed
qed simp

text \<open>Successive \<open>IsActive\<close> calls: their results, errors left out, and the last state.\<close>

fun poll_active ::
  "'s metrics_collector \<Rightarrow> scaled_object_ref \<Rightarrow> call_env list \<Rightarrow> 's scaler \<Rightarrow> bool list \<times> 's scaler" where
  "poll_active C ref [] s = ([], s)"
| "poll_active C ref (env # envs) s =
     (let (r, s1) = IsActive C env ref s; (bs, s2) = poll_active C ref envs s1
      in (case r of Inl _ \<Rightarrow> bs | Inr b \<Rightarrow> b # bs, s2))"

lemma stream_loop_polls:
  "parseMetadata (scalerMetadata ref) = Inr cfg \<Longrightarrow>
     stream_loop C cfg (map (\<lambda>env. Tick env None) envs) s =
       (fst (poll_active C ref envs s), None, snd (poll_active C ref envs s))"
proof (induction envs arbitrary: s)
  case (Cons env envs)
  obtain r s1 where r: "getMetricValue C env cfg s = (r, s1)" by (cases "getMetricValue C env cfg s")
  then show ?case
    using Cons by (cases r) (simp_all add: IsActive_def Let_def split: prod.split)
qed simp

text \<open>A read does not look at the cooldown.\<close>

lemma read_ignores_cooldown: "getMetricValue C env (cfg\<lparr>cooldownSeconds := n\<rparr>) s = getMetricValue C env cfg s"
proof -
  have "vllm_value (cfg\<lparr>cooldownSeconds := n\<rparr>) = vllm_value cfg" "triton_value (cfg\<lparr>cooldownSeconds := n\<rparr>) = triton_value cfg"
    by (rule ext, simp add: vllm_value_def triton_value_def)+
  then show ?thesis by (simp add: getMetricValue_def getVLLMMetricValue_def getTritonMetricValue_def case_prod_beta cong: if_cong)
qed

section \<open>Demonstration scalers\<close>

definition demo_scaler :: "mock_collector scaler" where
  "demo_scaler = NewGPUExternalScaler (NewMockCollector (map (mock_device 80) [0..<2]))"

definition demo_env :: "int \<Rightarrow> call_env" where
  "demo_env t = \<lparr>http_get = (\<lambda>_. TransportError ''refused''),
     scrape_now = \<lparr>wall = t, mono = Some t\<rparr>, cooldown_now = \<lparr>wall = t, mono = Some t\<rparr>\<rparr>"

definition demo_ref :: "metadata \<Rightarrow> scaled_object_ref" where
  "demo_ref md = \<lparr>ref_name = ''infer'', ref_namespace = ''prod'', scalerMetadata = md\<rparr>"

lemma parse_empty: "parseMetadata Map.empty = Inr default_config"
  by (simp add: parse_Inr_iff well_formed_keys_def key_ok_def effective_config_def key_or_def
      from_profile_def default_config_def endpoints_ok_def IsVLLMMetric_def IsTritonMetric_def metric_type_defs)

lemma demo_read: "getMetricValue mock_ops env default_config demo_scaler = (Inr (f64_of_nat 80), demo_scaler)"
proof -
  have "unat (80 :: u32) = 80" by simp
  then show ?thesis
    by (simp add: getMetricValue_def default_config_def demo_scaler_def NewGPUExternalScaler_def
        NewMockCollector_def mock_CollectAll_def IsVLLMMetric_def IsTritonMetric_def metric_type_defs
        extractMetric_def mock_device_def u_float_def aggregate_def upt_rec zero_metrics_def)
qed

text \<open>A collector that plays back a script of utilizations, one device per collection.\<close>

definition scripted :: "u32 list metrics_collector" where
  "scripted =
     \<lparr>CollectAll = (\<lambda>us. case us of [] \<Rightarrow> (Inr [], []) | u # us' \<Rightarrow> (Inr [mock_device u 0], us')),
      CollectDevice = (\<lambda>i us. (Inl (MockIndexOutOfRange i (-1)), us)),
      CollectByUUID = (\<lambda>u us. (Inl (MockUUIDNotFound u), us)),
      DeviceCount = (\<lambda>us. (Inr 1, us)), DriverVersion = (\<lambda>us. []), Close = (\<lambda>us. (Inr (), us))\<rparr>"

lemma scripted_read:
  "coll s = u # us \<Longrightarrow>
     getMetricValue scripted env default_config s = (Inr (f64_of_nat (unat u)), s\<lparr>coll := us\<rparr>)"
  by (simp add: getMetricValue_def default_config_def scripted_def IsVLLMMetric_def IsTritonMetric_def
      metric_type_defs extractMetric_def mock_device_def u_float_def aggregate_def)

definition demo_calls :: "(call_env \<times> scaled_object_ref) list" where
  "demo_calls = map (\<lambda>t. (demo_env t, demo_ref Map.empty)) [1000000000, 2000000000, 12000000000, 70000000000]"

definition demo_service :: "u32 list scaler" where
  "demo_service = NewGPUExternalScaler [90, 60, 10, 20]"

definition demo_trace :: "(cooldown_call \<times> f64) list" where
  "demo_trace = map (\<lambda>(t, x, v). (\<lparr>cc_now = \<lparr>wall = t, mono = Some t\<rparr>,
       cc_key = newCooldownKey (demo_ref Map.empty) default_config, cc_value = f64_of_nat x,
       cc_window = seconds 60\<rparr>, f64_of_nat v))
     [(1000000000, 90, 90), (2000000000, 60, 60), (12000000000, 10, 60), (70000000000, 20, 20)]"

lemma demo_cooldown: "cooldownSeconds default_config = 60" "metricName default_config = ''keda_gpu_metric''"
  by (simp_all add: default_config_def)

lemma demo_trace_eq: "metrics_trace scripted demo_calls demo_service = demo_trace"
  by (simp add: demo_calls_def demo_service_def demo_trace_def demo_env_def NewGPUExternalScaler_def
      GetMetrics_def parse_empty scripted_read demo_ref_def [of Map.empty] demo_cooldown
      applyCooldown_def seconds_max nanos_per_second_def is_zero_time_def zero_time_def time_sub_def saturate64_def
      min_int64_def max_int64_def)

abbreviation demo_series :: cooldown_key where
  "demo_series \<equiv> newCooldownKey (demo_ref Map.empty) default_config"

lemma demo_state: "cooldowns demo_scaler = Map.empty"
  by (simp add: demo_scaler_def NewGPUExternalScaler_def)

lemma demo_reachable: "scaler_reachable mock_ops demo_scaler"
  unfolding demo_scaler_def by (rule scaler_reachable.start)

text \<open>A scaler that has served an object scaled on the vLLM queue depth.\<close>

definition vllm_md :: metadata where
  "vllm_md = [''metricType'' \<mapsto> MetricVLLMQueueDepth, ''vllmEndpoint'' \<mapsto> ''http://v:80'']"

definition vllm_config :: scaler_config where
  "vllm_config = default_config\<lparr>metricType := MetricVLLMQueueDepth, vllmEndpoint := ''http://v:80''\<rparr>"

lemma demo_endpoint: "validateVLLMEndpoint ''http://v:80'' = Inr ()"
  by code_simp

lemma parse_vllm_md: "parseMetadata vllm_md = Inr vllm_config"
  by (simp add: parse_Inr_iff well_formed_keys_def key_ok_def effective_config_def key_or_def vllm_md_def
      vllm_config_def from_profile_def default_config_def endpoints_ok_def IsVLLMMetric_def IsTritonMetric_def
      ValidMetricType_def demo_endpoint metric_type_defs)

definition demo_vllm_scaler :: "mock_collector scaler" where
  "demo_vllm_scaler = snd (IsActive mock_ops (demo_env 1) (demo_ref vllm_md) demo_scaler)"

lemma demo_vllm_reachable: "scaler_reachable mock_ops demo_vllm_scaler"
  unfolding demo_vllm_scaler_def by (rule scaler_reachable.step [OF demo_reachable scaler_step.is_active])

lemma demo_vllm_client: "vllmClients demo_vllm_scaler ''http://v:80'' = Some (NewClient_vllm ''http://v:80'')"
  by (simp add: demo_vllm_scaler_def IsActive_def demo_ref_def parse_vllm_md getMetricValue_def vllm_config_def
      default_config_def IsVLLMMetric_def getVLLMMetricValue_def getVLLMClient_def demo_scaler_def NewGPUExternalScaler_def)

definition vllm_env :: call_env where
  "vllm_env = (demo_env 1)\<lparr>http_get := \<lambda>_. Reply 200 (sample_line MetricQueueDepth ''model=a'' 7) None\<rparr>"

lemma vllm_env_scrape:
  "\<exists>m. Scrape_vllm (http_get vllm_env u) = Inr m \<and> HasQueueDepth m \<and> QueueDepth m = f64_of_nat 7"
proof -
  define l where "l = sample_line MetricQueueDepth ''model=a'' 7"
  have name: "metric_name MetricQueueDepth" "hd MetricQueueDepth \<noteq> CHR ''#''" "char_of (10::nat) \<notin> set ''model=a''"
    by (simp_all add: metric_name_def plain_def byte_def char_of_def MetricQueueDepth_def)
  note tok = sample_line_token [OF name(1,3), of 7, folded l_def]
  have "length l < max_token"
    by (simp add: l_def sample_line_def max_token_def format_uint.simps [of 7] MetricQueueDepth_def)
  then have sc: "scan_lines l None = ([l], None)" using tok by (simp add: scan_lines_def)
  have "(7::nat) \<le> 2 ^ 1023" by (rule le_53_1023) simp
  then have "parseLine_vllm l = Some (MetricQueueDepth, f64_of_nat 7)"
    using sample_line_labels [OF name(1), of "''model=a''" "[]" 7] by (simp add: l_def sample_line_def)
  moreover have "hd l \<noteq> CHR ''#''" using name by (simp add: l_def sample_line_def metric_name_def)
  ultimately show ?thesis
    using sc tok(3) by (simp add: vllm_env_def Scrape_vllm_def parseMetrics_vllm_def status_ok_def
        vllm_line_def set_vllm_metric_def l_def [symmetric])
qed

lemma vllm_env_read:
  "fst (getMetricValue mock_ops vllm_env vllm_config demo_scaler) = Inr (f64_of_nat 7)"
  using vllm_env_scrape [of "''http://v:80''"]
  by (auto simp: getMetricValue_def vllm_config_def default_config_def IsVLLMMetric_def getVLLMMetricValue_def
      getVLLMClient_def NewClient_vllm_def demo_scaler_def NewGPUExternalScaler_def vllm_value_def)

end
