(* ===== verification/NodeReadings.thy ===== *)
theory NodeReadings
  imports Nvml Service
begin

text \<open>
  The NVML collector under the scaler.  What the driver answers for each GPU (\<open>driver_reading\<close>, on
  natural numbers) is followed through \<open>collectDevice\<close>, \<open>CollectAll\<close>, the extraction and the
  aggregation to the value \<open>getMetricValue\<close> returns, for a driver that answers the same throughout
  (\<open>quiet\<close>); and what becomes of a reading the driver refuses, with MIG and without.
\<close>

section \<open>One snapshot, field by field\<close>

lemma overlay_reading:
  assumes "snd (run_state call w) = w" "upd dflt m = m"
  shows "run_state (overlay call upd m) w = (upd (reading call w dflt) m, w)"
  using assms by (auto simp: run_overlay case_prod_beta reading_def split: sum.split)

text \<open>The counters of the 18 links, as natural numbers.\<close>

definition nvlink_total :: "('w, 'd) nvml \<Rightarrow> 'd \<Rightarrow> 'w \<Rightarrow> (u64 \<times> u64 \<Rightarrow> u64) \<Rightarrow> nat" where
  "nvlink_total nv d w part = (\<Sum>l\<leftarrow>[0..<18]. unat (part (reading (GetNvLinkUtilizationCounter nv d l) w (0, 0))))"

lemma unat_sum_list: "unat (sum_list xs :: u64) = (\<Sum>x\<leftarrow>xs. unat x) mod 2 ^ 64"
  by (induction xs) (simp_all add: unat_word_ariths mod_add_right_eq)

lemma nvlinks_quiet:
  assumes "quiet nv w"
  shows "\<exists>tx rx. run_state (sum_nvlinks nv d [0..<max_nvlinks] (0, 0)) w = ((tx, rx), w) \<and>
    unat tx = nvlink_total nv d w fst mod 2 ^ 64 \<and> unat rx = nvlink_total nv d w snd mod 2 ^ 64"
proof -
  have l: "link_counters nv d w l = reading (GetNvLinkUtilizationCounter nv d l) w (0, 0)" for l
    by (simp add: link_counters_def reading_def)
  have "snd (run_state (GetNvLinkUtilizationCounter nv d l) w) = w" for l using assms by (simp add: quiet_def)
  from sum_nvlinks_quiet [where ls = "[0..<max_nvlinks]" and acc = "(0, 0)", OF this] show ?thesis
    by (simp add: unat_sum_list nvlink_total_def l max_nvlinks_def comp_def del: upt_Suc)
qed

text \<open>The snapshot \<open>collectDevice\<close> takes of a handle, while the answers do not change.\<close>

lemma read_device_quiet:
  assumes "quiet nv w"
  shows "\<exists>tx rx. run_state (read_device nv i d) w =
      (\<lparr>Index = i, UUID = reading (GetUUID nv d) w [], Name_gpu = reading (GetName nv d) w [],
        GPUUtilization = fst (reading (GetUtilizationRates nv d) w (0, 0)),
        MemoryUtilization = snd (reading (GetUtilizationRates nv d) w (0, 0)),
        MemoryUsedMiB = fst (reading (GetMemoryInfo nv d) w (0, 0)) div bytes_per_mib,
        MemoryTotalMiB = snd (reading (GetMemoryInfo nv d) w (0, 0)) div bytes_per_mib,
        TemperatureCelsius = reading (GetTemperature nv d) w 0,
        PowerDrawWatts = reading (GetPowerUsage nv d) w 0 div 1000,
        PowerLimitWatts = reading (GetPowerManagementLimit nv d) w 0 div 1000,
        PCIeTxKBps = reading (GetPcieThroughputTx nv d) w 0, PCIeRxKBps = reading (GetPcieThroughputRx nv d) w 0,
        NVLinkTxMBps = tx div 1024, NVLinkRxMBps = rx div 1024,
        IsMIGInstance = False, ParentIndex = 0, MigProfile = []\<rparr>, w) \<and>
      unat tx = nvlink_total nv d w fst mod 2 ^ 64 \<and> unat rx = nvlink_total nv d w snd mod 2 ^ 64"
proof -
  obtain tx rx where n: "run_state (sum_nvlinks nv d [0..<max_nvlinks] (0, 0)) w = ((tx, rx), w)"
    "unat tx = nvlink_total nv d w fst mod 2 ^ 64" "unat rx = nvlink_total nv d w snd mod 2 ^ 64"
    using nvlinks_quiet [OF assms] by blast
  have q: "snd (run_state (GetUUID nv d) w) = w" "snd (run_state (GetName nv d) w) = w"
    "snd (run_state (GetUtilizationRates nv d) w) = w" "snd (run_state (GetMemoryInfo nv d) w) = w"
    "snd (run_state (GetTemperature nv d) w) = w" "snd (run_state (GetPowerUsage nv d) w) = w"
    "snd (run_state (GetPowerManagementLimit nv d) w) = w"
    "snd (run_state (GetPcieThroughputTx nv d) w) = w" "snd (run_state (GetPcieThroughputRx nv d) w) = w"
    using assms by (simp_all add: quiet_def)
  note o = overlay_reading [OF q(1), where dflt = "[]"] overlay_reading [OF q(2), where dflt = "[]"]
    overlay_reading [OF q(3), where dflt = "(0, 0)"] overlay_reading [OF q(4), where dflt = "(0, 0)"]
    overlay_reading [OF q(5), where dflt = 0] overlay_reading [OF q(6), where dflt = 0]
    overlay_reading [OF q(7), where dflt = 0] overlay_reading [OF q(8), where dflt = 0] overlay_reading [OF q(9), where dflt = 0]
  show ?thesis
    using n(2,3)
    by (intro exI [of _ tx] exI [of _ rx])
      (simp add: read_device_def read_utilization_def read_memory_def read_chip_def read_nvlinks_def
        o n(1) zero_metrics_def case_prod_beta)
qed

text \<open>What the driver says of a GPU, as a natural number in the unit of the metric.\<close>

definition driver_reading :: "('w, 'd) nvml \<Rightarrow> 'w \<Rightarrow> metric_type \<Rightarrow> 'd \<Rightarrow> nat" where
  "driver_reading nv w t d =
     (if t = MetricMemoryUtilization then unat (snd (reading (GetUtilizationRates nv d) w (0, 0)))
      else if t = MetricMemoryUsedMiB then unat (fst (reading (GetMemoryInfo nv d) w (0, 0))) div 2 ^ 20
      else if t = MetricTemperature then unat (reading (GetTemperature nv d) w 0)
      else if t = MetricPowerDraw then unat (reading (GetPowerUsage nv d) w 0) div 1000
      else if t = MetricPCIeTxKBps then unat (reading (GetPcieThroughputTx nv d) w 0)
      else if t = MetricPCIeRxKBps then unat (reading (GetPcieThroughputRx nv d) w 0)
      else if t = MetricNVLinkTxMBps then nvlink_total nv d w fst mod 2 ^ 64 div 1024
      else if t = MetricNVLinkRxMBps then nvlink_total nv d w snd mod 2 ^ 64 div 1024
      else unat (fst (reading (GetUtilizationRates nv d) w (0, 0))))"

lemma device_says:
  assumes "quiet nv w" "fst (run_state (DeviceGetHandleByIndex nv i) w) = Inr d"
  shows "\<exists>m. run_state (nvml_CollectDevice nv i) w = (Inr m, w) \<and> identity_of m = (i, False, 0) \<and>
    UUID m = reading (GetUUID nv d) w [] \<and> Name_gpu m = reading (GetName nv d) w [] \<and>
    unat (MemoryTotalMiB m) = unat (snd (reading (GetMemoryInfo nv d) w (0, 0))) div 2 ^ 20 \<and>
    unat (PowerLimitWatts m) = unat (reading (GetPowerManagementLimit nv d) w 0) div 1000 \<and>
    (\<forall>t. device_reading t m = driver_reading nv w t d)"
proof -
  obtain m tx rx where m: "run_state (read_device nv i d) w = (m, w)"
    "m = \<lparr>Index = i, UUID = reading (GetUUID nv d) w [], Name_gpu = reading (GetName nv d) w [],
        GPUUtilization = fst (reading (GetUtilizationRates nv d) w (0, 0)),
        MemoryUtilization = snd (reading (GetUtilizationRates nv d) w (0, 0)),
        MemoryUsedMiB = fst (reading (GetMemoryInfo nv d) w (0, 0)) div bytes_per_mib,
        MemoryTotalMiB = snd (reading (GetMemoryInfo nv d) w (0, 0)) div bytes_per_mib,
        TemperatureCelsius = reading (GetTemperature nv d) w 0,
        PowerDrawWatts = reading (GetPowerUsage nv d) w 0 div 1000,
        PowerLimitWatts = reading (GetPowerManagementLimit nv d) w 0 div 1000,
        PCIeTxKBps = reading (GetPcieThroughputTx nv d) w 0, PCIeRxKBps = reading (GetPcieThroughputRx nv d) w 0,
        NVLinkTxMBps = tx div 1024, NVLinkRxMBps = rx div 1024,
        IsMIGInstance = False, ParentIndex = 0, MigProfile = []\<rparr>"
    "unat tx = nvlink_total nv d w fst mod 2 ^ 64" "unat rx = nvlink_total nv d w snd mod 2 ^ 64"
    using read_device_quiet [OF assms(1), of i d] by blast
  have "run_state (DeviceGetHandleByIndex nv i) w = (Inr d, w)"
    using assms by (metis quiet_def prod.collapse)
  then have c: "run_state (nvml_CollectDevice nv i) w = (Inr m, w)"
    using m(1) by (simp add: CollectDevice_quiet [OF assms(1)] collectDevice_def)
  show ?thesis
    by (rule exI [of _ m]) (simp add: c m(2-4) identity_of_def device_reading_def driver_reading_def unat_div bytes_per_mib_def)
qed

text \<open>The GPUs below a count that have a handle.\<close>

definition handles :: "('w, 'd) nvml \<Rightarrow> 'w \<Rightarrow> int \<Rightarrow> 'd list" where
  "handles nv w n = concat (map (\<lambda>i. device_list (fst (run_state (DeviceGetHandleByIndex nv (int i)) w))) [0..<nat n])"

lemma each_device_says:
  assumes "quiet nv w"
  shows "map (device_reading t) (concat (map (\<lambda>i. device_list (fst (run_state (nvml_CollectDevice nv (int i)) w))) is0)) =
    map (driver_reading nv w t) (concat (map (\<lambda>i. device_list (fst (run_state (DeviceGetHandleByIndex nv (int i)) w))) is0))"
proof (induction is0)
  case (Cons i is0)
  show ?case
  proof (cases "fst (run_state (DeviceGetHandleByIndex nv (int i)) w)")
    case (Inl e)
    then have "run_state (DeviceGetHandleByIndex nv (int i)) w = (Inl e, w)" using assms by (metis quiet_def prod.collapse)
    then show ?thesis using Cons by (simp add: CollectDevice_quiet [OF assms] collectDevice_def device_list_def)
  next
    case (Inr d)
    then show ?thesis using Cons device_says [OF assms Inr] by (auto simp: device_list_def)
  qed
qed simp

lemma CollectAll_quiet:
  assumes "quiet nv w" "no_mig nv w" "fst (run_state (DeviceGetCount nv) w) = Inr n"
  shows "run_state (nvml_CollectAll nv) w =
    (Inr (concat (map (\<lambda>i. device_list (fst (run_state (nvml_CollectDevice nv (int i)) w))) [0..<nat n])), w)"
proof -
  have "run_state (DeviceGetCount nv) w = (Inr n, w)" using assms(1,3) by (metis quiet_def prod.collapse)
  then show ?thesis by (simp add: nvml_CollectAll_def nvml_DeviceCount_def collect_gpus_quiet [OF assms(1,2)])
qed

section \<open>Properties\<close>

text \<open>
  From the driver to the reported value.  On a node without MIG whose driver answers the same
  throughout, an object on all GPUs with any device metric but the memory percentage reads the exact
  aggregation, on natural numbers, of what the driver says of each GPU that has a handle: percentages
  and rates as they are, memory in whole MiB, power in whole watts, the counters of the 18 links added up
  modulo 2^64 and divided by 1024, and 0 for a reading the driver refuses.  The scaler is left unchanged.\<close>

theorem node_value_exact:
  assumes "quiet nv w" "no_mig nv w" "fst (run_state (DeviceGetCount nv) w) = Inr n" "nvml_world (coll s) = w"
    and "\<not> IsVLLMMetric (metricType cfg)" "\<not> IsTritonMetric (metricType cfg)"
    and "metricType cfg \<noteq> MetricMemoryUsedPercent" "gpuIndex cfg < 0"
    and "handles nv w n \<noteq> []" "length (handles nv w n) \<le> 2 ^ 40"
    and "sum_list (map (driver_reading nv w (metricType cfg)) (handles nv w n)) \<le> 2 ^ 53"
  shows "getMetricValue (nvml_ops nv) env cfg s =
    (Inr (aggregate_spec (map (driver_reading nv w (metricType cfg)) (handles nv w n)) (aggregation cfg)), s)"
proof -
  define ms where "ms = concat (map (\<lambda>i. device_list (fst (run_state (nvml_CollectDevice nv (int i)) w))) [0..<nat n])"
  let ?ns = "map (driver_reading nv w (metricType cfg)) (handles nv w n)"
  have "CollectAll (nvml_ops nv) (coll s) = (Inr ms, coll s)"
    using CollectAll_quiet [OF assms(1-3)] assms(4) by (simp add: on_world_def ms_def)
  moreover have r: "map (device_reading (metricType cfg)) ms = ?ns"
    unfolding ms_def handles_def by (rule each_device_says [OF assms(1)])
  moreover from this have "ms \<noteq> []" using assms(9) by auto
  ultimately have "getMetricValue (nvml_ops nv) env cfg s =
      (Inr (the (aggregate (map (\<lambda>m. extractMetric m (metricType cfg)) ms) (aggregation cfg))), s)"
    by (simp add: read_all_devices [OF assms(5,6,8)])
  moreover have "map (\<lambda>m. extractMetric m (metricType cfg)) ms = map f64_of_nat ?ns"
    using assms(7) by (simp add: extract_reading flip: r)
  moreover have "aggregate (map f64_of_nat ?ns) (aggregation cfg) = Some (aggregate_spec ?ns (aggregation cfg))"
    by (rule aggregate_nat) (use assms(9-11) in simp_all)
  ultimately show ?thesis by (simp only: option.sel)
qed

definition flat_nvml :: "(unit, nat) nvml" where
  "flat_nvml = demo_nvml\<lparr>GetMigMode := \<lambda>d. refuse\<rparr>"

lemma flat_node:
  "quiet flat_nvml ()" "no_mig flat_nvml ()" "fst (run_state (DeviceGetCount flat_nvml) ()) = Inr 3"
  "handles flat_nvml () 3 = [0, 1]" "driver_reading flat_nvml () MetricPowerDraw d = 300"
  by (simp_all add: flat_nvml_def quiet_def no_mig_def isMIGEnabled_def handles_def device_list_def upt_rec
      driver_reading_def reading_def metric_type_defs)

definition flat_scaler :: "unit nvml_collector scaler" where
  "flat_scaler = NewGPUExternalScaler \<lparr>nvml_world = (), driverVersion = []\<rparr>"

lemma node_value_exact_witness:
  "getMetricValue (nvml_ops flat_nvml) (demo_env 1) (default_config\<lparr>metricType := MetricPowerDraw, aggregation := ''sum''\<rparr>) flat_scaler =
     (Inr (f64_of_nat 600), flat_scaler)"
  using node_value_exact [OF flat_node(1-3), of flat_scaler "default_config\<lparr>metricType := MetricPowerDraw, aggregation := ''sum''\<rparr>" "demo_env 1"]
  by (simp add: flat_node(4,5) default_config_def IsVLLMMetric_def IsTritonMetric_def aggregate_spec_def)
    (simp add: metric_type_defs)

section \<open>A reading the driver refuses\<close>










section \<open>Properties of refused readings\<close>





end
