(* ===== verification/Daemon.thy ===== *)
theory Daemon
  imports Health Factory NodeReadings
begin

text \<open>
  The command \<open>cmd/keda-gpu-scaler\<close>: how it chooses and wraps its collector, when it counts
  as ready, and the running service, as functions; \<open>Lifecycle\<close> adds the other goroutines.  Whether the
  gRPC port can be opened is an argument.
\<close>

section \<open>Values of the interface type\<close>

text \<open>Dynamic dispatch: a variable of the interface type that holds one of two implementations.\<close>

fun on_sum :: "('a \<Rightarrow> 'r \<times> 'a) \<Rightarrow> ('b \<Rightarrow> 'r \<times> 'b) \<Rightarrow> 'a + 'b \<Rightarrow> 'r \<times> ('a + 'b)" where
  "on_sum f g (Inl a) = apsnd Inl (f a)"
| "on_sum f g (Inr b) = apsnd Inr (g b)"

definition dispatch :: "'a metrics_collector \<Rightarrow> 'b metrics_collector \<Rightarrow> ('a + 'b) metrics_collector" where
  "dispatch A B = \<lparr>CollectAll = on_sum (CollectAll A) (CollectAll B),
     CollectDevice = (\<lambda>i. on_sum (CollectDevice A i) (CollectDevice B i)),
     CollectByUUID = (\<lambda>u. on_sum (CollectByUUID A u) (CollectByUUID B u)),
     DeviceCount = on_sum (DeviceCount A) (DeviceCount B),
     DriverVersion = case_sum (DriverVersion A) (DriverVersion B),
     Close = on_sum (Close A) (Close B)\<rparr>"

type_synonym 'w base_collector = "mock_collector + 'w nvml_collector"
type_synonym 'w daemon_collector = "'w base_collector + 'w base_collector instrumented"

definition base_ops :: "('w, 'd) nvml \<Rightarrow> 'w base_collector metrics_collector" where
  "base_ops nv = dispatch mock_ops (nvml_ops nv)"

definition daemon_ops ::
  "('w, 'd) nvml \<Rightarrow> ('w base_collector \<Rightarrow> gotime) \<Rightarrow> 'w daemon_collector metrics_collector" where
  "daemon_ops nv now = dispatch (base_ops nv) (wrap_ops now (base_ops nv))"

section \<open>Starting\<close>

record daemon_flags =
  port :: int
  metricsPort :: int
  probePort :: int
  healthCheckInterval :: duration
  showVersion_daemon :: bool
  mockGPUs :: int
  mockGPUUtilization :: int
  logLevel :: string
  args_daemon :: "string list"

datatype fatal =
    BadMockUtilization int
  | CollectorFatal factory_error
  | CountFatal gpu_error
  | ListenFatal string
  | MakePanic
  | LoggerPanic string
  | ProbeServerFailed string
  | MetricsServerFailed string
  | ServeFailed string
  | HandlerPanic scaler_error

definition choose_collector ::
  "('w, 'd) nvml \<Rightarrow> (string \<Rightarrow> bool) \<Rightarrow> daemon_flags \<Rightarrow> 'w \<Rightarrow> (fatal, 'w base_collector) result" where
  "choose_collector nv exists fl w =
     (if 0 < mockGPUs fl then
        (if mockGPUUtilization fl < 0 \<or> 100 < mockGPUUtilization fl
         then Inl (BadMockUtilization (mockGPUUtilization fl))
         else (case NewMockDevices (mockGPUs fl) (word_of_int (mockGPUUtilization fl)) of
                 None \<Rightarrow> Inl MakePanic
               | Some ds \<Rightarrow> Inr (Inl (NewMockCollector ds))))
      else (case NewDetectedCollector nv exists w of
              Inl e \<Rightarrow> Inl (CollectorFatal e)
            | Inr c \<Rightarrow> Inr (Inr c)))"

definition instrument :: "daemon_flags \<Rightarrow> 'w base_collector \<Rightarrow> 'w daemon_collector" where
  "instrument fl c = (if 0 < metricsPort fl then Inr (Wrap c) else Inl c)"

record 's daemon =
  daemon_scaler :: "'s scaler"
  daemon_probe :: probe_state
  daemon_checker :: checker

text \<open>
  From the device count to the services: a failed count is fatal, a failed first collection only
  leaves the daemon not ready.
\<close>

definition start_service ::
  "'s metrics_collector \<Rightarrow> daemon_flags \<Rightarrow> string option \<Rightarrow> 's \<Rightarrow> (fatal, 's daemon) result" where
  "start_service C fl listen_err c = (case DeviceCount C c of
     (Inl e, c1) \<Rightarrow> Inl (CountFatal e)
   | (Inr n, c1) \<Rightarrow> (case CollectAll C c1 of
       (r, c2) \<Rightarrow>
         (let probe = (case r of Inl _ \<Rightarrow> \<lparr>ready = False\<rparr> | Inr ms \<Rightarrow> MarkReady \<lparr>ready = False\<rparr>)
          in (case listen_err of
                Some e \<Rightarrow> Inl (ListenFatal e)
              | None \<Rightarrow> Inr \<lparr>daemon_scaler = NewGPUExternalScaler c2, daemon_probe = probe,
                  daemon_checker = New_checker (healthCheckInterval fl)\<rparr>))))"

datatype 'w daemon_outcome =
    DaemonVersion string
  | Fatal fatal
  | Serving "'w daemon_collector daemon"

definition daemon_main ::
  "build_info \<Rightarrow> ('w, 'd) nvml \<Rightarrow> ('w base_collector \<Rightarrow> gotime) \<Rightarrow> (string \<Rightarrow> bool) \<Rightarrow> string option
     \<Rightarrow> daemon_flags \<Rightarrow> 'w \<Rightarrow> 'w daemon_outcome" where
  "daemon_main build nv now exists listen_err fl w =
     (if Requested (showVersion_daemon fl) (args_daemon fl) then DaemonVersion (String_version build ''keda-gpu-scaler'')
      else (case choose_collector nv exists fl w of
              Inl e \<Rightarrow> Fatal e
            | Inr c \<Rightarrow> (case start_service (daemon_ops nv now) fl listen_err (instrument fl c) of
                Inl e \<Rightarrow> Fatal e
              | Inr d \<Rightarrow> Serving d)))"

section \<open>Serving\<close>

text \<open>
  The steps of the running daemon: a step of the scaler's handlers, or a check of the health
  checker, which counts the devices of the same collector.
\<close>

inductive daemon_step :: "'s metrics_collector \<Rightarrow> 's daemon \<Rightarrow> 's daemon \<Rightarrow> bool"
  for C :: "'s metrics_collector" where
  serve: "scaler_step C (daemon_scaler d) s' \<Longrightarrow> daemon_step C d (d\<lparr>daemon_scaler := s'\<rparr>)"
| check: "Check C (daemon_checker d, coll (daemon_scaler d)) = (st, eff, c', k') \<Longrightarrow>
     daemon_step C d (d\<lparr>daemon_scaler := (daemon_scaler d)\<lparr>coll := k'\<rparr>, daemon_checker := c'\<rparr>)"

inductive daemon_reaches :: "'s metrics_collector \<Rightarrow> 's daemon \<Rightarrow> 's daemon \<Rightarrow> bool"
  for C :: "'s metrics_collector" and d :: "'s daemon" where
  start: "daemon_reaches C d d"
| more: "daemon_reaches C d d' \<Longrightarrow> daemon_step C d' d'' \<Longrightarrow> daemon_reaches C d d''"

inductive_cases daemon_stepE: "daemon_step C d d'"

section \<open>Facts\<close>

lemma on_sum_view:
  "fst (on_sum f g (Inl a)) = fst (f a)" "snd (on_sum f g (Inl a)) = Inl (snd (f a))"
  "fst (on_sum f g (Inr b)) = fst (g b)" "snd (on_sum f g (Inr b)) = Inr (snd (g b))"
  by simp_all

lemma dispatch_simps [simp]:
  "CollectAll (dispatch A B) = on_sum (CollectAll A) (CollectAll B)"
  "CollectDevice (dispatch A B) i = on_sum (CollectDevice A i) (CollectDevice B i)"
  "CollectByUUID (dispatch A B) u = on_sum (CollectByUUID A u) (CollectByUUID B u)"
  "DeviceCount (dispatch A B) = on_sum (DeviceCount A) (DeviceCount B)"
  "DriverVersion (dispatch A B) = case_sum (DriverVersion A) (DriverVersion B)"
  by (simp_all add: dispatch_def)

text \<open>A variable that holds one of two collectors keeps the contract both keep.\<close>

locale collector_pair =
  first: collector A good_a + second: collector B good_b
  for A :: "'a metrics_collector" and good_a and B :: "'b metrics_collector" and good_b

sublocale collector_pair \<subseteq> either: collector "dispatch A B" "case_sum good_a good_b"
proof
  fix s :: "'a + 'b" and i u m
  note laws = first.inv_all first.inv_device first.inv_uuid first.inv_count
    second.inv_all second.inv_device second.inv_uuid second.inv_count
  show "case_sum good_a good_b s \<Longrightarrow> case_sum good_a good_b (snd (CollectAll (dispatch A B) s))"
    and "case_sum good_a good_b s \<Longrightarrow> case_sum good_a good_b (snd (CollectDevice (dispatch A B) i s))"
    and "case_sum good_a good_b s \<Longrightarrow> case_sum good_a good_b (snd (CollectByUUID (dispatch A B) u s))"
    and "case_sum good_a good_b s \<Longrightarrow> case_sum good_a good_b (snd (DeviceCount (dispatch A B) s))"
    by (cases s; simp add: laws)+
  show "case_sum good_a good_b s \<Longrightarrow> fst (CollectDevice (dispatch A B) i s) = Inr m \<Longrightarrow> Index m = i"
    by (cases s) (simp_all add: first.device_index second.device_index)
  show "DriverVersion (dispatch A B) (snd (CollectAll (dispatch A B) s)) = DriverVersion (dispatch A B) s"
    and "DriverVersion (dispatch A B) (snd (CollectDevice (dispatch A B) i s)) = DriverVersion (dispatch A B) s"
    and "DriverVersion (dispatch A B) (snd (CollectByUUID (dispatch A B) u s)) = DriverVersion (dispatch A B) s"
    and "DriverVersion (dispatch A B) (snd (DeviceCount (dispatch A B) s)) = DriverVersion (dispatch A B) s"
    by (cases s; simp add: first.version_all first.version_device first.version_uuid first.version_count
      second.version_all second.version_device second.version_uuid second.version_count)+
qed

text \<open>The daemon's collector, from its parts.\<close>

interpretation base: collector_pair mock_ops mock_inv "nvml_ops nv" "\<lambda>_. True" for nv
  by unfold_locales

abbreviation base_good :: "'w base_collector \<Rightarrow> bool" where
  "base_good \<equiv> case_sum mock_inv (\<lambda>_. True)"

lemma base_collector: "collector (base_ops nv) base_good"
  unfolding base_ops_def by (rule base.either.collector_axioms)

interpretation base_wrapped: instrumented_collector "base_ops nv" base_good now for nv now
  unfolding instrumented_collector_def by (rule base_collector)

interpretation daemon: collector_pair "base_ops nv" base_good "wrap_ops now (base_ops nv)" "\<lambda>s. base_good (inner s)" for nv now
  by unfold_locales

abbreviation daemon_good :: "'w daemon_collector \<Rightarrow> bool" where
  "daemon_good \<equiv> case_sum base_good (\<lambda>s. base_good (inner s))"

lemma daemon_collector: "collector (daemon_ops nv now) daemon_good"
  unfolding daemon_ops_def by (rule daemon.either.collector_axioms)

text \<open>What the steps keep.\<close>

lemma step_coll:
  assumes "scaler_step C s s'"
  shows "coll s' = coll s \<or> (\<exists>env cfg. coll s' = coll (snd (getMetricValue C env cfg s)))"
  using assms
proof cases
  case (is_active env ref)
  then show ?thesis by (auto simp: IsActive_def Let_def split: sum.splits prod.splits) (metis snd_conv)+
next
  case (get_metrics env req)
  show ?thesis
  proof (cases req)
    case (Some ref)
    show ?thesis unfolding get_metrics Some
    proof (cases rule: GetMetrics_cases [where ref = ref and C = C and env = env and s = s])
      case (parse e)
      then show "coll (snd (GetMetrics C env (Some ref) s)) = coll s \<or>
          (\<exists>env' cfg. coll (snd (GetMetrics C env (Some ref) s)) = coll (snd (getMetricValue C env' cfg s)))" by simp
    next
      case (metric cfg e s')
      then show "coll (snd (GetMetrics C env (Some ref) s)) = coll s \<or>
          (\<exists>env' cfg. coll (snd (GetMetrics C env (Some ref) s)) = coll (snd (getMetricValue C env' cfg s)))"
        by (metis snd_conv)
    next
      case (ok cfg x s' v cds)
      then have "coll (snd (GetMetrics C env (Some ref) s)) = coll (snd (getMetricValue C env cfg s))" by simp
      then show "coll (snd (GetMetrics C env (Some ref) s)) = coll s \<or>
          (\<exists>env' cfg. coll (snd (GetMetrics C env (Some ref) s)) = coll (snd (getMetricValue C env' cfg s)))" by blast
    qed
  qed (simp add: get_metrics GetMetrics_def)
next
  case (tick md cfg env)
  then show ?thesis by blast
qed

context collector
begin

lemma daemon_step_good:
  "daemon_step C d d' \<Longrightarrow> inv (coll (daemon_scaler d)) \<Longrightarrow> inv (coll (daemon_scaler d'))"
proof (induction rule: daemon_step.induct)
  case (serve d s')
  then show ?case using step_coll [OF serve(1)] read_keeps_inv by fastforce
next
  case (check d st eff c' k')
  then show ?case using inv_count Check_effects [OF check(1)] by fastforce
qed

lemma daemon_reaches_good:
  "daemon_reaches C d d' \<Longrightarrow> inv (coll (daemon_scaler d)) \<Longrightarrow> inv (coll (daemon_scaler d'))"
  by (induction rule: daemon_reaches.induct) (auto intro: daemon_step_good)

lemma start_service_good:
  assumes "start_service C fl listen_err c = Inr d" "inv c"
  shows "inv (coll (daemon_scaler d))"
proof -
  obtain n c1 r c2 where "DeviceCount C c = (Inr n, c1)" "CollectAll C c1 = (r, c2)" "coll (daemon_scaler d) = c2"
    using assms(1) by (auto simp: start_service_def NewGPUExternalScaler_def Let_def split: prod.splits sum.splits option.splits)
  then show ?thesis using inv_count [OF assms(2)] inv_all [of c1] by simp
qed

end

lemma step_probe: "daemon_step C d d' \<Longrightarrow> daemon_probe d' = daemon_probe d"
  by (auto elim: daemon_stepE)

lemma reaches_probe: "daemon_reaches C d d' \<Longrightarrow> daemon_probe d' = daemon_probe d"
  by (induction rule: daemon_reaches.induct) (auto dest: step_probe)

lemma daemon_step_vetted: "daemon_step C d d' \<Longrightarrow> clients_vetted (daemon_scaler d) \<Longrightarrow> clients_vetted (daemon_scaler d')"
proof (induction rule: daemon_step.induct)
  case (serve d s')
  then show ?case using step_vetted [OF serve(1)] by simp
qed (simp add: clients_vetted_def)

lemma daemon_reaches_vetted:
  "daemon_reaches C d d' \<Longrightarrow> clients_vetted (daemon_scaler d) \<Longrightarrow> clients_vetted (daemon_scaler d')"
  by (induction rule: daemon_reaches.induct) (auto intro: daemon_step_vetted)

lemma choose_collector_good: "choose_collector nv exists fl w = Inr c \<Longrightarrow> daemon_good (instrument fl c)"
  by (auto simp: choose_collector_def instrument_def Wrap_def mock_devices_inv
      split: if_splits option.splits sum.splits)

lemma daemon_main_serving:
  "daemon_main build nv now exists listen_err fl w = Serving d \<longleftrightarrow>
     \<not> Requested (showVersion_daemon fl) (args_daemon fl) \<and>
     (\<exists>c. choose_collector nv exists fl w = Inr c \<and>
          start_service (daemon_ops nv now) fl listen_err (instrument fl c) = Inr d)"
  by (auto simp: daemon_main_def split: sum.splits)

section \<open>Which GPUs a daemon reads\<close>

text \<open>The collector below the instrumentation.  It is fixed at the start, and so is what a mock holds.\<close>

fun base_of :: "'w daemon_collector \<Rightarrow> 'w base_collector" where
  "base_of (Inl b) = b"
| "base_of (Inr i) = inner i"

definition mock_gpus :: "daemon_flags \<Rightarrow> metrics list" where
  "mock_gpus fl = map (mock_device (word_of_int (mockGPUUtilization fl))) [0..<nat (mockGPUs fl)]"

definition runs_on :: "daemon_flags \<Rightarrow> 'w daemon_collector \<Rightarrow> bool" where
  "runs_on fl k \<longleftrightarrow> (if 0 < mockGPUs fl then base_of k = Inl (NewMockCollector (mock_gpus fl)) else \<exists>c. base_of k = Inr c)"

lemma base_of_ops:
  "base_of (snd (CollectAll (daemon_ops nv now) k)) = snd (CollectAll (base_ops nv) (base_of k))"
  "base_of (snd (CollectDevice (daemon_ops nv now) i k)) = snd (CollectDevice (base_ops nv) i (base_of k))"
  "base_of (snd (CollectByUUID (daemon_ops nv now) u k)) = snd (CollectByUUID (base_ops nv) u (base_of k))"
  "base_of (snd (DeviceCount (daemon_ops nv now) k)) = snd (DeviceCount (base_ops nv) (base_of k))"
  "fst (CollectDevice (daemon_ops nv now) i k) = fst (CollectDevice (base_ops nv) i (base_of k))"
  by (cases k; simp add: daemon_ops_def)+

lemma base_ops_keep:
  "base_of k = Inl m \<Longrightarrow> snd (CollectAll (base_ops nv) (base_of k)) = Inl m \<and> snd (CollectDevice (base_ops nv) i (base_of k)) = Inl m \<and>
     snd (CollectByUUID (base_ops nv) u (base_of k)) = Inl m \<and> snd (DeviceCount (base_ops nv) (base_of k)) = Inl m"
  "base_of k = Inr c \<Longrightarrow> (\<exists>c. snd (CollectAll (base_ops nv) (base_of k)) = Inr c) \<and> (\<exists>c. snd (CollectDevice (base_ops nv) i (base_of k)) = Inr c) \<and>
     (\<exists>c. snd (CollectByUUID (base_ops nv) u (base_of k)) = Inr c) \<and> (\<exists>c. snd (DeviceCount (base_ops nv) (base_of k)) = Inr c)"
  by (simp_all add: base_ops_def)

lemma runs_on_good: "runs_on fl k \<Longrightarrow> daemon_good k"
proof -
  have "mock_inv (NewMockCollector (mock_gpus fl))"
    by (simp add: mock_inv_def NewMockCollector_def mock_gpus_def mock_device_def)
  then show "runs_on fl k \<Longrightarrow> daemon_good k" by (cases k) (auto simp: runs_on_def split: if_splits)
qed

lemma runs_on_collector: "collector (daemon_ops nv now) (runs_on fl)"
proof
  fix k :: "'a daemon_collector" and i u m
  note D = daemon_collector [of nv now]
  show "runs_on fl k \<Longrightarrow> runs_on fl (snd (CollectAll (daemon_ops nv now) k))"
    and "runs_on fl k \<Longrightarrow> runs_on fl (snd (CollectDevice (daemon_ops nv now) i k))"
    and "runs_on fl k \<Longrightarrow> runs_on fl (snd (CollectByUUID (daemon_ops nv now) u k))"
    and "runs_on fl k \<Longrightarrow> runs_on fl (snd (DeviceCount (daemon_ops nv now) k))"
    using base_ops_keep [of k _ nv i u] by (auto simp: runs_on_def base_of_ops split: if_splits)
  show "runs_on fl k \<Longrightarrow> fst (CollectDevice (daemon_ops nv now) i k) = Inr m \<Longrightarrow> Index m = i"
    using collector.device_index [OF D runs_on_good] .
  show "DriverVersion (daemon_ops nv now) (snd (CollectAll (daemon_ops nv now) k)) = DriverVersion (daemon_ops nv now) k"
    and "DriverVersion (daemon_ops nv now) (snd (CollectDevice (daemon_ops nv now) i k)) = DriverVersion (daemon_ops nv now) k"
    and "DriverVersion (daemon_ops nv now) (snd (CollectByUUID (daemon_ops nv now) u k)) = DriverVersion (daemon_ops nv now) k"
    and "DriverVersion (daemon_ops nv now) (snd (DeviceCount (daemon_ops nv now) k)) = DriverVersion (daemon_ops nv now) k"
    by (rule collector.version_all [OF D] collector.version_device [OF D] collector.version_uuid [OF D] collector.version_count [OF D])+
qed

lemma chosen_runs_on:
  assumes "choose_collector nv exists fl w = Inr c"
  shows "runs_on fl (instrument fl c)"
proof -
  have b: "base_of (instrument fl c) = c" by (simp add: instrument_def Wrap_def)
  have "\<not> 100 < (word_of_int u :: u32)" if "\<not> u < 0" "\<not> 100 < u" for u
  proof -
    have "uint (word_of_int u :: u32) = u" using that by (simp add: uint_word_of_int)
    then show ?thesis using that by (simp add: word_less_def)
  qed
  then show ?thesis using assms unfolding runs_on_def b
    by (auto simp: choose_collector_def NewMockDevices_def mock_gpus_def split: if_splits option.splits sum.splits)
qed

lemma nvml_device_says:
  assumes "fst (run_state (nvml_CollectDevice nv i) w) = Inr m"
  shows "\<exists>d w'. fst (run_state (DeviceGetHandleByIndex nv i) w') = Inr d \<and> device_answers nv d m"
proof -
  obtain r w1 where r: "run_state (DeviceGetHandleByIndex nv i) w = (r, w1)" by fastforce
  then obtain w2 where "fst (run_state (collectDevice nv i) w2) = Inr m"
    using assms by (cases r) (auto simp: nvml_CollectDevice_def case_prod_beta)
  then show ?thesis using collectDevice_says [of nv i w2 m] by (metis prod.collapse)
qed

section \<open>A sample daemon\<close>

text \<open>Two synthetic GPUs, instrumented.\<close>

definition demo_flags :: daemon_flags where
  "demo_flags = \<lparr>port = 6000, metricsPort = 9090, probePort = 8081, healthCheckInterval = 0,
     showVersion_daemon = False, mockGPUs = 2, mockGPUUtilization = 80, logLevel = ''info'', args_daemon = []\<rparr>"

definition demo_build :: build_info where
  "demo_build = \<lparr>Version = ''dev'', BuildDate = ''unknown'', runtime_Version = ''go1.26''\<rparr>"

definition demo_mock :: mock_collector where
  "demo_mock = NewMockCollector (map (mock_device 80) [0..<2])"

definition demo_start :: "unit daemon_collector" where
  "demo_start = Inr (Wrap (Inl demo_mock))"

lemma demo_choose: "choose_collector demo_nvml exists demo_flags w = Inr (Inl demo_mock)"
  by (simp add: choose_collector_def demo_flags_def NewMockDevices_def metrics_bytes_def max_alloc_def demo_mock_def)

lemma demo_instrument: "instrument demo_flags (Inl demo_mock) = demo_start"
  by (simp add: instrument_def demo_flags_def demo_start_def)

lemma demo_count: "DeviceCount (daemon_ops demo_nvml now) demo_start = (Inr 2, demo_start)"
  by (simp add: daemon_ops_def base_ops_def demo_start_def Wrap_def delegate_def mock_DeviceCount_def
      demo_mock_def NewMockCollector_def)

lemma demo_collect:
  "\<exists>l. CollectAll (daemon_ops demo_nvml now) demo_start = (Inr (Devices demo_mock), Inr \<lparr>inner = Inl demo_mock, told = l\<rparr>)"
  by (simp add: daemon_ops_def base_ops_def demo_start_def Wrap_def collection_def mock_CollectAll_def)

lemma demo_serving:
  "\<exists>d l. daemon_main demo_build demo_nvml now exists None demo_flags () = Serving d \<and>
     daemon_scaler d = NewGPUExternalScaler (Inr \<lparr>inner = Inl demo_mock, told = l\<rparr>)"
proof -
  obtain l where "CollectAll (daemon_ops demo_nvml now) demo_start = (Inr (Devices demo_mock), Inr \<lparr>inner = Inl demo_mock, told = l\<rparr>)"
    using demo_collect by blast
  moreover have "\<not> Requested (showVersion_daemon demo_flags) (args_daemon demo_flags)"
    by (simp add: Requested_def demo_flags_def)
  ultimately show ?thesis
    using demo_choose [of exists "()"] demo_count [of now]
    by (auto simp: daemon_main_def start_service_def demo_instrument Let_def)
qed

section \<open>Properties\<close>

text \<open>C21
  The right GPU, through all the layers.  In every state the daemon reaches by handler calls and health
  checks, instrumented or not, a device metric that is read for a configured index is the metric of
  that GPU: with \<open>--mock-gpus\<close> an index below their number, and the synthetic device at that position;
  otherwise a snapshot made of NVML's answers for a handle it gave for that index, and as long as its
  answers do not change, exactly what the driver says of that handle.\<close>

theorem daemon_reads_its_gpu:
  assumes "daemon_main build nv now exists listen_err fl w = Serving d"
    and "daemon_reaches (daemon_ops nv now) d d'"
    and "0 \<le> gpuIndex cfg" "\<not> IsVLLMMetric (metricType cfg)" "\<not> IsTritonMetric (metricType cfg)"
    and "getMetricValue (daemon_ops nv now) env cfg (daemon_scaler d') = (Inr v, s')"
  shows "if 0 < mockGPUs fl
    then gpuIndex cfg < mockGPUs fl \<and>
      v = extractMetric (mock_device (word_of_int (mockGPUUtilization fl)) (nat (gpuIndex cfg))) (metricType cfg)
    else \<exists>c. base_of (coll (daemon_scaler d')) = Inr c \<and>
      (\<exists>h w' m. fst (run_state (DeviceGetHandleByIndex nv (gpuIndex cfg)) w') = Inr h \<and> device_answers nv h m \<and>
         v = extractMetric m (metricType cfg)) \<and>
      (quiet nv (nvml_world c) \<and> metricType cfg \<noteq> MetricMemoryUsedPercent \<longrightarrow>
         (\<exists>h. fst (run_state (DeviceGetHandleByIndex nv (gpuIndex cfg)) (nvml_world c)) = Inr h \<and>
            v = f64_of_nat (driver_reading nv (nvml_world c) (metricType cfg) h)))"
proof -
  let ?i = "gpuIndex cfg" and ?k = "coll (daemon_scaler d')"
  obtain c where c: "choose_collector nv exists fl w = Inr c"
    "start_service (daemon_ops nv now) fl listen_err (instrument fl c) = Inr d"
    using assms(1) by (auto simp: daemon_main_serving)
  note C = runs_on_collector [of nv now fl]
  have on: "runs_on fl ?k"
    by (rule collector.daemon_reaches_good [OF C assms(2) collector.start_service_good [OF C c(2) chosen_runs_on [OF c(1)]]])
  obtain m where m: "fst (CollectDevice (base_ops nv) ?i (base_of ?k)) = Inr m" "v = extractMetric m (metricType cfg)"
  proof -
    obtain r k where r: "CollectDevice (daemon_ops nv now) ?i ?k = (r, k)" by fastforce
    then have "fst (CollectDevice (base_ops nv) ?i (base_of ?k)) = r" using base_of_ops(5) [of nv now ?i ?k] by simp
    then show thesis using that r assms(3-6) by (cases r) (auto simp: getMetricValue_def)
  qed
  show ?thesis
  proof (cases "0 < mockGPUs fl")
    case True
    then have "base_of ?k = Inl (NewMockCollector (mock_gpus fl))" using on by (simp add: runs_on_def)
    then show ?thesis using True m assms(3)
      by (auto simp: base_ops_def mock_CollectDevice_def NewMockCollector_def mock_gpus_def split: if_splits)
  next
    case False
    then obtain k where k: "base_of ?k = Inr k" using on by (auto simp: runs_on_def)
    then have r: "fst (run_state (nvml_CollectDevice nv ?i) (nvml_world k)) = Inr m"
      using m(1) by (simp add: base_ops_def on_world_def case_prod_beta)
    have "\<exists>h. fst (run_state (DeviceGetHandleByIndex nv ?i) (nvml_world k)) = Inr h \<and>
        v = f64_of_nat (driver_reading nv (nvml_world k) (metricType cfg) h)"
      if q: "quiet nv (nvml_world k)" "metricType cfg \<noteq> MetricMemoryUsedPercent"
    proof (cases "fst (run_state (DeviceGetHandleByIndex nv ?i) (nvml_world k))")
      case (Inl e)
      then have "run_state (DeviceGetHandleByIndex nv ?i) (nvml_world k) = (Inl e, nvml_world k)"
        using q(1) by (metis quiet_def prod.collapse)
      then show ?thesis using r by (simp add: nvml_CollectDevice_def collectDevice_def)
    next
      case (Inr h)
      then show ?thesis using device_says [OF q(1) Inr] r m(2) extract_reading [OF q(2), of m] by auto
    qed
    moreover have "\<exists>h w' m. fst (run_state (DeviceGetHandleByIndex nv ?i) w') = Inr h \<and> device_answers nv h m \<and> v = extractMetric m (metricType cfg)"
      using nvml_device_says [OF r] m(2) by blast
    ultimately show ?thesis using False k by simp
  qed
qed

lemma daemon_reads_its_gpu_witness:
  "\<exists>d v s'. daemon_main demo_build demo_nvml (\<lambda>_. zero_time) (\<lambda>_. False) None demo_flags () = Serving d \<and>
     getMetricValue (daemon_ops demo_nvml (\<lambda>_. zero_time)) (demo_env 1) (default_config\<lparr>gpuIndex := 1\<rparr>) (daemon_scaler d) = (Inr v, s') \<and>
     v = extractMetric (mock_device 80 1) MetricGPUUtilization"
proof -
  let ?cfg = "default_config\<lparr>gpuIndex := 1\<rparr>" and ?ops = "daemon_ops demo_nvml (\<lambda>_. zero_time)"
  obtain d l where d: "daemon_main demo_build demo_nvml (\<lambda>_. zero_time) (\<lambda>_. False) None demo_flags () = Serving d"
    "daemon_scaler d = NewGPUExternalScaler (Inr \<lparr>inner = Inl demo_mock, told = l\<rparr>)"
    using demo_serving by blast
  have e: "\<not> IsVLLMMetric (metricType ?cfg)" "\<not> IsTritonMetric (metricType ?cfg)" "metricType ?cfg = MetricGPUUtilization"
    by (simp_all add: default_config_def IsVLLMMetric_def IsTritonMetric_def metric_type_defs)
  have "is_ok (fst (getMetricValue ?ops (demo_env 1) ?cfg (daemon_scaler d)))"
    using e unfolding d(2)
    by (simp add: getMetricValue_def case_prod_beta NewGPUExternalScaler_def daemon_ops_def base_ops_def
      mock_CollectDevice_def demo_mock_def NewMockCollector_def)
  then obtain v s' where g: "getMetricValue ?ops (demo_env 1) ?cfg (daemon_scaler d) = (Inr v, s')"
    by (metis is_ok_iff prod.collapse)
  have f: "mockGPUs demo_flags = 2" "mockGPUUtilization demo_flags = 80" "gpuIndex ?cfg = 1" by (simp_all add: demo_flags_def)
  have "0 \<le> gpuIndex ?cfg" by simp
  from daemon_reads_its_gpu [OF d(1) daemon_reaches.start this e(1,2) g]
  have "v = extractMetric (mock_device 80 1) MetricGPUUtilization" by (simp add: f e(3))
  then show ?thesis using d(1) g by blast
qed

text \<open>C22
  Readiness is decided once.  In every state the daemon reaches, \<open>/healthz\<close> answers 200, and
  \<open>/readyz\<close> answers 200 exactly if the collection made at the start succeeded: a daemon whose first
  collection failed answers 503 for ever, however well the GPUs can be read later.\<close>

theorem readiness_is_final:
  assumes "choose_collector nv exists fl w = Inr c"
    and "DeviceCount (daemon_ops nv now) (instrument fl c) = (Inr n, c1)"
    and "daemon_main build nv now exists listen_err fl w = Serving d"
    and "daemon_reaches (daemon_ops nv now) d d'"
  shows "Handler (daemon_probe d') ''/healthz'' = Some 200 \<and>
    Handler (daemon_probe d') ''/readyz'' = Some (if is_ok (fst (CollectAll (daemon_ops nv now) c1)) then 200 else 503)"
proof -
  have "start_service (daemon_ops nv now) fl listen_err (instrument fl c) = Inr d"
    using assms(1,3) by (simp add: daemon_main_serving)
  then have "Ready (daemon_probe d) = is_ok (fst (CollectAll (daemon_ops nv now) c1))"
    by (auto simp: start_service_def assms(2) Let_def MarkReady_def Ready_def split: prod.splits sum.splits option.splits)
  then show ?thesis using reaches_probe [OF assms(4)] by (simp add: Handler_def)
qed

lemma readiness_is_final_witness:
  "\<exists>d. daemon_main demo_build demo_nvml (\<lambda>_. zero_time) (\<lambda>_. False) None demo_flags () = Serving d \<and>
     Handler (daemon_probe d) ''/readyz'' = Some 200"
proof -
  let ?ops = "daemon_ops demo_nvml (\<lambda>_. zero_time)"
  obtain d where d: "daemon_main demo_build demo_nvml (\<lambda>_. zero_time) (\<lambda>_. False) None demo_flags () = Serving d"
    using demo_serving by blast
  have "is_ok (fst (CollectAll ?ops demo_start))" using demo_collect [of "\<lambda>_. zero_time"] by (auto simp: is_ok_iff)
  then show ?thesis
    using d readiness_is_final [OF demo_choose _ d daemon_reaches.start, of 2 demo_start] demo_count
    by (simp add: demo_instrument)
qed

end
