(* ===== verification/Shutdown.thy ===== *)
theory Shutdown
  imports Daemon
begin

text \<open>
  The end of \<open>cmd/keda-gpu-scaler\<close>: the signal, \<open>GracefulStop\<close>, and the deferred calls of \<open>main\<close>.
  When \<open>Serve\<close> returns is up to the gRPC library: \<open>ret\<close> says so for a server that was asked to stop
  or not and has some number of calls pending.  Its documentation of \<open>GracefulStop\<close> (no new calls,
  and it blocks until the pending ones are finished) is the hypothesis \<open>graceful\<close>.
\<close>

section \<open>Serving until the end\<close>

datatype life_event = Terminate | CallStarts | CallEnds | StreamStarts | StreamEnds

record running =
  stopping :: bool
  open_calls :: nat
  open_streams :: nat
  checker_runs :: bool

definition serving :: running where
  "serving = \<lparr>stopping = False, open_calls = 0, open_streams = 0, checker_runs = True\<rparr>"

text \<open>
  One event.  The goroutine that waits for the signal takes one: it cancels the checker's context
  and asks the server to stop.  A later signal stays in the channel.
\<close>

definition live_step :: "life_event \<Rightarrow> running \<Rightarrow> running" where
  "live_step e r = (case e of
     Terminate \<Rightarrow> if stopping r then r else r\<lparr>stopping := True, checker_runs := False\<rparr>
   | CallStarts \<Rightarrow> if stopping r then r else r\<lparr>open_calls := open_calls r + 1\<rparr>
   | CallEnds \<Rightarrow> r\<lparr>open_calls := open_calls r - 1\<rparr>
   | StreamStarts \<Rightarrow> if stopping r then r else r\<lparr>open_streams := open_streams r + 1\<rparr>
   | StreamEnds \<Rightarrow> r\<lparr>open_streams := open_streams r - 1\<rparr>)"

definition pending :: "running \<Rightarrow> nat" where
  "pending r = open_calls r + open_streams r"

text \<open>\<open>Serve\<close> over a sequence of events, and whether it has returned.\<close>

fun serve_until :: "(bool \<Rightarrow> nat \<Rightarrow> bool) \<Rightarrow> life_event list \<Rightarrow> running \<Rightarrow> running \<times> bool" where
  "serve_until ret [] r = (r, ret (stopping r) (pending r))"
| "serve_until ret (e # es) r =
     (if ret (stopping r) (pending r) then (r, True) else serve_until ret es (live_step e r))"

text \<open>When \<open>Serve\<close> has returned the deferred calls run: the checker's context is cancelled, and the
  collector is closed; an error of it is only logged.\<close>

definition main_end ::
  "'s metrics_collector \<Rightarrow> (bool \<Rightarrow> nat \<Rightarrow> bool) \<Rightarrow> life_event list \<Rightarrow> 's \<Rightarrow> running \<times> 's option" where
  "main_end C ret es c = (case serve_until ret es serving of
     (r, ended) \<Rightarrow> if ended then (r\<lparr>checker_runs := False\<rparr>, Some (snd (Close C c))) else (r, None))"

definition graceful :: "(bool \<Rightarrow> nat \<Rightarrow> bool) \<Rightarrow> bool" where
  "graceful ret \<longleftrightarrow> (\<forall>stop n. ret stop n \<longleftrightarrow> stop \<and> n = 0)"

section \<open>Facts\<close>

lemma gracefulD: "graceful ret \<Longrightarrow> ret stop n \<longleftrightarrow> stop \<and> n = 0"
  by (simp add: graceful_def)

lemma live_step_simps [simp]:
  "stopping (live_step e r) \<longleftrightarrow> stopping r \<or> e = Terminate"
  "checker_runs (live_step e r) \<longleftrightarrow> checker_runs r \<and> (e = Terminate \<longrightarrow> stopping r)"
  "open_streams (live_step e r) =
     (if e = StreamEnds then open_streams r - 1 else if e = StreamStarts \<and> \<not> stopping r then open_streams r + 1 else open_streams r)"
  "open_calls (live_step e r) =
     (if e = CallEnds then open_calls r - 1 else if e = CallStarts \<and> \<not> stopping r then open_calls r + 1 else open_calls r)"
  by (auto simp: live_step_def split: life_event.split)

text \<open>\<open>Serve\<close> returns at the first moment at which the server is stopping with nothing pending.\<close>

lemma serve_ends:
  assumes "graceful ret"
  shows "snd (serve_until ret es r) \<longleftrightarrow>
    (\<exists>k \<le> length es. stopping (fold live_step (take k es) r) \<and> pending (fold live_step (take k es) r) = 0)"
proof (induction es arbitrary: r)
  case (Cons e es)
  show ?case
  proof (cases "stopping r \<and> pending r = 0")
    case False
    have "(\<exists>k \<le> length (e # es). stopping (fold live_step (take k (e # es)) r) \<and> pending (fold live_step (take k (e # es)) r) = 0) \<longleftrightarrow>
        (\<exists>k \<le> length es. stopping (fold live_step (take k es) (live_step e r)) \<and> pending (fold live_step (take k es) (live_step e r)) = 0)"
      (is "?l \<longleftrightarrow> ?r")
    proof
      assume ?l
      then obtain k where k: "k \<le> Suc (length es)" "stopping (fold live_step (take k (e # es)) r)"
        "pending (fold live_step (take k (e # es)) r) = 0" by auto
      with False show ?r by (cases k) auto
    next
      assume ?r
      then obtain k where "k \<le> length es" "stopping (fold live_step (take k es) (live_step e r))"
        "pending (fold live_step (take k es) (live_step e r)) = 0" by blast
      then show ?l by (intro exI [of _ "Suc k"]) simp
    qed
    then show ?thesis using False Cons.IH by (cases "stopping r") (auto simp: gracefulD [OF assms])
  qed (use gracefulD [OF assms] in auto)
qed (simp add: gracefulD [OF assms])

text \<open>After the signal pending calls can only end.\<close>

lemma stopping_fold:
  "stopping r \<Longrightarrow> stopping (fold live_step es r)"
  "stopping r \<Longrightarrow> open_streams (fold live_step es r) = open_streams r - count_list es StreamEnds"
  "stopping r \<Longrightarrow> open_calls (fold live_step es r) = open_calls r - count_list es CallEnds"
  by (induction es arbitrary: r) auto

lemma count_take: "count_list (take k xs) x \<le> count_list xs x"
  by (metis append_take_drop_id count_list_append le_add1)

lemma stopping_ends:
  assumes "graceful ret" "stopping r"
  shows "snd (serve_until ret es r) \<longleftrightarrow> open_streams r \<le> count_list es StreamEnds \<and> open_calls r \<le> count_list es CallEnds"
proof
  assume "snd (serve_until ret es r)"
  then obtain k where "open_streams r \<le> count_list (take k es) StreamEnds" "open_calls r \<le> count_list (take k es) CallEnds"
    using assms by (auto simp: serve_ends pending_def stopping_fold)
  then show "open_streams r \<le> count_list es StreamEnds \<and> open_calls r \<le> count_list es CallEnds"
    using count_take [of k es StreamEnds] count_take [of k es CallEnds] by simp
next
  assume "open_streams r \<le> count_list es StreamEnds \<and> open_calls r \<le> count_list es CallEnds"
  then show "snd (serve_until ret es r)"
    using assms by (auto simp: serve_ends pending_def stopping_fold intro!: exI [of _ "length es"])
qed

lemma before_signal:
  assumes "graceful ret"
  shows "Terminate \<notin> set pre \<Longrightarrow> \<not> stopping r \<Longrightarrow>
     serve_until ret (pre @ es) r = serve_until ret es (fold live_step pre r) \<and> \<not> stopping (fold live_step pre r)"
proof (induction pre arbitrary: r)
  case (Cons a pre)
  then have "\<not> stopping (live_step a r)" "Terminate \<notin> set pre" by auto
  then show ?case using Cons.IH [of "live_step a r"] Cons.prems(2) by (simp add: gracefulD [OF assms])
qed simp

lemma checker_stays_off: "\<not> checker_runs r \<Longrightarrow> \<not> checker_runs (fst (serve_until ret es r))"
  by (induction ret es r rule: serve_until.induct) auto

section \<open>Properties\<close>

text \<open>C32
  How the daemon ends.  With a server that stops gracefully, \<open>main\<close> does not return before a signal,
  which cancels the checker's context; after it \<open>main\<close> returns, with the collector closed, exactly if
  since the signal as many calls and streams have ended as were pending when it came.  A stream is ended
  by its client only, so one open stream keeps the daemon alive through time and further signals.\<close>

theorem shutdown_waits_for_streams:
  assumes "graceful ret" "Terminate \<notin> set pre" "r = fold live_step pre serving"
  shows "snd (main_end C ret pre c) = None \<and>
    \<not> checker_runs (fst (main_end C ret (pre @ Terminate # post) c)) \<and>
    snd (main_end C ret (pre @ Terminate # post) c) =
      (if open_streams r \<le> count_list post StreamEnds \<and> open_calls r \<le> count_list post CallEnds
       then Some (snd (Close C c)) else None)"
proof -
  have p: "serve_until ret (pre @ es) serving = serve_until ret es r" "\<not> stopping r" for es
    using before_signal [OF assms(1,2), of serving es] assms(3) by (simp_all add: serving_def)
  let ?r = "live_step Terminate r"
  have s: "serve_until ret (pre @ Terminate # post) serving = serve_until ret post ?r"
    using p(1) [of "Terminate # post"] p(2) by (simp add: gracefulD [OF assms(1)])
  have "snd (main_end C ret pre c) = None"
    using p(1) [of "[]"] p(2) by (simp add: main_end_def gracefulD [OF assms(1)])
  moreover have "\<not> checker_runs (fst (serve_until ret post ?r))"
    using p(2) by (intro checker_stays_off) simp
  moreover have "snd (serve_until ret post ?r) \<longleftrightarrow> open_streams r \<le> count_list post StreamEnds \<and> open_calls r \<le> count_list post CallEnds"
    using stopping_ends [OF assms(1), of ?r post] by simp
  ultimately show ?thesis by (auto simp: main_end_def s split: prod.split)
qed

lemma shutdown_waits_for_streams_witness:
  "snd (main_end mock_ops (\<lambda>stop n. stop \<and> n = 0) [StreamStarts, Terminate, Terminate] demo_mock) = None \<and>
   snd (main_end mock_ops (\<lambda>stop n. stop \<and> n = 0) [StreamStarts, Terminate, StreamEnds] demo_mock) = Some (snd (Close mock_ops demo_mock))"
  using shutdown_waits_for_streams [of "\<lambda>stop n. stop \<and> n = 0" "[StreamStarts]" _ mock_ops demo_mock "[Terminate]"]
    shutdown_waits_for_streams [of "\<lambda>stop n. stop \<and> n = 0" "[StreamStarts]" _ mock_ops demo_mock "[StreamEnds]"]
  by (simp add: graceful_def serving_def)

end
