(* ===== verification/Lifecycle.thy ===== *)
theory Lifecycle
  imports Shutdown
begin

text \<open>
  The daemon as a process.  \<open>main\<close> advances step by step, from the logger to \<open>Serve\<close>, while the
  goroutines it has started run: the probe server, the metrics server, the one that waits for the
  signal, the health checker, and the handlers.  A failed listener or a failed \<open>Serve\<close> is fatal:
  \<open>logger.Fatal\<close> exits the process at once, without the deferred calls.  A signal before
  \<open>signal.Notify\<close> has Go's default effect, which is the same.
\<close>

section \<open>The logger\<close>

datatype zap_level = DebugLevel | InfoLevel | WarnLevel | ErrorLevel

datatype zap_encoder = LowercaseLevelEncoder | ISO8601TimeEncoder | SecondsDurationEncoder | ShortCallerEncoder

record encoder_config =
  TimeKey :: string
  LevelKey :: string
  NameKey :: string
  CallerKey :: string
  MessageKey :: string
  StacktraceKey :: string
  EncodeLevel :: zap_encoder
  EncodeTime :: zap_encoder
  EncodeDuration :: zap_encoder
  EncodeCaller :: zap_encoder

record zap_config =
  Level :: zap_level
  Development :: bool
  Encoding :: string
  EncoderConfig :: encoder_config
  OutputPaths :: "string list"
  ErrorOutputPaths :: "string list"

definition zap_level_of :: "string \<Rightarrow> zap_level" where
  "zap_level_of level =
     (if level = ''debug'' then DebugLevel
      else if level = ''warn'' then WarnLevel
      else if level = ''error'' then ErrorLevel
      else InfoLevel)"

definition logger_config :: "string \<Rightarrow> zap_config" where
  "logger_config level =
     \<lparr>Level = zap_level_of level, Development = False, Encoding = ''json'',
      EncoderConfig = \<lparr>TimeKey = ''ts'', LevelKey = ''level'', NameKey = ''logger'', CallerKey = ''caller'',
        MessageKey = ''msg'', StacktraceKey = ''stacktrace'',
        EncodeLevel = LowercaseLevelEncoder, EncodeTime = ISO8601TimeEncoder,
        EncodeDuration = SecondsDurationEncoder, EncodeCaller = ShortCallerEncoder\<rparr>,
      OutputPaths = [''stdout''], ErrorOutputPaths = [''stderr'']\<rparr>"

text \<open>Building the logger is up to the library; an error of it is a panic.\<close>

definition initLogger :: "(zap_config \<Rightarrow> (string, 'l) result) \<Rightarrow> string \<Rightarrow> (fatal, 'l) result" where
  "initLogger build level = map_err LoggerPanic (build (logger_config level))"

section \<open>The process\<close>

datatype 'w ending =
    VersionPrinted string
  | Returned "'w daemon_collector"
  | Died fatal
  | Killed

datatype 'w phase =
    Launched 'w
  | Booted 'w
  | Made "'w daemon_collector"
  | Counted "'w daemon_collector"
  | Tried "'w daemon_collector"
  | Serves running "'w daemon_collector daemon"
  | Exited "'w ending"

text \<open>With the probes' state, the two listeners, and the number of calls of the collector's \<open>Close\<close>.\<close>

record 'w daemon_process =
  phase :: "'w phase"
  probes :: probe_state
  probe_up :: bool
  metrics_up :: bool
  closes :: nat

definition launch :: "'w \<Rightarrow> 'w daemon_process" where
  "launch w = \<lparr>phase = Launched w, probes = \<lparr>ready = False\<rparr>, probe_up = False, metrics_up = False, closes = 0\<rparr>"

definition exits :: "'w daemon_process \<Rightarrow> 'w ending \<Rightarrow> 'w daemon_process" where
  "exits p e = p\<lparr>phase := Exited e\<rparr>"

text \<open>The parameters of a start: the linked version, the logger's library, the driver, clock and files.\<close>

record ('w, 'd, 'l) surroundings =
  linked :: build_info
  zap_build :: "zap_config \<Rightarrow> (string, 'l) result"
  nvml_driver :: "('w, 'd) nvml"
  wall_clock :: "'w base_collector \<Rightarrow> gotime"
  file_exists :: "string \<Rightarrow> bool"
  listen_error :: "string option"

abbreviation process_ops :: "('w, 'd, 'l) surroundings \<Rightarrow> 'w daemon_collector metrics_collector" where
  "process_ops w \<equiv> daemon_ops (nvml_driver w) (wall_clock w)"

text \<open>The next step of \<open>main\<close>, up to \<open>Serve\<close>.\<close>

definition main_step :: "('w, 'd, 'l) surroundings \<Rightarrow> daemon_flags \<Rightarrow> 'w daemon_process \<Rightarrow> 'w daemon_process" where
  "main_step env fl p = (case phase p of
     Launched w \<Rightarrow>
       (if Requested (showVersion_daemon fl) (args_daemon fl)
        then exits p (VersionPrinted (String_version (linked env) ''keda-gpu-scaler''))
        else (case initLogger (zap_build env) (logLevel fl) of
                Inl e \<Rightarrow> exits p (Died e)
              | Inr logger \<Rightarrow> p\<lparr>phase := Booted w, probe_up := 0 < probePort fl\<rparr>))
   | Booted w \<Rightarrow>
       (case choose_collector (nvml_driver env) (file_exists env) fl w of
          Inl e \<Rightarrow> exits p (Died e)
        | Inr c \<Rightarrow> p\<lparr>phase := Made (instrument fl c), metrics_up := 0 < metricsPort fl\<rparr>)
   | Made c \<Rightarrow>
       (case DeviceCount (process_ops env) c of
          (Inl e, c') \<Rightarrow> exits p (Died (CountFatal e))
        | (Inr n, c') \<Rightarrow> p\<lparr>phase := Counted c'\<rparr>)
   | Counted c \<Rightarrow>
       (case CollectAll (process_ops env) c of
          (Inl e, c') \<Rightarrow> p\<lparr>phase := Tried c'\<rparr>
        | (Inr ms, c') \<Rightarrow> p\<lparr>phase := Tried c', probes := MarkReady (probes p)\<rparr>)
   | Tried c \<Rightarrow>
       (case listen_error env of
          Some e \<Rightarrow> exits p (Died (ListenFatal e))
        | None \<Rightarrow> p\<lparr>phase := Serves serving \<lparr>daemon_scaler = NewGPUExternalScaler c, daemon_probe = probes p,
            daemon_checker = New_checker (healthCheckInterval fl)\<rparr>\<rparr>)
   | Serves r d \<Rightarrow> p
   | Exited e \<Rightarrow> p)"

datatype server_error = ErrServerClosed | ServerError string

definition fatal_listener :: "server_error option \<Rightarrow> string option" where
  "fatal_listener err = (case err of Some (ServerError e) \<Rightarrow> Some e | _ \<Rightarrow> None)"

fun starting :: "'w phase \<Rightarrow> bool" where
  "starting (Serves r d) = False"
| "starting (Exited e) = False"
| "starting _ = True"

fun alive :: "'w phase \<Rightarrow> bool" where
  "alive (Exited e) = False"
| "alive _ = True"

text \<open>
  How a call of a handler may fail, and which failures are panics.  The gRPC library does not
  recover a panic of a handler: it ends the process.
\<close>

inductive handler_error :: "'s metrics_collector \<Rightarrow> 's scaler \<Rightarrow> scaler_error \<Rightarrow> bool"
  for C s where
  "fst (IsActive C env ref s) = Inl e \<Longrightarrow> handler_error C s e"
| "GetMetricSpec ref = Inl e \<Longrightarrow> handler_error C s e"
| "fst (GetMetrics C env req s) = Inl e \<Longrightarrow> handler_error C s e"
| "StreamIsActive C ref es s = (sent, Some (Inl e), s') \<Longrightarrow> handler_error C s e"

fun panics :: "scaler_error \<Rightarrow> bool" where
  "panics NilScaledObjectRef = True"
| "panics NonPositiveTicker = True"
| "panics (MetricFailed PercentilePanic) = True"
| "panics _ = False"

inductive process_step ::
  "('w, 'd, 'l) surroundings \<Rightarrow> daemon_flags \<Rightarrow> (bool \<Rightarrow> nat \<Rightarrow> bool) \<Rightarrow> 'w daemon_process \<Rightarrow> 'w daemon_process \<Rightarrow> bool"
  for env fl ret where
  advance: "starting (phase p) \<Longrightarrow> process_step env fl ret p (main_step env fl p)"
| killed: "starting (phase p) \<Longrightarrow> process_step env fl ret p (exits p Killed)"
| life: "phase p = Serves r d \<Longrightarrow> \<not> ret (stopping r) (pending r) \<Longrightarrow>
     process_step env fl ret p (p\<lparr>phase := Serves (live_step e r) d\<rparr>)"
| handlers: "phase p = Serves r d \<Longrightarrow> daemon_step (process_ops env) d d' \<Longrightarrow>
     process_step env fl ret p (p\<lparr>phase := Serves r d'\<rparr>)"
| serve_returns: "phase p = Serves r d \<Longrightarrow> ret (stopping r) (pending r) \<Longrightarrow>
     process_step env fl ret p
       (p\<lparr>phase := Exited (Returned (snd (Close (process_ops env) (coll (daemon_scaler d))))), closes := closes p + 1\<rparr>)"
| serve_fails: "phase p = Serves r d \<Longrightarrow> \<not> stopping r \<Longrightarrow> process_step env fl ret p (exits p (Died (ServeFailed e)))"
| handler_panics: "phase p = Serves r d \<Longrightarrow> 0 < pending r \<Longrightarrow> handler_error (process_ops env) (daemon_scaler d) e \<Longrightarrow>
     panics e \<Longrightarrow> process_step env fl ret p (exits p (Died (HandlerPanic e)))"
| probe_fails: "probe_up p \<Longrightarrow> alive (phase p) \<Longrightarrow> fatal_listener err = Some e \<Longrightarrow>
     process_step env fl ret p (exits p (Died (ProbeServerFailed e)))"
| metrics_fails: "metrics_up p \<Longrightarrow> alive (phase p) \<Longrightarrow> fatal_listener err = Some e \<Longrightarrow>
     process_step env fl ret p (exits p (Died (MetricsServerFailed e)))"

inductive process_reaches ::
  "('w, 'd, 'l) surroundings \<Rightarrow> daemon_flags \<Rightarrow> (bool \<Rightarrow> nat \<Rightarrow> bool) \<Rightarrow> 'w daemon_process \<Rightarrow> 'w daemon_process \<Rightarrow> bool"
  for env fl ret p where
  here: "process_reaches env fl ret p p"
| onward: "process_reaches env fl ret p q \<Longrightarrow> process_step env fl ret q q' \<Longrightarrow> process_reaches env fl ret p q'"

inductive_cases process_stepE: "process_step env fl ret p q"


section \<open>Facts\<close>

lemma exits_simps [simp]:
  "phase (exits p e) = Exited e" "closes (exits p e) = closes p" "probes (exits p e) = probes p"
  by (simp_all add: exits_def)

lemma alive_iff: "alive ph \<longleftrightarrow> starting ph \<or> (\<exists>r d. ph = Serves r d)"
  by (cases ph) auto

text \<open>The five steps of a start are the start as one function.\<close>

lemma main_step_at:
  "phase p = Launched w \<Longrightarrow> main_step env fl p =
     (if Requested (showVersion_daemon fl) (args_daemon fl)
      then exits p (VersionPrinted (String_version (linked env) ''keda-gpu-scaler''))
      else (case initLogger (zap_build env) (logLevel fl) of
              Inl e \<Rightarrow> exits p (Died e) | Inr logger \<Rightarrow> p\<lparr>phase := Booted w, probe_up := 0 < probePort fl\<rparr>))"
  "phase p = Booted w \<Longrightarrow> main_step env fl p =
     (case choose_collector (nvml_driver env) (file_exists env) fl w of
        Inl e \<Rightarrow> exits p (Died e) | Inr c \<Rightarrow> p\<lparr>phase := Made (instrument fl c), metrics_up := 0 < metricsPort fl\<rparr>)"
  "phase p = Exited e \<Longrightarrow> main_step env fl p = p"
  "phase p = Serves r d \<Longrightarrow> main_step env fl p = p"
  by (simp_all add: main_step_def)

definition count_collect_listen ::
  "('w, 'd, 'l) surroundings \<Rightarrow> daemon_flags \<Rightarrow> 'w daemon_process \<Rightarrow> 'w daemon_process" where
  "count_collect_listen env fl p = main_step env fl (main_step env fl (main_step env fl p))"

lemma count_collect_listen_Exited: "phase p = Exited e \<Longrightarrow> count_collect_listen env fl p = p"
  by (simp add: count_collect_listen_def main_step_at)

lemma service_steps:
  assumes "phase p = Made c" "probes p = \<lparr>ready = False\<rparr>"
  shows "phase (count_collect_listen env fl p) =
    (case start_service (process_ops env) fl (listen_error env) c of
       Inl e \<Rightarrow> Exited (Died e) | Inr d \<Rightarrow> Serves serving d)"
proof -
  obtain r1 c1 where 1: "DeviceCount (process_ops env) c = (r1, c1)" by (cases "DeviceCount (process_ops env) c")
  obtain r2 c2 where 2: "CollectAll (process_ops env) c1 = (r2, c2)" by (cases "CollectAll (process_ops env) c1")
  show ?thesis
    by (cases r1; cases r2; cases "listen_error env")
      (simp_all add: count_collect_listen_def main_step_def start_service_def assms 1 2 exits_def)
qed

lemma daemon_main_steps:
  assumes "initLogger (zap_build env) (logLevel fl) = Inr logger"
  shows "phase ((main_step env fl ^^ 5) (launch w)) =
    (case daemon_main (linked env) (nvml_driver env) (wall_clock env) (file_exists env) (listen_error env) fl w of
       DaemonVersion s \<Rightarrow> Exited (VersionPrinted s) | Fatal e \<Rightarrow> Exited (Died e) | Serving d \<Rightarrow> Serves serving d)"
proof -
  have five: "(main_step env fl ^^ 5) (launch w) = count_collect_listen env fl (main_step env fl (main_step env fl (launch w)))"
    by (simp add: numeral_eq_Suc count_collect_listen_def)
  have l: "phase (launch w) = Launched w" "probes (launch w) = \<lparr>ready = False\<rparr>" by (simp_all add: launch_def)
  show ?thesis
  proof (cases "Requested (showVersion_daemon fl) (args_daemon fl)")
    case True
    then show ?thesis using l by (simp add: five main_step_at count_collect_listen_Exited daemon_main_def)
  next
    case False
    note b = main_step_at(1) [OF l(1), of env fl]
    show ?thesis
    proof (cases "choose_collector (nvml_driver env) (file_exists env) fl w")
      case (Inl e)
      then show ?thesis using False b by (simp add: five main_step_at assms count_collect_listen_Exited daemon_main_def)
    next
      case (Inr c)
      have "daemon_main (linked env) (nvml_driver env) (wall_clock env) (file_exists env) (listen_error env) fl w =
          (case start_service (process_ops env) fl (listen_error env) (instrument fl c) of Inl e \<Rightarrow> Fatal e | Inr d \<Rightarrow> Serving d)"
        using False Inr by (simp add: daemon_main_def)
      then show ?thesis
        using False b Inr l by (simp add: five main_step_at(2) assms service_steps split: sum.split)
    qed
  qed
qed

text \<open>The collector is closed by the return of \<open>main\<close>, and by nothing else.\<close>

lemma main_step_ends:
  "starting (phase p) \<Longrightarrow> closes (main_step env fl p) = closes p \<and> phase (main_step env fl p) \<noteq> Exited (Returned c)"
  by (cases "phase p") (auto simp: main_step_def split: sum.splits option.splits prod.splits)

definition returned :: "'w daemon_process \<Rightarrow> bool" where
  "returned p \<longleftrightarrow> (case phase p of Exited (Returned c) \<Rightarrow> True | _ \<Rightarrow> False)"

lemma returned_iff: "returned p \<longleftrightarrow> (\<exists>c. phase p = Exited (Returned c))"
  by (auto simp: returned_def split: phase.splits ending.splits)

lemma returned_simps [simp]:
  "returned (p\<lparr>phase := Serves r d\<rparr>) \<longleftrightarrow> False"
  "returned (exits p (Died e)) \<longleftrightarrow> False" "returned (exits p Killed) \<longleftrightarrow> False"
  "phase p = Serves r d \<Longrightarrow> returned p \<longleftrightarrow> False" "starting (phase p) \<Longrightarrow> returned p \<longleftrightarrow> False"
  "alive (phase p) \<Longrightarrow> returned p \<longleftrightarrow> False"
  by (auto simp: returned_iff)

lemma closes_step:
  assumes "process_step env fl ret p q" "closes p = (if returned p then 1 else 0)"
  shows "closes q = (if returned q then 1 else 0)"
  using assms
proof cases
  case advance
  then show ?thesis using main_step_ends [of p env fl] assms(2) by (auto simp: returned_iff)
next
  case (serve_returns r d)
  then show ?thesis using assms(2) by (auto simp: returned_iff)
qed (use assms(2) in \<open>simp_all\<close>)

lemma closes_reached:
  "process_reaches env fl ret (launch w) p \<Longrightarrow> closes p = (if returned p then 1 else 0)"
proof (induction rule: process_reaches.induct)
  case here
  then show ?case by (simp add: launch_def returned_def)
next
  case (onward q q')
  then show ?case using closes_step by blast
qed

lemma returns_from:
  assumes "process_reaches env fl ret p q" "\<not> returned p" "phase q = Exited (Returned c)"
  shows "\<exists>q' r d. process_reaches env fl ret p q' \<and> phase q' = Serves r d \<and> ret (stopping r) (pending r) \<and>
    c = snd (Close (process_ops env) (coll (daemon_scaler d)))"
  using assms
proof (induction arbitrary: rule: process_reaches.induct)
  case here
  then show ?case by (simp add: returned_iff)
next
  case (onward q q')
  from onward.hyps(2) show ?case
  proof cases
    case advance
    then show ?thesis using main_step_ends [of q env fl c] onward.prems(2) by simp
  next
    case (serve_returns r d)
    then show ?thesis using onward by auto
  qed (use onward in \<open>auto simp: returned_iff\<close>)
qed

text \<open>Which errors of handlers are panics.\<close>

lemma stream_loop_end: "fst (snd (stream_loop C cfg es s)) = Some (Inl e) \<Longrightarrow> \<not> panics e"
  by (induction C cfg es s rule: stream_loop.induct) (auto split: prod.splits sum.splits option.splits)

lemma read_error_no_panic:
  "fst (getMetricValue C env cfg s) = Inl e \<Longrightarrow> \<not> panics (MetricFailed e)"
  "getMetricValue C env cfg s = (Inl e, s') \<Longrightarrow> \<not> panics (MetricFailed e)"
  using getMetricValue_no_panic [of C env cfg s] by (cases e; auto)+

text \<open>Before a daemon serves it has passed the step that opens its port, with the probes as they are.\<close>

lemma served_after_tried:
  assumes "process_reaches env fl ret (launch w) p" "phase p = Serves r d"
  shows "daemon_probe d = probes p \<and>
    (\<exists>q c. process_reaches env fl ret (launch w) q \<and> process_reaches env fl ret q p \<and> phase q = Tried c \<and> probes q = probes p)"
  using assms
proof (induction arbitrary: r d rule: process_reaches.induct)
  case here
  then show ?case by (simp add: launch_def)
next
  case (onward q q')
  note step = process_reaches.onward [OF _ onward.hyps(2)]
  from onward.hyps(2) show ?case
  proof cases
    case advance
    then obtain c where c: "phase q = Tried c" "listen_error env = None"
      using onward.prems by (cases "phase q") (auto simp: main_step_def exits_def split: if_splits sum.splits option.splits prod.splits)
    then have "probes q' = probes q" "daemon_probe d = probes q"
      using advance(1) onward.prems by (auto simp: main_step_def)
    then show ?thesis using c(1) onward.hyps(1) step [OF process_reaches.here] by auto
  next
    case (life r0 d0 e)
    then show ?thesis using onward.IH [OF life(2)] onward.prems step by fastforce
  next
    case (handlers r0 d0 d')
    then have "daemon_probe d' = daemon_probe d0" "d = d'" using step_probe onward.prems by auto
    then show ?thesis using onward.IH [OF handlers(2)] handlers(1) step by fastforce
  qed (use onward.prems in \<open>auto simp: exits_def\<close>)
qed

section \<open>A sample process\<close>

definition demo_surroundings :: "(unit, nat, unit) surroundings" where
  "demo_surroundings = \<lparr>linked = demo_build, zap_build = \<lambda>_. Inr (), nvml_driver = demo_nvml, wall_clock = \<lambda>_. zero_time,
     file_exists = \<lambda>_. False, listen_error = None\<rparr>"

abbreviation demo_ret :: "bool \<Rightarrow> nat \<Rightarrow> bool" where
  "demo_ret \<equiv> \<lambda>stop n. stop \<and> n = 0"

lemma process_reaches_trans:
  "process_reaches env fl ret p q \<Longrightarrow> process_reaches env fl ret q q' \<Longrightarrow> process_reaches env fl ret p q'"
  by (rotate_tac, induction rule: process_reaches.induct) (auto intro: process_reaches.onward)

lemma main_reaches:
  "process_reaches env fl ret p ((main_step env fl ^^ n) p)"
proof (induction n)
  case (Suc n)
  let ?q = "(main_step env fl ^^ n) p"
  show ?case
  proof (cases "starting (phase ?q)")
    case True
    then show ?thesis using process_reaches.onward [OF Suc process_step.advance] by simp
  next
    case False
    then have "main_step env fl ?q = ?q" by (cases "phase ?q") (simp_all add: main_step_at)
    then show ?thesis using Suc by simp
  qed
qed (simp add: process_reaches.here)

lemma demo_serves:
  "\<exists>p d. process_reaches demo_surroundings demo_flags demo_ret (launch ()) p \<and> phase p = Serves serving d \<and>
     Handler (probes p) ''/readyz'' = Some 200"
proof -
  let ?p = "(main_step demo_surroundings demo_flags ^^ 5) (launch ())"
  obtain d where d: "daemon_main demo_build demo_nvml (\<lambda>_. zero_time) (\<lambda>_. False) None demo_flags () = Serving d"
    using demo_serving by blast
  have p: "phase ?p = Serves serving d"
    using daemon_main_steps [of demo_surroundings demo_flags "()" "()"] d by (simp add: demo_surroundings_def initLogger_def)
  have r: "process_reaches demo_surroundings demo_flags demo_ret (launch ()) ?p" by (rule main_reaches)
  have "Ready (daemon_probe d)"
    using d demo_choose [of "\<lambda>_. False" "()"] demo_count [of "\<lambda>_. zero_time"] demo_collect [of "\<lambda>_. zero_time"]
    by (auto simp: daemon_main_serving start_service_def demo_instrument Let_def MarkReady_def Ready_def)
  then show ?thesis using served_after_tried [OF r p] p r by (auto simp: Handler_def)
qed

section \<open>Properties\<close>

text \<open>
  The start of the daemon, step by step and as one function.  Five steps of \<open>main\<close>, with no other
  goroutine in between, print the version, die, or serve exactly as \<open>daemon_main\<close> says, with the
  same error or the same services; only a logger that cannot be built comes before it.\<close>

theorem start_step_by_step:
  "phase ((main_step env fl ^^ 5) (launch w)) =
    (if Requested (showVersion_daemon fl) (args_daemon fl) then Exited (VersionPrinted (String_version (linked env) ''keda-gpu-scaler''))
     else case initLogger (zap_build env) (logLevel fl) of
       Inl e \<Rightarrow> Exited (Died e)
     | Inr logger \<Rightarrow>
         (case daemon_main (linked env) (nvml_driver env) (wall_clock env) (file_exists env) (listen_error env) fl w of
            DaemonVersion s \<Rightarrow> Exited (VersionPrinted s) | Fatal e \<Rightarrow> Exited (Died e) | Serving d \<Rightarrow> Serves serving d))"
proof (cases "initLogger (zap_build env) (logLevel fl)")
  case (Inl e)
  have "(main_step env fl ^^ 5) (launch w) = count_collect_listen env fl (main_step env fl (main_step env fl (launch w)))"
    by (simp add: numeral_eq_Suc count_collect_listen_def)
  then show ?thesis
    using Inl by (simp add: main_step_at(1) [of _ w] main_step_at(3) count_collect_listen_Exited launch_def)
next
  case (Inr logger)
  then show ?thesis by (auto simp: daemon_main_steps daemon_main_def)
qed

text \<open>C23
  Who closes the collector.  In every state the process reaches, through any order of events, the
  collector has been closed at most once; it has been closed exactly if \<open>main\<close> has returned, which
  it does from a state in which the server was stopping with nothing pending.  A process that died
  (a listener, \<open>Serve\<close> or a handler failed) or was killed while starting leaves NVML open.\<close>

theorem collector_closed_only_on_return:
  assumes "graceful ret" "process_reaches env fl ret (launch w) p"
  shows "closes p = (if returned p then 1 else 0) \<and>
    (returned p \<longleftrightarrow> (\<exists>q r d. process_reaches env fl ret (launch w) q \<and> phase q = Serves r d \<and> stopping r \<and> pending r = 0 \<and>
       phase p = Exited (Returned (snd (Close (process_ops env) (coll (daemon_scaler d)))))))"
  using closes_reached [OF assms(2)] returns_from [OF assms(2)] gracefulD [OF assms(1)]
  by (auto simp: returned_iff) (fastforce simp: launch_def)

lemma collector_closed_only_on_return_witness:
  "\<exists>p. process_reaches demo_surroundings demo_flags demo_ret (launch ()) p \<and> returned p \<and> closes p = 1"
proof -
  obtain p d where p: "process_reaches demo_surroundings demo_flags demo_ret (launch ()) p" "phase p = Serves serving d"
    using demo_serves by blast
  let ?q = "p\<lparr>phase := Serves (live_step Terminate serving) d\<rparr>"
  have q: "process_reaches demo_surroundings demo_flags demo_ret (launch ()) ?q"
    by (rule process_reaches.onward [OF p(1) process_step.life [OF p(2)]]) (simp add: serving_def)
  have "phase ?q = Serves (live_step Terminate serving) d" by simp
  from process_reaches.onward [OF q process_step.serve_returns [OF this]]
  obtain e where "process_reaches demo_surroundings demo_flags demo_ret (launch ()) e" "returned e"
    by (auto simp: serving_def pending_def returned_iff)
  then show ?thesis using collector_closed_only_on_return [of demo_ret _ _ "()" e] by (auto simp: graceful_def)
qed

text \<open>
  When a call takes the process down.  \<open>IsActive\<close> and \<open>GetMetricSpec\<close> never panic, in any
  state, with any collector and any metadata; \<open>GetMetrics\<close> does exactly for a request without an
  object, and \<open>StreamIsActive\<close> exactly for metadata that parse with a poll interval whose duration is not positive.\<close>

theorem handlers_panic_exactly:
  "\<not> (\<exists>e. fst (IsActive C env ref s) = Inl e \<and> panics e) \<and>
   \<not> (\<exists>e. GetMetricSpec ref = Inl e \<and> panics e) \<and>
   ((\<exists>e. fst (GetMetrics C env req s) = Inl e \<and> panics e) \<longleftrightarrow> req = None) \<and>
   ((\<exists>e. fst (snd (StreamIsActive C ref es s)) = Some (Inl e) \<and> panics e) \<longleftrightarrow>
     (\<exists>cfg. parseMetadata (scalerMetadata ref) = Inr cfg \<and> seconds (pollIntervalSeconds cfg) \<le> 0))"
proof (intro conjI)
  show "\<not> (\<exists>e. fst (IsActive C env ref s) = Inl e \<and> panics e)"
    using read_error_no_panic(1) [of C env _ s] by (auto simp: IsActive_def case_prod_beta bind_err_Inl_iff split: sum.splits)
  show "\<not> (\<exists>e. GetMetricSpec ref = Inl e \<and> panics e)" by (auto simp: GetMetricSpec_def bind_err_Inl_iff)
  show "(\<exists>e. fst (GetMetrics C env req s) = Inl e \<and> panics e) \<longleftrightarrow> req = None"
  proof (cases req)
    case (Some ref)
    show ?thesis unfolding Some
      by (cases rule: GetMetrics_cases [where ref = ref and C = C and env = env and s = s])
        (use read_error_no_panic(2) [of C env _ s] in auto)
  qed (simp add: GetMetrics_def)
  show "(\<exists>e. fst (snd (StreamIsActive C ref es s)) = Some (Inl e) \<and> panics e) \<longleftrightarrow>
     (\<exists>cfg. parseMetadata (scalerMetadata ref) = Inr cfg \<and> seconds (pollIntervalSeconds cfg) \<le> 0)"
    using stream_loop_end [of C _ es s] by (auto simp: StreamIsActive_def split: sum.split)
qed

text \<open>C24
  One object takes the service down for all.  Wherever the daemon serves, a \<open>StreamIsActive\<close>
  call for an object that parses but whose poll interval is not positive leads to the
  death of the process, with the collector left open, whatever else is pending.\<close>

theorem one_object_kills_daemon:
  fixes ref :: scaled_object_ref
  assumes "graceful ret" "process_reaches env fl ret (launch w) p" "phase p = Serves r d" "\<not> stopping r"
    and "parseMetadata (scalerMetadata ref) = Inr cfg" "seconds (pollIntervalSeconds cfg) \<le> 0"
  shows "\<exists>q. process_reaches env fl ret p q \<and> phase q = Exited (Died (HandlerPanic NonPositiveTicker)) \<and> closes q = 0"
proof -
  let ?r = "live_step StreamStarts r" and ?p = "p\<lparr>phase := Serves (live_step StreamStarts r) d\<rparr>"
  have 1: "process_step env fl ret p ?p"
    by (rule process_step.life [OF assms(3)]) (use assms(1,4) in \<open>simp add: gracefulD\<close>)
  have e: "handler_error (process_ops env) (daemon_scaler d) NonPositiveTicker"
    by (rule handler_error.intros(4) [of _ ref "[]" _ "[]" _ "daemon_scaler d"]) (use assms(5,6) in \<open>simp add: StreamIsActive_def\<close>)
  have 2: "process_step env fl ret ?p (exits ?p (Died (HandlerPanic NonPositiveTicker)))"
    by (rule process_step.handler_panics [of ?p ?r d, OF _ _ e]) (use assms(4) in \<open>simp_all add: pending_def\<close>)
  have "closes p = 0" using closes_reached [OF assms(2)] assms(3) by simp
  then show ?thesis
    using process_reaches.onward [OF process_reaches.onward [OF process_reaches.here 1] 2]
    by (intro exI [of _ "exits ?p (Died (HandlerPanic NonPositiveTicker))"]) simp
qed

definition zero_poll :: metadata where
  "zero_poll = [''pollIntervalSeconds'' \<mapsto> ''0'']"

lemma parse_zero_poll: "parseMetadata zero_poll = Inr (default_config\<lparr>pollIntervalSeconds := 0\<rparr>)"
proof -
  have "atoi ''0'' = Inr 0" by code_simp
  then show ?thesis
    by (simp add: parse_Inr_iff well_formed_keys_def key_ok_def effective_config_def key_or_def zero_poll_def
      from_profile_def default_config_def endpoints_ok_def IsVLLMMetric_def IsTritonMetric_def metric_type_defs)
qed

lemma one_object_kills_daemon_witness:
  "\<exists>q. process_reaches demo_surroundings demo_flags demo_ret (launch ()) q \<and>
     phase q = Exited (Died (HandlerPanic NonPositiveTicker))"
proof -
  obtain p d where p: "process_reaches demo_surroundings demo_flags demo_ret (launch ()) p" "phase p = Serves serving d"
    using demo_serves by blast
  have z: "seconds (pollIntervalSeconds (default_config\<lparr>pollIntervalSeconds := 0\<rparr>)) \<le> 0" by (simp add: seconds_max)
  have "parseMetadata (scalerMetadata (demo_ref zero_poll)) = Inr (default_config\<lparr>pollIntervalSeconds := 0\<rparr>)"
    by (simp add: demo_ref_def parse_zero_poll)
  from one_object_kills_daemon [OF _ p _ this z] obtain q where
    "process_reaches demo_surroundings demo_flags demo_ret p q" "phase q = Exited (Died (HandlerPanic NonPositiveTicker))"
    by (auto simp: graceful_def serving_def)
  then show ?thesis using process_reaches_trans [OF p(1)] by blast
qed

text \<open>
  Readiness outlasts the service on both sides.  A ready daemon that serves was ready before its
  port was open, in a state from which it could still fail to start, and it stays ready when it
  is told to stop and takes no more calls.\<close>

theorem ready_outside_service:
  assumes "graceful ret" "process_reaches env fl ret (launch w) p" "phase p = Serves r d" "\<not> stopping r"
    and "Handler (probes p) ''/readyz'' = Some 200"
  shows "(\<exists>q. process_reaches env fl ret (launch w) q \<and> process_reaches env fl ret q p \<and> starting (phase q) \<and>
      Handler (probes q) ''/readyz'' = Some 200) \<and>
    (\<exists>q r'. process_reaches env fl ret p q \<and> phase q = Serves r' d \<and> stopping r' \<and> Handler (probes q) ''/readyz'' = Some 200)"
proof -
  have "process_step env fl ret p (p\<lparr>phase := Serves (live_step Terminate r) d\<rparr>)"
    by (rule process_step.life [OF assms(3)]) (use assms(1,4) in \<open>simp add: gracefulD\<close>)
  from process_reaches.onward [OF process_reaches.here this] show ?thesis
    using served_after_tried [OF assms(2,3)] assms(5) by fastforce
qed

lemma ready_outside_service_witness:
  "\<exists>p. process_reaches demo_surroundings demo_flags demo_ret (launch ()) p \<and> starting (phase p) \<and>
     Handler (probes p) ''/readyz'' = Some 200"
proof -
  obtain p d where "process_reaches demo_surroundings demo_flags demo_ret (launch ()) p" "phase p = Serves serving d"
    "Handler (probes p) ''/readyz'' = Some 200"
    using demo_serves by blast
  from ready_outside_service [OF _ this(1,2) _ this(3)] show ?thesis by (auto simp: graceful_def serving_def)
qed

end
