(* ===== verification/Schedulers.thy ===== *)
theory Schedulers
  imports GoOs
begin

text \<open>
  The HPC schedulers: \<open>pkg/slurm/slurm.go\<close> and \<open>pkg/flux/flux.go\<close>, job contexts read from the
  process environment.  The two packages have the same functions on the list of GPUs; the
  locale \<open>gpu_list_job\<close> states what both promise about it.
\<close>

section \<open>SLURM\<close>

record slurm_job =
  JobID_slurm :: string
  JobName_slurm :: string
  Partition_slurm :: string
  NodeList_slurm :: string
  NodeName_slurm :: string
  NumNodes_slurm :: int
  NumTasks_slurm :: int
  ProcID_slurm :: int
  LocalID_slurm :: int
  GPUs_slurm :: string

definition Detect_slurm :: "process \<Rightarrow> bool" where
  "Detect_slurm p = env_is_set p ''SLURM_JOB_ID''"

definition envInt_slurm :: "process \<Rightarrow> string \<Rightarrow> int" where
  "envInt_slurm p k = atoi_value (getenv p k)"

definition slurmGPUs :: "process \<Rightarrow> string" where
  "slurmGPUs p =
     (if getenv p ''SLURM_STEP_GPUS'' \<noteq> [] then getenv p ''SLURM_STEP_GPUS''
      else if getenv p ''SLURM_JOB_GPUS'' \<noteq> [] then getenv p ''SLURM_JOB_GPUS''
      else if getenv p ''GPU_DEVICE_ORDINAL'' \<noteq> [] then getenv p ''GPU_DEVICE_ORDINAL''
      else if getenv p ''CUDA_VISIBLE_DEVICES'' \<noteq> [] then getenv p ''CUDA_VISIBLE_DEVICES''
      else [])"

definition FromEnv_slurm :: "process \<Rightarrow> slurm_job" where
  "FromEnv_slurm p = \<lparr>JobID_slurm = getenv p ''SLURM_JOB_ID'', JobName_slurm = getenv p ''SLURM_JOB_NAME'',
     Partition_slurm = getenv p ''SLURM_JOB_PARTITION'', NodeList_slurm = getenv p ''SLURM_NODELIST'',
     NodeName_slurm = getenv p ''SLURM_NODENAME'', NumNodes_slurm = envInt_slurm p ''SLURM_JOB_NUM_NODES'',
     NumTasks_slurm = envInt_slurm p ''SLURM_NTASKS'', ProcID_slurm = envInt_slurm p ''SLURM_PROCID'',
     LocalID_slurm = envInt_slurm p ''SLURM_LOCALID'', GPUs_slurm = slurmGPUs p\<rparr>"

definition Header_slurm :: "slurm_job \<Rightarrow> string list" where
  "Header_slurm j = [''JobID'', ''JobName'', ''Partition'', ''Node'', ''Rank'', ''LocalRank'', ''GPUs'']"

definition Row_slurm :: "slurm_job \<Rightarrow> string list" where
  "Row_slurm j = [JobID_slurm j, JobName_slurm j, Partition_slurm j, NodeName_slurm j,
     itoa (ProcID_slurm j), itoa (LocalID_slurm j), GPUs_slurm j]"

text \<open>The loops over the entries of the list, one step each: append the entry or skip it.\<close>

definition add_index :: "string \<Rightarrow> int list \<Rightarrow> int list" where
  "add_index e devs = (case atoi (trim_space e) of Inr i \<Rightarrow> devs @ [i] | Inl _ \<Rightarrow> devs)"

definition add_mig :: "string \<Rightarrow> string list \<Rightarrow> string list" where
  "add_mig e us = (if has_prefix (trim_space e) ''MIG-'' then us @ [trim_space e] else us)"

definition VisibleDevices_slurm :: "slurm_job \<Rightarrow> int list" where
  "VisibleDevices_slurm j =
     (if GPUs_slurm j = [] then [] else fold add_index (split_byte (CHR '','') (GPUs_slurm j)) [])"

definition MIGUUIDs_slurm :: "slurm_job \<Rightarrow> string list" where
  "MIGUUIDs_slurm j =
     (if GPUs_slurm j = [] then [] else fold add_mig (split_byte (CHR '','') (GPUs_slurm j)) [])"

section \<open>Flux\<close>

record flux_job =
  JobID_flux :: string
  TaskRank_flux :: int
  LocalID_flux :: int
  NumTasks_flux :: int
  NumNodes_flux :: int
  URI_flux :: string
  GPUs_flux :: string

definition Detect_flux :: "process \<Rightarrow> bool" where
  "Detect_flux p = env_is_set p ''FLUX_JOB_ID''"

definition envInt_flux :: "process \<Rightarrow> string \<Rightarrow> int" where
  "envInt_flux p k = atoi_value (getenv p k)"

definition fluxGPUs :: "process \<Rightarrow> string" where
  "fluxGPUs p =
     (if getenv p ''CUDA_VISIBLE_DEVICES'' \<noteq> [] then getenv p ''CUDA_VISIBLE_DEVICES'' else [])"

definition FromEnv_flux :: "process \<Rightarrow> flux_job" where
  "FromEnv_flux p = \<lparr>JobID_flux = getenv p ''FLUX_JOB_ID'', TaskRank_flux = envInt_flux p ''FLUX_TASK_RANK'',
     LocalID_flux = envInt_flux p ''FLUX_TASK_LOCAL_ID'', NumTasks_flux = envInt_flux p ''FLUX_JOB_SIZE'',
     NumNodes_flux = envInt_flux p ''FLUX_JOB_NNODES'', URI_flux = getenv p ''FLUX_URI'', GPUs_flux = fluxGPUs p\<rparr>"

definition Header_flux :: "flux_job \<Rightarrow> string list" where
  "Header_flux j = [''FluxJobID'', ''TaskRank'', ''LocalRank'', ''GPUs'']"

definition Row_flux :: "flux_job \<Rightarrow> string list" where
  "Row_flux j = [JobID_flux j, itoa (TaskRank_flux j), itoa (LocalID_flux j), GPUs_flux j]"

definition VisibleDevices_flux :: "flux_job \<Rightarrow> int list" where
  "VisibleDevices_flux j =
     (if GPUs_flux j = [] then [] else fold add_index (split_byte (CHR '','') (GPUs_flux j)) [])"

definition MIGUUIDs_flux :: "flux_job \<Rightarrow> string list" where
  "MIGUUIDs_flux j =
     (if GPUs_flux j = [] then [] else fold add_mig (split_byte (CHR '','') (GPUs_flux j)) [])"

section \<open>What a list of GPUs means\<close>

definition index_of :: "string \<Rightarrow> int list" where
  "index_of e = (case atoi (trim_space e) of Inr i \<Rightarrow> [i] | Inl _ \<Rightarrow> [])"

lemma fold_add_index: "fold add_index es devs = devs @ concat (map index_of es)"
  by (induction es arbitrary: devs) (auto simp: add_index_def index_of_def split: sum.split)

lemma fold_add_mig: "fold add_mig es us = us @ filter (\<lambda>e. has_prefix e ''MIG-'') (map trim_space es)"
  by (induction es arbitrary: us) (auto simp: add_mig_def)

text \<open>An entry is an index or a UUID, never both.\<close>

lemma atoi_letter: "s \<noteq> [] \<Longrightarrow> \<not> is_digit (hd s) \<Longrightarrow> hd s \<noteq> CHR ''-'' \<Longrightarrow> hd s \<noteq> CHR ''+'' \<Longrightarrow> atoi s = Inl ErrSyntax"
  by (cases s) (simp_all add: atoi_def Let_def parse_uint_def)

lemma prefix_hd: "has_prefix s (c # p) \<Longrightarrow> s \<noteq> [] \<and> hd s = c"
  by (cases s) (simp_all add: has_prefix_def)

lemma not_index: "has_prefix (trim_space e) ''MIG-'' \<or> has_prefix (trim_space e) ''GPU-'' \<Longrightarrow> index_of e = []"
  using atoi_letter [of "trim_space e"] prefix_hd [of "trim_space e"]
  by (auto simp: index_of_def is_digit_def byte_def)

lemma index_of_padded: "in_int64 i \<Longrightarrow> index_of (blanks a @ itoa i @ blanks b) = [i]"
  by (simp add: index_of_def trim_padded atoi_itoa)

lemma no_mig_prefix: "hd s \<noteq> CHR ''M'' \<Longrightarrow> \<not> has_prefix s ''MIG-''"
  using prefix_hd by fastforce

lemma itoa_no_mig [simp]: "\<not> has_prefix (itoa i) ''MIG-''"
  by (rule no_mig_prefix) (use format_uint_hd [of "nat i"] in \<open>auto simp: itoa_def is_digit_def byte_def\<close>)

text \<open>
  A job context with a list of GPUs: the indices and the MIG UUIDs among its entries, each
  in the order of the list.
\<close>

locale gpu_list_job =
  fixes gpus :: "'j \<Rightarrow> string" and visible :: "'j \<Rightarrow> int list" and migs :: "'j \<Rightarrow> string list"
  assumes visible_entries: "visible j = (if gpus j = [] then [] else concat (map index_of (split_byte (CHR '','') (gpus j))))"
    and mig_entries: "migs j = (if gpus j = [] then []
      else filter (\<lambda>e. has_prefix e ''MIG-'') (map trim_space (split_byte (CHR '','') (gpus j))))"
begin

lemma list_entries:
  assumes "gpus j = str_join '','' es" "\<forall>e \<in> set es. CHR '','' \<notin> set e"
  shows "visible j = concat (map index_of es)"
    and "migs j = filter (\<lambda>e. has_prefix e ''MIG-'') (map trim_space es)"
proof -
  have e: "index_of [] = []" "\<not> has_prefix (trim_space []) ''MIG-''"
    by (simp_all add: index_of_def trim_plain atoi_def parse_uint_def Let_def has_prefix_def)
  show "visible j = concat (map index_of es)"
    using visible_entries [of j] split_join [of es "CHR '',''"] assms e join_empty [of "CHR '',''" es] by auto
  show "migs j = filter (\<lambda>e. has_prefix e ''MIG-'') (map trim_space es)"
    using mig_entries [of j] split_join [of es "CHR '',''"] assms e join_empty [of "CHR '',''" es] by auto
qed

text \<open>A list of indices, with blanks around the entries, is read back.\<close>

lemma indices_read_back:
  assumes "length is0 = length pads" "\<forall>i \<in> set is0. in_int64 i"
    and "gpus j = str_join '','' (map2 (\<lambda>i (a, b). blanks a @ itoa i @ blanks b) is0 pads)"
  shows "visible j = is0 \<and> migs j = []"
proof -
  let ?es = "map2 (\<lambda>i (a, b). blanks a @ itoa i @ blanks b) is0 pads"
  have "\<forall>e \<in> set ?es. CHR '','' \<notin> set e" by (auto simp: set_zip)
  note entries = list_entries [OF assms(3) this]
  from assms(1,2) have "concat (map index_of ?es) = is0"
    by (induction is0 pads rule: list_induct2) (auto simp: index_of_padded)
  moreover have "\<forall>e \<in> set ?es. \<not> has_prefix (trim_space e) ''MIG-''"
    by (auto simp: set_zip trim_padded)
  ultimately show ?thesis using entries by (simp add: filter_empty_conv)
qed

text \<open>So is a list of MIG UUIDs.\<close>

lemma uuids_read_back:
  assumes "\<forall>u \<in> set us. has_prefix u ''MIG-'' \<and> list_all plain u \<and> CHR '','' \<notin> set u" "gpus j = str_join '','' us"
  shows "migs j = us \<and> visible j = []"
proof -
  have t: "\<forall>u \<in> set us. trim_space u = u" using assms(1) trim_plain by blast
  then have "map trim_space us = us" by (simp add: map_idI)
  moreover have "\<forall>u \<in> set us. index_of u = []" using assms(1) t by (metis not_index)
  ultimately show ?thesis using list_entries [OF assms(2)] assms(1) by (auto simp: filter_id_conv)
qed

text \<open>A list of plain GPU UUIDs gives neither.\<close>

lemma gpu_uuids_lost:
  assumes "\<forall>u \<in> set us. has_prefix u ''GPU-'' \<and> list_all plain u \<and> CHR '','' \<notin> set u" "gpus j = str_join '','' us"
  shows "migs j = [] \<and> visible j = []"
proof -
  have t: "\<forall>u \<in> set us. trim_space u = u" using assms(1) trim_plain by blast
  have "index_of u = [] \<and> \<not> has_prefix u ''MIG-''" if "u \<in> set us" for u
  proof -
    have p: "has_prefix u ''GPU-''" "trim_space u = u" using assms(1) t that by auto
    then show ?thesis using prefix_hd [OF p(1)] not_index [of u] no_mig_prefix [of u] by simp
  qed
  then show ?thesis using list_entries [OF assms(2)] assms(1) t by (auto simp: filter_empty_conv)
qed

end

interpretation slurm: gpu_list_job GPUs_slurm VisibleDevices_slurm MIGUUIDs_slurm
  by unfold_locales (simp_all add: VisibleDevices_slurm_def MIGUUIDs_slurm_def fold_add_index fold_add_mig)

interpretation flux: gpu_list_job GPUs_flux VisibleDevices_flux MIGUUIDs_flux
  by unfold_locales (simp_all add: VisibleDevices_flux_def MIGUUIDs_flux_def fold_add_index fold_add_mig)

end
