(* ===== verification/HpcEnv.thy ===== *)
theory HpcEnv
  imports Schedulers
begin

text \<open>
  \<open>pkg/env/env.go\<close>: which orchestrator the process runs under, and the context that goes with
  the metrics.
\<close>

type_synonym env_type = string

definition Kubernetes :: env_type where "Kubernetes = ''k8s''"
definition SLURM :: env_type where "SLURM = ''slurm''"
definition Flux :: env_type where "Flux = ''flux''"
definition Standalone :: env_type where "Standalone = ''standalone''"

record env_context =
  Orchestrator :: string
  NodeName :: string
  JobID :: string
  TaskRank :: int
  PodName :: string
  Namespace :: string
  Partition :: string
  FluxURI :: string
  visibleDevices :: "int list"
  migUUIDs :: "string list"

text \<open>The zero value of the structure, whose fields the literals of \<open>FromType\<close> set.\<close>

definition zero_context :: env_context where
  "zero_context = \<lparr>Orchestrator = [], NodeName = [], JobID = [], TaskRank = 0, PodName = [],
     Namespace = [], Partition = [], FluxURI = [], visibleDevices = [], migUUIDs = []\<rparr>"

definition Header_env :: "env_context \<Rightarrow> string list" where
  "Header_env c = [''orchestrator'', ''node'', ''job_id'', ''task_rank'']"

definition Row_env :: "env_context \<Rightarrow> string list" where
  "Row_env c = [Orchestrator c, NodeName c, JobID c, if JobID c \<noteq> [] then itoa (TaskRank c) else []]"

definition detectK8s :: "process \<Rightarrow> bool" where
  "detectK8s p = env_is_set p ''KUBERNETES_SERVICE_HOST''"

definition Detect_env :: "process \<Rightarrow> env_type" where
  "Detect_env p =
     (if Detect_slurm p then SLURM
      else if Detect_flux p then Flux
      else if detectK8s p then Kubernetes
      else Standalone)"

definition Parse_env :: "process \<Rightarrow> string \<Rightarrow> env_type" where
  "Parse_env p s =
     (if s = ''k8s'' \<or> s = ''kubernetes'' then Kubernetes
      else if s = ''slurm'' then SLURM
      else if s = ''flux'' then Flux
      else if s = ''standalone'' then Standalone
      else Detect_env p)"

definition FromType :: "process \<Rightarrow> env_type \<Rightarrow> env_context" where
  "FromType p t =
     (if t = SLURM then
        (let j = FromEnv_slurm p in
         zero_context\<lparr>Orchestrator := ''slurm'', NodeName := NodeName_slurm j, JobID := JobID_slurm j,
           TaskRank := ProcID_slurm j, Partition := Partition_slurm j,
           visibleDevices := VisibleDevices_slurm j, migUUIDs := MIGUUIDs_slurm j\<rparr>)
      else if t = Flux then
        (let j = FromEnv_flux p in
         zero_context\<lparr>Orchestrator := ''flux'', JobID := JobID_flux j, TaskRank := TaskRank_flux j,
           FluxURI := URI_flux j, visibleDevices := VisibleDevices_flux j, migUUIDs := MIGUUIDs_flux j\<rparr>)
      else if t = Kubernetes then
        (let node = getenv p ''NODE_NAME'' in
         zero_context\<lparr>Orchestrator := ''k8s'', NodeName := (if node = [] then hostname_or_empty p else node),
           PodName := getenv p ''POD_NAME'', Namespace := getenv p ''POD_NAMESPACE''\<rparr>)
      else zero_context\<lparr>Orchestrator := ''standalone'', NodeName := hostname_or_empty p\<rparr>)"

section \<open>Facts\<close>

lemmas env_type_defs = Kubernetes_def SLURM_def Flux_def Standalone_def

lemma env_types_distinct [simp]: "distinct [Kubernetes, SLURM, Flux, Standalone]"
  by (simp add: env_type_defs)

definition env_types :: "env_type set" where
  "env_types = {Kubernetes, SLURM, Flux, Standalone}"

lemma Parse_env_type: "Parse_env p s \<in> env_types"
  by (simp add: Parse_env_def Detect_env_def env_types_def)

lemma Orchestrator_FromType: "t \<in> env_types \<Longrightarrow> Orchestrator (FromType p t) = t"
  by (auto simp: env_types_def FromType_def Let_def env_type_defs zero_context_def)

lemma Parse_env_own_name: "t \<in> env_types \<Longrightarrow> Parse_env p t = t"
  by (auto simp: env_types_def Parse_env_def env_type_defs)

lemma unrestricted_outside_hpc:
  "t \<noteq> SLURM \<Longrightarrow> t \<noteq> Flux \<Longrightarrow> visibleDevices (FromType p t) = [] \<and> migUUIDs (FromType p t) = []"
  by (simp add: FromType_def Let_def zero_context_def)

lemma TaskRank_range: "in_int64 (TaskRank (FromType p t))"
  by (simp add: FromType_def Let_def zero_context_def FromEnv_slurm_def FromEnv_flux_def envInt_slurm_def
      envInt_flux_def atoi_value_range) (simp add: in_int64_def min_int64_def max_int64_def)

lemma job_gpus:
  "visibleDevices (FromType p SLURM) = VisibleDevices_slurm (FromEnv_slurm p)"
  "migUUIDs (FromType p SLURM) = MIGUUIDs_slurm (FromEnv_slurm p)"
  "visibleDevices (FromType p Flux) = VisibleDevices_flux (FromEnv_flux p)"
  "migUUIDs (FromType p Flux) = MIGUUIDs_flux (FromEnv_flux p)"
  "GPUs_slurm (FromEnv_slurm p) = slurmGPUs p"
  "GPUs_flux (FromEnv_flux p) = fluxGPUs p"
  by (simp_all add: FromType_def Let_def env_type_defs FromEnv_slurm_def FromEnv_flux_def)

text \<open>The list a job is given: for SLURM the first of four variables that is not empty.\<close>

definition slurm_gpu_vars :: "string list" where
  "slurm_gpu_vars = [''SLURM_STEP_GPUS'', ''SLURM_JOB_GPUS'', ''GPU_DEVICE_ORDINAL'', ''CUDA_VISIBLE_DEVICES'']"

lemma slurmGPUs_first:
  "slurmGPUs p = (case filter (\<lambda>v. v \<noteq> []) (map (getenv p) slurm_gpu_vars) of [] \<Rightarrow> [] | v # _ \<Rightarrow> v)"
  by (simp add: slurmGPUs_def slurm_gpu_vars_def)

section \<open>Properties\<close>

text \<open>C34
  The environment is always one of the four, and consistently so: whatever string the flag has,
  the parsed type is the type of its own name, the context built for it names it as the
  orchestrator, its task rank is a 64-bit integer, and only the two HPC schedulers restrict the
  GPUs.  Without a flag SLURM goes before Flux, Flux before Kubernetes, Kubernetes before nothing.\<close>

theorem env_consistent:
  "Parse_env p s \<in> env_types \<and> Parse_env p (Parse_env p s) = Parse_env p s \<and>
   Orchestrator (FromType p (Parse_env p s)) = Parse_env p s \<and>
   in_int64 (TaskRank (FromType p (Parse_env p s))) \<and>
   (visibleDevices (FromType p (Parse_env p s)) = [] \<and> migUUIDs (FromType p (Parse_env p s)) = [] \<or>
    Parse_env p s = SLURM \<or> Parse_env p s = Flux) \<and>
   (s \<notin> {''k8s'', ''kubernetes'', ''slurm'', ''flux'', ''standalone''} \<longrightarrow>
      Parse_env p s = (if env_is_set p ''SLURM_JOB_ID'' then SLURM
                       else if env_is_set p ''FLUX_JOB_ID'' then Flux
                       else if env_is_set p ''KUBERNETES_SERVICE_HOST'' then Kubernetes else Standalone))"
proof (intro conjI)
  show "Parse_env p s \<in> env_types" by (rule Parse_env_type)
  then show "Parse_env p (Parse_env p s) = Parse_env p s" by (rule Parse_env_own_name)
  show "Orchestrator (FromType p (Parse_env p s)) = Parse_env p s"
    by (rule Orchestrator_FromType [OF Parse_env_type])
  show "in_int64 (TaskRank (FromType p (Parse_env p s)))" by (rule TaskRank_range)
  show "visibleDevices (FromType p (Parse_env p s)) = [] \<and> migUUIDs (FromType p (Parse_env p s)) = [] \<or>
      Parse_env p s = SLURM \<or> Parse_env p s = Flux"
    using unrestricted_outside_hpc by blast
qed (auto simp: Parse_env_def Detect_env_def Detect_slurm_def Detect_flux_def detectK8s_def)

definition demo_process :: "(string \<times> string) list \<Rightarrow> process" where
  "demo_process vars = \<lparr>environ = map_of vars, host_name = Some ''node7''\<rparr>"

lemma env_consistent_witness:
  "Parse_env (demo_process [(''FLUX_JOB_ID'', ''f2''), (''KUBERNETES_SERVICE_HOST'', ''10.0.0.1'')]) ''auto'' = Flux"
  using env_consistent [of "demo_process [(''FLUX_JOB_ID'', ''f2''), (''KUBERNETES_SERVICE_HOST'', ''10.0.0.1'')]" "''auto''"]
  by (simp add: demo_process_def env_is_set_def)

text \<open>
  The GPUs a scheduler assigns are read back.  A SLURM job whose first non-empty variable lists
  indices, separated by commas and with any blanks around them, and a Flux job whose
  \<open>CUDA_VISIBLE_DEVICES\<close> does, is restricted to exactly those indices in that order and has no MIG
  instances.\<close>

theorem assigned_devices_roundtrip:
  assumes "length is0 = length pads" "\<forall>i \<in> set is0. in_int64 i"
    and "es = map2 (\<lambda>i (a, b). blanks a @ itoa i @ blanks b) is0 pads"
  shows "(slurmGPUs p = str_join '','' es \<longrightarrow>
      visibleDevices (FromType p SLURM) = is0 \<and> migUUIDs (FromType p SLURM) = []) \<and>
    (fluxGPUs p = str_join '','' es \<longrightarrow>
      visibleDevices (FromType p Flux) = is0 \<and> migUUIDs (FromType p Flux) = [])"
  using slurm.indices_read_back [OF assms(1,2), of "FromEnv_slurm p"]
    flux.indices_read_back [OF assms(1,2), of "FromEnv_flux p"]
  by (simp add: job_gpus assms(3))

lemma assigned_devices_roundtrip_witness:
  "visibleDevices (FromType (demo_process [(''SLURM_JOB_GPUS'', ''0, 3'')]) SLURM) = [0, 3]"
proof -
  have "blanks 0 @ itoa 0 @ blanks 0 = ''0''" "blanks 1 @ itoa 3 @ blanks 0 = '' 3''"
    by code_simp+
  then show ?thesis
    using assigned_devices_roundtrip [of "[0, 3]" "[(0, 0), (1, 0)]" "[''0'', '' 3'']"
        "demo_process [(''SLURM_JOB_GPUS'', ''0, 3'')]"]
    by (simp add: demo_process_def slurmGPUs_def getenv_def in_int64_def min_int64_def max_int64_def)
qed

end
