(* ===== verification/Logging.thy ===== *)
theory Logging
  imports Lifecycle HpcEnv
begin

text \<open>
  What the daemon logs: the lines of \<open>main\<close> up to \<open>Serve\<close>, and the lines of the handlers.  A line is a
  constructor with the fields the source gives it.  The logged definitions are the handlers again with
  their logger calls; they compute what \<open>Scaler\<close>'s compute.  The lines of a collection (in
  \<open>NodeLog\<close>), of the health checker (in \<open>Health\<close>) and of the other goroutines are not among them.
\<close>

section \<open>Lines and levels\<close>

datatype scaler_line =
    GPUMetricLine int string metric_type f64
  | VLLMMetricLine string metric_type f64 f64 f64 f64
  | TritonMetricLine string metric_type f64 f64 f64 f64
  | CooldownLine string f64 f64 duration
  | StreamFailedLine metric_error

datatype main_line =
    StartingLine int int int string
  | EnvironmentLine string string string string
  | ProbeDisabledLine
  | SyntheticLine int int
  | VendorLine vendor
  | NVMLInitializedLine
  | VersionFailedLine int
  | DriverDetectedLine string
  | MetricsDisabledLine
  | CountLine int
  | CollectFailedLine gpu_error
  | DeviceLine int string string u32 u64 u64
  | ListeningLine string
  | FatalLine fatal

text \<open>
  A \<open>FatalLine\<close> has the error of the call; beside a listen error the source logs the port once more.
  The level of each logger call; \<open>None\<close> is \<open>Fatal\<close>, above all four.
\<close>

fun scaler_level :: "scaler_line \<Rightarrow> zap_level option" where
  "scaler_level (CooldownLine _ _ _ _) = Some InfoLevel"
| "scaler_level (StreamFailedLine _) = Some WarnLevel"
| "scaler_level _ = Some DebugLevel"

fun main_level :: "main_line \<Rightarrow> zap_level option" where
  "main_level (FatalLine _) = None"
| "main_level (SyntheticLine _ _) = Some WarnLevel"
| "main_level (VersionFailedLine _) = Some WarnLevel"
| "main_level (CollectFailedLine _) = Some WarnLevel"
| "main_level _ = Some InfoLevel"

fun severity :: "zap_level \<Rightarrow> nat" where
  "severity DebugLevel = 0"
| "severity InfoLevel = 1"
| "severity WarnLevel = 2"
| "severity ErrorLevel = 3"

definition enabled :: "zap_level \<Rightarrow> zap_level option \<Rightarrow> bool" where
  "enabled at l = (case l of None \<Rightarrow> True | Some k \<Rightarrow> severity at \<le> severity k)"

text \<open>What a logger built with a level writes of the calls made to it.\<close>

definition written :: "zap_level \<Rightarrow> ('l \<Rightarrow> zap_level option) \<Rightarrow> 'l list \<Rightarrow> 'l list" where
  "written at lev ls = filter (\<lambda>l. enabled at (lev l)) ls"

section \<open>The handlers with their logger\<close>

definition logMetric :: "metrics \<Rightarrow> metric_type \<Rightarrow> f64 \<Rightarrow> scaler_line" where
  "logMetric m t v = GPUMetricLine (Index m) (Name_gpu m) t v"

definition getVLLMMetricValue_logged ::
  "call_env \<Rightarrow> scaler_config \<Rightarrow> 's scaler \<Rightarrow> (metric_error, f64) result \<times> 's scaler \<times> scaler_line list" where
  "getVLLMMetricValue_logged env cfg s =
     (let (c, cs) = getVLLMClient (vllmEndpoint cfg) (vllmClients s); s' = s\<lparr>vllmClients := cs\<rparr> in
      case Scrape_vllm (http_get env (endpoint c)) of
        Inl e \<Rightarrow> (Inl (VllmFailed e), s', [])
      | Inr m \<Rightarrow> (case vllm_value cfg m of
          Inl e \<Rightarrow> (Inl e, s', [])
        | Inr v \<Rightarrow> (Inr v, s', [VLLMMetricLine (vllmEndpoint cfg) (metricType cfg) v
            (QueueDepth m) (RunningCount m) (KVCacheUsage m)])))"

definition getTritonMetricValue_logged ::
  "call_env \<Rightarrow> scaler_config \<Rightarrow> 's scaler \<Rightarrow> (metric_error, f64) result \<times> 's scaler \<times> scaler_line list" where
  "getTritonMetricValue_logged env cfg s =
     (let e = tritonEndpoint cfg;
          (c, cs) = getTritonClient e (tritonClients s);
          (r, c') = Scrape_triton (http_get env (endpoint_t c)) (scrape_now env) c;
          s' = s\<lparr>tritonClients := cs(e \<mapsto> c')\<rparr>
      in case r of
           Inl err \<Rightarrow> (Inl (TritonFailed err), s', [])
         | Inr m \<Rightarrow> (Inr (triton_value cfg m), s',
             [TritonMetricLine e (metricType cfg) (triton_value cfg m)
               (AvgQueueWaitUs m) (RequestRatePerSec m) (InferenceCount m)]))"

definition getMetricValue_logged ::
  "'s metrics_collector \<Rightarrow> call_env \<Rightarrow> scaler_config \<Rightarrow> 's scaler
     \<Rightarrow> (metric_error, f64) result \<times> 's scaler \<times> scaler_line list" where
  "getMetricValue_logged C env cfg s =
     (if IsVLLMMetric (metricType cfg) then getVLLMMetricValue_logged env cfg s
      else if IsTritonMetric (metricType cfg) then getTritonMetricValue_logged env cfg s
      else if 0 \<le> gpuIndex cfg then
        (case CollectDevice C (gpuIndex cfg) (coll s) of
           (Inl e, k) \<Rightarrow> (Inl (CollectorFailed e), s\<lparr>coll := k\<rparr>, [])
         | (Inr m, k) \<Rightarrow> (let v = extractMetric m (metricType cfg)
             in (Inr v, s\<lparr>coll := k\<rparr>, [logMetric m (metricType cfg) v])))
      else
        (case CollectAll C (coll s) of
           (Inl e, k) \<Rightarrow> (Inl (CollectorFailed e), s\<lparr>coll := k\<rparr>, [])
         | (Inr ms, k) \<Rightarrow>
             if ms = [] then (Inl NoDevices, s\<lparr>coll := k\<rparr>, [])
             else (let vs = map (\<lambda>m. extractMetric m (metricType cfg)) ms;
                       lines = map (\<lambda>(m, v). logMetric m (metricType cfg) v) (zip ms vs)
                   in case aggregate vs (aggregation cfg) of
                        None \<Rightarrow> (Inl PercentilePanic, s\<lparr>coll := k\<rparr>, lines)
                      | Some v \<Rightarrow> (Inr v, s\<lparr>coll := k\<rparr>, lines))))"

definition applyCooldown_logged ::
  "gotime \<Rightarrow> cooldown_key \<Rightarrow> f64 \<Rightarrow> duration \<Rightarrow> cooldowns \<Rightarrow> f64 \<times> cooldowns \<times> scaler_line list" where
  "applyCooldown_logged now key value cooldown cds =
     (if cooldown \<le> 0 then (value, cds, [])
      else case cds key of
        None \<Rightarrow> (value, cds(key \<mapsto> \<lparr>lastValue = value, lastScaleDownAt = zero_time\<rparr>), [])
      | Some st \<Rightarrow>
          if f64_le (lastValue st) value then (value, cds(key \<mapsto> st\<lparr>lastValue := value\<rparr>), [])
          else if \<not> is_zero_time (lastScaleDownAt st) \<and> time_sub now (lastScaleDownAt st) < cooldown then
            (lastValue st, cds, [CooldownLine (cooldown_key_String key) (lastValue st) value
               (wrap64 (cooldown - time_sub now (lastScaleDownAt st)))])
          else (value, cds(key \<mapsto> st\<lparr>lastValue := value, lastScaleDownAt := now\<rparr>), []))"

definition GetMetrics_logged ::
  "'s metrics_collector \<Rightarrow> call_env \<Rightarrow> scaled_object_ref option \<Rightarrow> 's scaler
     \<Rightarrow> (scaler_error, (string \<times> f64) list) result \<times> 's scaler \<times> scaler_line list" where
  "GetMetrics_logged C env req s = (case req of
     None \<Rightarrow> (Inl NilScaledObjectRef, s, [])
   | Some ref \<Rightarrow> (case parseMetadata (scalerMetadata ref) of
       Inl e \<Rightarrow> (Inl (ParseFailed e), s, [])
     | Inr cfg \<Rightarrow> (case getMetricValue_logged C env cfg s of
         (Inl e, s', ls) \<Rightarrow> (Inl (MetricFailed e), s', ls)
       | (Inr value, s', ls) \<Rightarrow>
           (let (v, cds, ls') = applyCooldown_logged (cooldown_now env) (newCooldownKey ref cfg) value
                                  (seconds (cooldownSeconds cfg)) (cooldowns s')
            in (Inr [(metricName cfg, v)], s'\<lparr>cooldowns := cds\<rparr>, ls @ ls')))))"

fun stream_log :: "'s metrics_collector \<Rightarrow> scaler_config \<Rightarrow> stream_event list \<Rightarrow> 's scaler \<Rightarrow> scaler_line list" where
  "stream_log C cfg [] s = []"
| "stream_log C cfg (ContextDone # es) s = []"
| "stream_log C cfg (Tick env send_err # es) s =
     (case getMetricValue_logged C env cfg s of
        (Inl e, s', ls) \<Rightarrow> ls @ StreamFailedLine e # stream_log C cfg es s'
      | (Inr value, s', ls) \<Rightarrow>
          ls @ (case send_err of Some e \<Rightarrow> [] | None \<Rightarrow> stream_log C cfg es s'))"

section \<open>The start with its logger\<close>

definition start_lines :: "process \<Rightarrow> daemon_flags \<Rightarrow> main_line list" where
  "start_lines os fl =
     (let e = FromType os (Detect_env os) in
      [StartingLine (port fl) (metricsPort fl) (probePort fl) (logLevel fl),
       EnvironmentLine (Orchestrator e) (NodeName e) (PodName e) (Namespace e)] @
      (if 0 < probePort fl then [] else [ProbeDisabledLine]))"

definition nvml_lines :: "('w, 'd) nvml \<Rightarrow> 'w \<Rightarrow> main_line list" where
  "nvml_lines nv w = (case run_state (Init nv) w of
     (Inl ret, w1) \<Rightarrow> []
   | (Inr _, w1) \<Rightarrow> [NVMLInitializedLine, case fst (run_state (SystemGetDriverVersion nv) w1) of
       Inl ret \<Rightarrow> VersionFailedLine ret | Inr v \<Rightarrow> DriverDetectedLine v])"

definition detected_lines :: "('w, 'd) nvml \<Rightarrow> (string \<Rightarrow> bool) \<Rightarrow> 'w \<Rightarrow> main_line list" where
  "detected_lines nv exists w =
     (let v = detectVendor exists in
      if v = VendorUnknown then [] else VendorLine v # (if v = VendorNVIDIA then nvml_lines nv w else []))"

definition collector_lines ::
  "('w, 'd) nvml \<Rightarrow> (string \<Rightarrow> bool) \<Rightarrow> daemon_flags \<Rightarrow> 'w \<Rightarrow> main_line list" where
  "collector_lines nv exists fl w =
     (if 0 < mockGPUs fl then
        (if mockGPUUtilization fl < 0 \<or> 100 < mockGPUUtilization fl
         then [FatalLine (BadMockUtilization (mockGPUUtilization fl))]
         else [SyntheticLine (mockGPUs fl) (mockGPUUtilization fl)])
      else detected_lines nv exists w @
        (case NewDetectedCollector nv exists w of
           Inl e \<Rightarrow> [FatalLine (CollectorFatal e)] | Inr c \<Rightarrow> []))"

definition device_line :: "metrics \<Rightarrow> main_line" where
  "device_line m = DeviceLine (Index m) (Name_gpu m) (UUID m) (GPUUtilization m) (MemoryUsedMiB m) (MemoryTotalMiB m)"

text \<open>The address is that of the listener that was opened.\<close>

definition service_lines ::
  "'s metrics_collector \<Rightarrow> string option \<Rightarrow> string \<Rightarrow> 's \<Rightarrow> main_line list" where
  "service_lines C listen_err addr c = (case DeviceCount C c of
     (Inl e, c1) \<Rightarrow> [FatalLine (CountFatal e)]
   | (Inr n, c1) \<Rightarrow>
       CountLine n #
       (case fst (CollectAll C c1) of Inl e \<Rightarrow> [CollectFailedLine e] | Inr ms \<Rightarrow> map device_line ms) @
       (case listen_err of Some e \<Rightarrow> [FatalLine (ListenFatal e)] | None \<Rightarrow> [ListeningLine addr]))"

definition main_log ::
  "('w, 'd, 'l) surroundings \<Rightarrow> process \<Rightarrow> string \<Rightarrow> daemon_flags \<Rightarrow> 'w \<Rightarrow> main_line list" where
  "main_log env os addr fl w =
     (if Requested (showVersion_daemon fl) (args_daemon fl) then []
      else (case initLogger (zap_build env) (logLevel fl) of
        Inl e \<Rightarrow> []
      | Inr logger \<Rightarrow>
          start_lines os fl @ collector_lines (nvml_driver env) (file_exists env) fl w @
          (case choose_collector (nvml_driver env) (file_exists env) fl w of
             Inl e \<Rightarrow> []
           | Inr c \<Rightarrow> (if 0 < metricsPort fl then [] else [MetricsDisabledLine]) @
               service_lines (process_ops env) (listen_error env) addr (instrument fl c))))"

section \<open>Facts on readings\<close>

fun logged_value :: "scaler_line \<Rightarrow> f64" where
  "logged_value (GPUMetricLine i n t v) = v"
| "logged_value (VLLMMetricLine e t v q r k) = v"
| "logged_value (TritonMetricLine e t v a r i) = v"
| "logged_value (CooldownLine k r c d) = r"
| "logged_value (StreamFailedLine e) = f64_of_nat 0"

fun logged_device :: "scaler_line \<Rightarrow> (int \<times> string) option" where
  "logged_device (GPUMetricLine i n t v) = Some (i, n)"
| "logged_device _ = None"

lemma logMetric_simps [simp]:
  "logged_value (logMetric m t v) = v" "logged_device (logMetric m t v) = Some (Index m, Name_gpu m)"
  "scaler_level (logMetric m t v) = Some DebugLevel"
  by (simp_all add: logMetric_def)

lemma lines_of_values:
  "map (\<lambda>(m, v). logMetric m t v) (zip ms (map f ms)) = map (\<lambda>m. logMetric m t (f m)) ms"
  by (induction ms) simp_all

lemma vllm_logged:
  assumes "getVLLMMetricValue_logged env cfg s = (r, s', ls)"
  shows "getVLLMMetricValue env cfg s = (r, s')" "map logged_value ls = (case r of Inl e \<Rightarrow> [] | Inr v \<Rightarrow> [v])"
    "\<forall>l \<in> set ls. scaler_level l = Some DebugLevel"
  using assms
  by (auto simp: getVLLMMetricValue_logged_def getVLLMMetricValue_def Let_def split: prod.splits sum.splits)

lemma triton_logged:
  assumes "getTritonMetricValue_logged env cfg s = (r, s', ls)"
  shows "getTritonMetricValue env cfg s = (r, s')" "map logged_value ls = (case r of Inl e \<Rightarrow> [] | Inr v \<Rightarrow> [v])"
    "\<forall>l \<in> set ls. scaler_level l = Some DebugLevel"
  using assms
  by (auto simp: getTritonMetricValue_logged_def getTritonMetricValue_def Let_def split: prod.splits sum.splits)

definition single_source :: "scaler_config \<Rightarrow> bool" where
  "single_source cfg \<longleftrightarrow> IsVLLMMetric (metricType cfg) \<or> IsTritonMetric (metricType cfg) \<or> 0 \<le> gpuIndex cfg"

lemma all_devices_logged:
  assumes "\<not> single_source cfg" "getMetricValue_logged C env cfg s = (r, s', ls)"
  obtains e k where "CollectAll C (coll s) = (Inl e, k)" "r = Inl (CollectorFailed e)" "s' = s\<lparr>coll := k\<rparr>" "ls = []"
  | k where "CollectAll C (coll s) = (Inr [], k)" "r = Inl NoDevices" "s' = s\<lparr>coll := k\<rparr>" "ls = []"
  | ms k v where "CollectAll C (coll s) = (Inr ms, k)" "ms \<noteq> []" "r = Inr v" "s' = s\<lparr>coll := k\<rparr>"
      "ls = map (\<lambda>m. logMetric m (metricType cfg) (extractMetric m (metricType cfg))) ms"
      "aggregate (map (\<lambda>m. extractMetric m (metricType cfg)) ms) (aggregation cfg) = Some v"
proof -
  let ?vs = "\<lambda>ms. map (\<lambda>m. extractMetric m (metricType cfg)) ms"
  obtain q k where q: "CollectAll C (coll s) = (q, k)" by fastforce
  have d: "\<not> IsVLLMMetric (metricType cfg)" "\<not> IsTritonMetric (metricType cfg)" "\<not> 0 \<le> gpuIndex cfg"
    using assms(1) by (simp_all add: single_source_def)
  show thesis
  proof (cases q)
    case (Inl e)
    then show thesis using that(1) q assms(2) d by (simp add: getMetricValue_logged_def)
  next
    case (Inr ms)
    obtain v where v: "aggregate (?vs ms) (aggregation cfg) = Some v" using aggregate_total by (metis option.exhaust)
    show thesis
      using that(2,3) q Inr assms(2) d v
      by (cases "ms = []") (auto simp: getMetricValue_logged_def Let_def lines_of_values [simplified])
  qed
qed

lemma read_logged:
  assumes "getMetricValue_logged C env cfg s = (r, s', ls)"
  shows "getMetricValue C env cfg s = (r, s')" "\<forall>l \<in> set ls. scaler_level l = Some DebugLevel"
    "single_source cfg \<Longrightarrow> map logged_value ls = (case r of Inl e \<Rightarrow> [] | Inr v \<Rightarrow> [v])"
    "r = Inl e \<Longrightarrow> ls = []"
proof -
  note d = getMetricValue_logged_def [of C env cfg s] getMetricValue_def [of C env cfg s]
  consider (vllm) "IsVLLMMetric (metricType cfg)"
    | (triton) "\<not> IsVLLMMetric (metricType cfg)" "IsTritonMetric (metricType cfg)"
    | (device) "\<not> IsVLLMMetric (metricType cfg)" "\<not> IsTritonMetric (metricType cfg)" "0 \<le> gpuIndex cfg"
    | (all) "\<not> single_source cfg"
    by (auto simp: single_source_def)
  then have *: "getMetricValue C env cfg s = (r, s') \<and> (\<forall>l \<in> set ls. scaler_level l = Some DebugLevel) \<and>
      (single_source cfg \<longrightarrow> map logged_value ls = (case r of Inl e \<Rightarrow> [] | Inr v \<Rightarrow> [v])) \<and> (r = Inl e \<longrightarrow> ls = [])"
  proof cases
    case vllm
    then show ?thesis using assms vllm_logged [of env cfg s r s' ls] by (auto simp: d)
  next
    case triton
    then show ?thesis using assms triton_logged [of env cfg s r s' ls] by (auto simp: d)
  next
    case device
    then show ?thesis using assms by (auto simp: d Let_def split: prod.splits sum.splits)
  next
    case all
    then have n: "\<not> IsVLLMMetric (metricType cfg)" "\<not> IsTritonMetric (metricType cfg)" "\<not> 0 \<le> gpuIndex cfg"
      by (simp_all add: single_source_def)
    from all assms show ?thesis by (cases rule: all_devices_logged) (use all n in \<open>auto simp: getMetricValue_def\<close>)
  qed
  show "getMetricValue C env cfg s = (r, s')" "\<forall>l \<in> set ls. scaler_level l = Some DebugLevel"
    "single_source cfg \<Longrightarrow> map logged_value ls = (case r of Inl e \<Rightarrow> [] | Inr v \<Rightarrow> [v])" "r = Inl e \<Longrightarrow> ls = []"
    using * by simp_all
qed

section \<open>Facts on the cooldown\<close>

definition held :: "gotime \<Rightarrow> cooldown_key \<Rightarrow> f64 \<Rightarrow> duration \<Rightarrow> cooldowns \<Rightarrow> bool" where
  "held now key x d cds \<longleftrightarrow> 0 < d \<and> (\<exists>st. cds key = Some st \<and> \<not> f64_le (lastValue st) x \<and> window_open now d st)"

lemma cooldown_logged:
  "applyCooldown_logged now key x d cds =
     (fst (applyCooldown now key x d cds), snd (applyCooldown now key x d cds),
      if held now key x d cds then [CooldownLine (cooldown_key_String key) (lastValue (the (cds key))) x
          (wrap64 (d - time_sub now (lastScaleDownAt (the (cds key)))))] else [])"
  by (auto simp: applyCooldown_logged_def applyCooldown_def held_def window_open_def split: option.split)

lemma not_held: "\<not> held now key x d cds \<Longrightarrow> fst (applyCooldown now key x d cds) = x"
  by (cases rule: cd_cases [where d = d and cds = cds and key = key and v = x and now = now])
    (auto simp: held_def cd_eqs)

lemma held_applies:
  assumes "0 < d" "cds key = Some st"
  shows "fst (applyCooldown now key y d cds) = (if window_open now d st \<and> \<not> f64_le (lastValue st) y then lastValue st else y)"
  using assms
  by (cases rule: cd_cases [where d = d and cds = cds and key = key and v = y and now = now]) (auto simp: cd_eqs)

text \<open>A window opened at \<open>t\<close> on the monotonic clock is open up to \<open>t + d\<close>.\<close>

lemma window_until:
  assumes "mono now = Some a" "mono (lastScaleDownAt st) = Some t" "0 \<le> t" "t \<le> a" "a \<le> max_int64"
    "\<not> is_zero_time (lastScaleDownAt st)"
  shows "time_sub now (lastScaleDownAt st) = a - t" "window_open now d st \<longleftrightarrow> a < t + d"
proof -
  show *: "time_sub now (lastScaleDownAt st) = a - t"
    using assms by (simp add: time_sub_def saturate64_def min_int64_def max_int64_def)
  show "window_open now d st \<longleftrightarrow> a < t + d" using assms(6) * by (auto simp: window_open_def)
qed

lemma written_levels:
  "\<forall>l \<in> set ls. scaler_level l = Some DebugLevel \<Longrightarrow> written InfoLevel scaler_level (ls @ ls') = written InfoLevel scaler_level ls'"
  by (simp add: written_def enabled_def filter_False)

lemma GetMetrics_logged_ok:
  assumes "parseMetadata (scalerMetadata ref) = Inr cfg" "getMetricValue C env cfg s = (Inr x, s1)"
    and "GetMetrics_logged C env (Some ref) s = (r, s', ls)"
  defines "key \<equiv> newCooldownKey ref cfg" and "d \<equiv> seconds (cooldownSeconds cfg)" and "now \<equiv> cooldown_now env"
  shows "GetMetrics C env (Some ref) s = (r, s')"
    "r = Inr [(metricName cfg, fst (applyCooldown now key x d (cooldowns s)))]"
    "cooldowns s' = snd (applyCooldown now key x d (cooldowns s))"
    "written InfoLevel scaler_level ls =
      (if held now key x d (cooldowns s) then [CooldownLine (cooldown_key_String key) (lastValue (the (cooldowns s key))) x
          (wrap64 (d - time_sub now (lastScaleDownAt (the (cooldowns s key)))))] else [])"
proof -
  obtain rs s2 ls1 where l: "getMetricValue_logged C env cfg s = (rs, s2, ls1)" by (metis prod.collapse)
  have rs: "rs = Inr x" "s2 = s1" using read_logged(1) [OF l] assms(2) by simp_all
  have c: "cooldowns s1 = cooldowns s" using getMetricValue_cooldownsD [OF assms(2)] .
  note defs = GetMetrics_logged_def GetMetrics_def assms(1,2) l rs c Let_def
  show "GetMetrics C env (Some ref) s = (r, s')"
    "r = Inr [(metricName cfg, fst (applyCooldown now key x d (cooldowns s)))]"
    "cooldowns s' = snd (applyCooldown now key x d (cooldowns s))"
    using assms(3) by (auto simp: defs cooldown_logged key_def d_def now_def split: prod.splits)
  have "ls = ls1 @ snd (snd (applyCooldown_logged now key x d (cooldowns s)))"
    using assms(3) by (auto simp: defs key_def d_def now_def split: prod.splits)
  moreover note written_levels [OF read_logged(2) [OF l]]
  ultimately show "written InfoLevel scaler_level ls =
      (if held now key x d (cooldowns s) then [CooldownLine (cooldown_key_String key) (lastValue (the (cooldowns s key))) x
          (wrap64 (d - time_sub now (lastScaleDownAt (the (cooldowns s key)))))] else [])"
    by (simp add: cooldown_logged) (simp add: written_def enabled_def)
qed

section \<open>Facts on the start\<close>

fun fatal_of :: "main_line \<Rightarrow> fatal list" where
  "fatal_of (FatalLine e) = [e]"
| "fatal_of _ = []"

definition fatal_lines :: "main_line list \<Rightarrow> fatal list" where
  "fatal_lines ls = concat (map fatal_of ls)"

text \<open>Why \<open>main\<close> ended, as far as its logger could say: a panic goes past the logger.\<close>

fun blamed :: "fatal \<Rightarrow> fatal list" where
  "blamed MakePanic = []"
| "blamed (LoggerPanic e) = []"
| "blamed e = [e]"

definition reason_logged :: "'w phase \<Rightarrow> fatal list" where
  "reason_logged ph = (case ph of Exited (Died e) \<Rightarrow> blamed e | _ \<Rightarrow> [])"

lemma fatal_lines_simps [simp]:
  "fatal_lines [] = []" "fatal_lines (l # ls) = fatal_of l @ fatal_lines ls"
  "fatal_lines (xs @ ys) = fatal_lines xs @ fatal_lines ys"
  by (simp_all add: fatal_lines_def)

lemma fatal_always_written: "fatal_lines (written at main_level ls) = fatal_lines ls"
proof (induction ls)
  case (Cons l ls)
  then show ?case by (cases l) (simp_all add: written_def enabled_def)
qed (simp add: written_def)

lemma error_level_fatal: "written ErrorLevel main_level ls = map FatalLine (fatal_lines ls)"
proof (induction ls)
  case (Cons l ls)
  then show ?case by (cases l) (simp_all add: written_def enabled_def)
qed (simp add: written_def)

lemma device_lines_plain: "fatal_lines (map device_line ms) = []" "CollectFailedLine e \<notin> set (map device_line ms)"
  by (induction ms) (auto simp: device_line_def)

lemma detected_lines_plain:
  "fatal_lines (detected_lines nv exists w) = []" "CollectFailedLine e \<notin> set (detected_lines nv exists w)"
  by (auto simp: detected_lines_def nvml_lines_def Let_def split: sum.splits prod.splits)

lemma start_lines_plain: "fatal_lines (start_lines os fl) = []" "CollectFailedLine e \<notin> set (start_lines os fl)"
  by (simp_all add: start_lines_def Let_def)

lemma collector_lines_tell:
  "fatal_lines (collector_lines nv exists fl w) =
     (case choose_collector nv exists fl w of Inl e \<Rightarrow> blamed e | Inr c \<Rightarrow> [])"
  "CollectFailedLine e \<notin> set (collector_lines nv exists fl w)"
  by (auto simp: collector_lines_def choose_collector_def detected_lines_plain split: sum.splits option.splits)

lemma service_lines_tell:
  "fatal_lines (service_lines C listen_err addr c) =
     (case start_service C fl listen_err c of Inl e \<Rightarrow> blamed e | Inr d \<Rightarrow> [])"
  "start_service C fl listen_err c = Inr d \<Longrightarrow>
     Ready (daemon_probe d) \<longleftrightarrow> (\<forall>e. CollectFailedLine e \<notin> set (service_lines C listen_err addr c))"
proof -
  obtain n c1 where n: "DeviceCount C c = (n, c1)" by fastforce
  obtain q c2 where q: "CollectAll C c1 = (q, c2)" by fastforce
  show "fatal_lines (service_lines C listen_err addr c) =
     (case start_service C fl listen_err c of Inl e \<Rightarrow> blamed e | Inr d \<Rightarrow> [])"
    by (cases n; cases q; cases listen_err) (simp_all add: service_lines_def start_service_def n q device_lines_plain)
  show "start_service C fl listen_err c = Inr d \<Longrightarrow>
     Ready (daemon_probe d) \<longleftrightarrow> (\<forall>e. CollectFailedLine e \<notin> set (service_lines C listen_err addr c))"
    by (cases n; cases q; cases listen_err)
      (auto simp: service_lines_def start_service_def n q device_lines_plain(2) [simplified] Ready_def MarkReady_def)
qed

section \<open>Properties\<close>

text \<open>
  Every tick of a stream is accounted for: while responses go out and the client stays, each tick is
  either answered, by the response \<open>StreamIsActive\<close> sends, or warned about, and at the default level
  nothing else is logged.\<close>

theorem ticks_accounted:
  "length (fst (stream_loop C cfg (map (\<lambda>env. Tick env None) envs) s)) +
     length (written InfoLevel scaler_level (stream_log C cfg (map (\<lambda>env. Tick env None) envs) s)) = length envs"
proof (induction envs arbitrary: s)
  case (Cons env envs)
  obtain r s' ls where l: "getMetricValue_logged C env cfg s = (r, s', ls)" by (metis prod.collapse)
  then show ?case
    using read_logged(1,2) [OF l] Cons.IH [of s']
    by (cases r) (simp_all add: case_prod_beta written_levels, simp_all add: written_def enabled_def)
qed (simp add: written_def)

text \<open>
  The log accounts for every reading.  Logging changes neither what is read nor the state, and a read
  that fails logs nothing.  One that succeeds logs, at debug level, the value itself if it comes from an
  engine or a single GPU, and for all GPUs one line for each snapshot, in order, with its index and
  name, whose values aggregate to the value read.\<close>

theorem readings_logged:
  assumes "getMetricValue_logged C env cfg s = (r, s', ls)"
  shows "getMetricValue C env cfg s = (r, s') \<and> (\<forall>l \<in> set ls. scaler_level l = Some DebugLevel) \<and>
    (case r of
       Inl e \<Rightarrow> ls = []
     | Inr v \<Rightarrow>
         if single_source cfg then map logged_value ls = [v]
         else aggregate (map logged_value ls) (aggregation cfg) = Some v \<and>
           (\<exists>ms k. CollectAll C (coll s) = (Inr ms, k) \<and> map logged_device ls = map (\<lambda>m. Some (Index m, Name_gpu m)) ms))"
proof (cases "single_source cfg")
  case True
  then show ?thesis using read_logged [OF assms] by (auto split: sum.split)
next
  case False
  then show ?thesis using read_logged(1,2) [OF assms] by (cases rule: all_devices_logged [OF False assms]) (auto simp: comp_def)
qed

lemma readings_logged_witness:
  "\<exists>ls. getMetricValue_logged mock_ops (demo_env 1) (default_config\<lparr>aggregation := ''sum''\<rparr>) demo_scaler =
       (Inr (f64_of_nat 160), demo_scaler, ls) \<and> map logged_value ls = [f64_of_nat 80, f64_of_nat 80] \<and>
     getMetricValue mock_ops (demo_env 1) (default_config\<lparr>aggregation := ''sum''\<rparr>) demo_scaler = (Inr (f64_of_nat 160), demo_scaler)"
proof -
  let ?cfg = "default_config\<lparr>aggregation := ''sum''\<rparr>"
  have u: "unat (80 :: u32) = 80" by simp
  have a: "aggregate [f64_of_nat 80, f64_of_nat 80] ''sum'' = Some (f64_of_nat 160)"
    using aggregate_nat [of "[80, 80]" "''sum''"] by (simp add: aggregate_spec_def)
  obtain ls where ls: "getMetricValue_logged mock_ops (demo_env 1) ?cfg demo_scaler = (Inr (f64_of_nat 160), demo_scaler, ls)"
      "map logged_value ls = [f64_of_nat 80, f64_of_nat 80]"
    using a u by (simp add: getMetricValue_logged_def default_config_def IsVLLMMetric_def IsTritonMetric_def metric_type_defs
        demo_scaler_def NewGPUExternalScaler_def NewMockCollector_def mock_CollectAll_def mock_device_def zero_metrics_def
        extractMetric_def u_float_def upt_rec Let_def)
  show ?thesis
    by (intro exI [of _ ls] conjI) (rule ls conjunct1 [OF readings_logged [OF ls(1)]])+
qed

text \<open>C13
  A held scale-down is announced, with the time it is held for.  At the default level a successful
  \<open>GetMetrics\<close> call whose report differs from what it read has logged one line, and any line it has
  logged names the series, the report and the reading, and a time left that is true: on a monotonic
  clock, until it has passed every lower reading of the series is reported as the value still held, and
  from then on, as any reading that is not lower at any time, as it is.\<close>

theorem suppression_logged:
  assumes "parseMetadata (scalerMetadata ref) = Inr cfg" "getMetricValue C env cfg s = (Inr x, s1)"
    and "GetMetrics_logged C env (Some ref) s = (r, s', ls)"
    and "mono (cooldown_now env) = Some a" "a \<le> max_int64" "seconds (cooldownSeconds cfg) = d"
    and "\<And>st. cooldowns s (newCooldownKey ref cfg) = Some st \<Longrightarrow> \<not> is_zero_time (lastScaleDownAt st) \<Longrightarrow>
      \<exists>t. mono (lastScaleDownAt st) = Some t \<and> 0 \<le> t \<and> t \<le> a"
  shows "\<exists>v. GetMetrics C env (Some ref) s = (r, s') \<and> r = Inr [(metricName cfg, v)] \<and>
    (written InfoLevel scaler_level ls = [] \<and> v = x \<or>
     (\<exists>left. written InfoLevel scaler_level ls = [CooldownLine (cooldown_key_String (newCooldownKey ref cfg)) v x left] \<and>
        0 < left \<and> left \<le> d \<and>
        (\<forall>now' a' y. mono now' = Some a' \<and> a \<le> a' \<and> a' \<le> max_int64 \<longrightarrow>
           fst (applyCooldown now' (newCooldownKey ref cfg) y d (cooldowns s')) =
             (if a' < a + left \<and> \<not> f64_le v y then v else y))))"
proof (cases "held (cooldown_now env) (newCooldownKey ref cfg) x d (cooldowns s)")
  case False
  then show ?thesis using GetMetrics_logged_ok [OF assms(1-3)] not_held [OF False] assms(6) by simp
next
  case True
  let ?key = "newCooldownKey ref cfg"
  obtain st where st: "0 < d" "cooldowns s ?key = Some st" "\<not> f64_le (lastValue st) x" "window_open (cooldown_now env) d st"
    using True by (auto simp: held_def)
  have z: "\<not> is_zero_time (lastScaleDownAt st)" using st(4) by (simp add: window_open_def)
  then obtain t where t: "mono (lastScaleDownAt st) = Some t" "0 \<le> t" "t \<le> a" using assms(7) st(2) by blast
  note w = window_until [OF _ t(1,2) _ _ z]
  have now: "time_sub (cooldown_now env) (lastScaleDownAt st) = a - t" "a < t + d"
    using w [OF assms(4) t(3) assms(5)] st(4) by simp_all
  have "in_int64 d" using assms(6) by (auto simp: seconds_def)
  then have left: "wrap64 (d - (a - t)) = d - (a - t)"
    using now(2) t by (intro wrap64_id) (simp add: in_int64_def min_int64_def max_int64_def)
  note cd = cd_hold [where d = d and cds = "cooldowns s" and key = ?key and st = st and v = x and now = "cooldown_now env", OF st]
  note g = GetMetrics_logged_ok [OF assms(1-3)]
  have s': "cooldowns s' ?key = Some st" using g(3) cd assms(6) st(2) by simp
  have "fst (applyCooldown now' ?key y d (cooldowns s')) = (if a' < a + (d - (a - t)) \<and> \<not> f64_le (lastValue st) y then lastValue st else y)"
    if "mono now' = Some a'" "a \<le> a'" "a' \<le> max_int64" for now' a' y
    using held_applies [of d "cooldowns s'" ?key st now' y, OF st(1) s'] w [OF that(1) _ that(3)] that(2) t(3) by simp
  then show ?thesis using g(1,2,4) True cd assms(6) st(2) now left t(3) by auto
qed

definition cooling_scaler :: "mock_collector scaler" where
  "cooling_scaler = demo_scaler\<lparr>cooldowns :=
     [demo_series \<mapsto> \<lparr>lastValue = f64_of_nat 90, lastScaleDownAt = \<lparr>wall = 2000000000, mono = Some 2000000000\<rparr>\<rparr>]\<rparr>"

lemma cooling_read: "getMetricValue mock_ops env default_config cooling_scaler = (Inr (f64_of_nat 80), cooling_scaler)"
proof -
  have u: "unat (80 :: u32) = 80" by simp
  have m: "aggregate [f64_of_nat 80, f64_of_nat 80] ''max'' = Some (f64_of_nat 80)"
    using aggregate_nat [of "[80, 80]" "''max''"] by (simp add: aggregate_spec_def)
  show ?thesis
    using u by (simp add: getMetricValue_def default_config_def cooling_scaler_def demo_scaler_def NewGPUExternalScaler_def
        NewMockCollector_def mock_CollectAll_def IsVLLMMetric_def IsTritonMetric_def metric_type_defs
        extractMetric_def mock_device_def u_float_def upt_rec m)
qed

lemma suppression_logged_witness:
  "\<exists>ls left s'. written InfoLevel scaler_level ls =
       [CooldownLine (cooldown_key_String demo_series) (f64_of_nat 90) (f64_of_nat 80) left] \<and> 0 < left \<and> left \<le> seconds 60 \<and>
     GetMetrics mock_ops (demo_env 12000000000) (Some (demo_ref Map.empty)) cooling_scaler =
       (Inr [(''keda_gpu_metric'', f64_of_nat 90)], s')"
proof -
  let ?env = "demo_env 12000000000"
  obtain r s' ls where g: "GetMetrics_logged mock_ops ?env (Some (demo_ref Map.empty)) cooling_scaler = (r, s', ls)"
    by (metis prod.collapse)
  have p: "parseMetadata (scalerMetadata (demo_ref Map.empty)) = Inr default_config" by (simp add: demo_ref_def parse_empty)
  have c: "fst (applyCooldown (cooldown_now ?env) demo_series (f64_of_nat 80) (seconds 60) (cooldowns cooling_scaler)) = f64_of_nat 90"
    by (simp add: cooling_scaler_def applyCooldown_def seconds_max nanos_per_second_def is_zero_time_def time_sub_def
        demo_env_def saturate64_def min_int64_def max_int64_def)
  have r: "r = Inr [(''keda_gpu_metric'', f64_of_nat 90)]"
    using GetMetrics_logged_ok(2) [OF p cooling_read g] c by (simp add: demo_cooldown)
  show ?thesis
    using suppression_logged [OF p cooling_read g, of 12000000000 "seconds 60"] r
    by (auto simp: demo_env_def demo_cooldown cooling_scaler_def max_int64_def)
qed

text \<open>C25
  A start that dies says why, at every level.  With any \<open>--log-level\<close>, flags, environment and driver,
  what \<open>main\<close> logs up to \<open>Serve\<close> has one fatal line if \<open>main\<close> dies of an error, with that error, and none
  otherwise; only two panics, of the logger itself and of an absurd number of synthetic GPUs, go
  unlogged.  At level \<open>error\<close> that line is all there is.  A daemon that serves is ready exactly if no
  failed first collection was logged.\<close>

theorem start_log_says_why:
  fixes env :: "('w, 'd, 'l) surroundings"
  defines "final fl w \<equiv> phase ((main_step env fl ^^ 5) (launch w))"
  shows "fatal_lines (written (zap_level_of (logLevel fl)) main_level (main_log env os addr fl w)) = reason_logged (final fl w) \<and>
    (logLevel fl = ''error'' \<longrightarrow> written (zap_level_of (logLevel fl)) main_level (main_log env os addr fl w)
       = map FatalLine (reason_logged (final fl w))) \<and>
    (\<forall>r d. final fl w = Serves r d \<longrightarrow> (Ready (daemon_probe d) \<longleftrightarrow> (\<forall>e. CollectFailedLine e \<notin> set (main_log env os addr fl w))))"
proof -
  note plain = start_lines_plain collector_lines_tell
  have "fatal_lines (main_log env os addr fl w) = reason_logged (final fl w) \<and>
    (\<forall>r d. final fl w = Serves r d \<longrightarrow> (Ready (daemon_probe d) \<longleftrightarrow> (\<forall>e. CollectFailedLine e \<notin> set (main_log env os addr fl w))))"
  proof (cases "Requested (showVersion_daemon fl) (args_daemon fl)")
    case True
    then show ?thesis by (simp add: final_def start_step_by_step main_log_def reason_logged_def)
  next
    case False
    note f = final_def start_step_by_step main_log_def reason_logged_def False daemon_main_def plain
    show ?thesis
    proof (cases "initLogger (zap_build env) (logLevel fl)")
      case (Inl e)
      then show ?thesis by (cases "zap_build env (logger_config (logLevel fl))") (auto simp: f initLogger_def)
    next
      case (Inr logger)
      show ?thesis
      proof (cases "choose_collector (nvml_driver env) (file_exists env) fl w")
        case (Inl e)
        then show ?thesis using Inr by (simp add: f)
      next
        case c: (Inr c)
        let ?start = "start_service (process_ops env) fl (listen_error env) (instrument fl c)"
        show ?thesis
        proof (cases ?start)
          case (Inl e)
          then show ?thesis using Inr c by (simp add: f service_lines_tell(1) [where fl = fl])
        next
          case (Inr d)
          then show ?thesis using \<open>initLogger _ _ = _\<close> c service_lines_tell(2) [OF Inr, where addr = addr]
            by (simp add: f service_lines_tell(1) [where fl = fl])
        qed
      qed
    qed
  qed
  then show ?thesis by (simp add: fatal_always_written) (simp add: zap_level_of_def error_level_fatal)
qed

lemma start_log_says_why_witness:
  "written ErrorLevel main_level
     (main_log demo_surroundings (demo_process []) ''[::]:6000'' (demo_flags\<lparr>mockGPUs := 0, logLevel := ''error''\<rparr>) ()) =
   [FatalLine (CollectorFatal NoGPUDevice)]"
proof -
  let ?fl = "demo_flags\<lparr>mockGPUs := 0, logLevel := ''error''\<rparr>"
  have "phase ((main_step demo_surroundings ?fl ^^ 5) (launch ())) = Exited (Died (CollectorFatal NoGPUDevice))"
    by (simp add: start_step_by_step demo_surroundings_def demo_flags_def initLogger_def Requested_def daemon_main_def
        choose_collector_def NewDetectedCollector_def detectVendor_def)
  then show ?thesis
    using start_log_says_why [of ?fl demo_surroundings "demo_process []" "''[::]:6000''" "()"]
    by (simp add: reason_logged_def zap_level_of_def)
qed

end
