(* ===== verification/NodeLog.thy ===== *)
theory NodeLog
  imports Nvml
begin

text \<open>
  What the NVML collector logs of a collection of all GPUs: the definitions of \<open>Nvml\<close> on the way of
  \<open>CollectAll\<close> once more, with their logger calls.  All of them are warnings.  The two for an error of
  \<open>collectMIGInstances\<close> and of \<open>collectMIGDevice\<close>, which neither ever returns, are left out, and so
  are the debug line of a GPU without NVLink and the messages of NVML's codes.
\<close>

datatype node_line =
    HandleFailedLine int int
  | NotPartitionedLine int
  | DeviceFailedLine int gpu_error

fun line_gpu :: "node_line \<Rightarrow> int" where
  "line_gpu (HandleFailedLine i ret) = i"
| "line_gpu (NotPartitionedLine i) = i"
| "line_gpu (DeviceFailedLine i e) = i"

section \<open>The collection with its logger\<close>

partial_function (option) mig_instances_logged ::
  "('w, 'd) nvml \<Rightarrow> 'd \<Rightarrow> int \<Rightarrow> metrics \<Rightarrow> nat \<Rightarrow> 'w \<Rightarrow> ((metrics list \<times> node_line list) \<times> 'w) option" where
  "mig_instances_logged nv d parent physical idx w = (case run_state (GetMigDeviceHandleByIndex nv d idx) w of
     (r, w1) \<Rightarrow> (case r of
        Inl _ \<Rightarrow> Some (([], if idx = 0 then [NotPartitionedLine parent] else []), w1)
      | Inr mig \<Rightarrow> (case run_state (collectMIGDevice nv mig parent (int idx) physical) w1 of
          (m, w2) \<Rightarrow> Option.bind (mig_instances_logged nv d parent physical (Suc idx) w2)
            (\<lambda>((ms, ls), w3). Some ((m # ms, ls), w3)))))"

definition collectMIGInstances_logged ::
  "('w, 'd) nvml \<Rightarrow> 'd \<Rightarrow> int \<Rightarrow> ('w, metrics list option \<times> node_line list) state" where
  "collectMIGInstances_logged nv d parent = do {
     physical \<leftarrow> collectPhysicalForMIG nv d parent;
     State (\<lambda>w. case mig_instances_logged nv d parent physical 0 w of
       None \<Rightarrow> ((None, []), w) | Some ((ms, ls), w') \<Rightarrow> ((Some ms, ls), w'))
   }"

definition collect_gpu_logged ::
  "('w, 'd) nvml \<Rightarrow> nat \<Rightarrow> ('w, metrics list option \<times> node_line list) state" where
  "collect_gpu_logged nv i = do {
     r \<leftarrow> DeviceGetHandleByIndex nv (int i);
     (case r of
        Inl ret \<Rightarrow> State_Monad.return (Some [], [HandleFailedLine (int i) ret])
      | Inr d \<Rightarrow> do {
          mig \<leftarrow> isMIGEnabled nv d;
          (if mig then collectMIGInstances_logged nv d (int i)
           else do {
             c \<leftarrow> collectDevice nv (int i);
             State_Monad.return (case c of
               Inl e \<Rightarrow> (Some [], [DeviceFailedLine (int i) e]) | Inr m \<Rightarrow> (Some [m], []))
           })
        })
   }"

fun collect_gpus_logged ::
  "('w, 'd) nvml \<Rightarrow> nat list \<Rightarrow> ('w, metrics list option \<times> node_line list) state" where
  "collect_gpus_logged nv [] = State_Monad.return (Some [], [])"
| "collect_gpus_logged nv (i # rest) = do {
     (r, ls) \<leftarrow> collect_gpu_logged nv i;
     (case r of
        None \<Rightarrow> State_Monad.return (None, ls)
      | Some ms \<Rightarrow> do {
          (more, ls') \<leftarrow> collect_gpus_logged nv rest;
          State_Monad.return (map_option ((@) ms) more, ls @ ls')
        })
   }"

definition CollectAll_logged ::
  "('w, 'd) nvml \<Rightarrow> ('w, (gpu_error, metrics list) result \<times> node_line list) state" where
  "CollectAll_logged nv = do {
     r \<leftarrow> nvml_DeviceCount nv;
     (case r of
        Inl e \<Rightarrow> State_Monad.return (Inl e, [])
      | Inr count \<Rightarrow> do {
          (ms, ls) \<leftarrow> collect_gpus_logged nv [0..<nat count];
          State_Monad.return (case ms of None \<Rightarrow> Inl CollectionHangs | Some xs \<Rightarrow> Inr xs, ls)
        })
   }"

section \<open>Facts\<close>

text \<open>The loop with its logger is the loop, ends where it ends, and warns if it finds nothing.\<close>

lemma mig_logged_forget:
  "mig_instances_logged nv d p physical idx w = Some ((ms, ls), w') \<Longrightarrow>
     mig_instances nv d p physical idx w = Some (ms, w') \<and>
     ls = (if idx = 0 \<and> ms = [] then [NotPartitionedLine p] else [])"
proof (induction ms arbitrary: idx w)
  case Nil
  obtain r w1 where r: "run_state (GetMigDeviceHandleByIndex nv d idx) w = (r, w1)" by fastforce
  with Nil.prems show ?case
    by (subst (asm) mig_instances_logged.simps, subst mig_instances.simps)
      (cases r, auto split: prod.splits simp: bind_eq_Some_conv)
next
  case (Cons m ms)
  obtain r w1 where r: "run_state (GetMigDeviceHandleByIndex nv d idx) w = (r, w1)" by fastforce
  with Cons.prems obtain mig where mig: "r = Inr mig"
    by (subst (asm) mig_instances_logged.simps) (auto split: sum.splits)
  obtain m' w2 where m': "run_state (collectMIGDevice nv mig p (int idx) physical) w1 = (m', w2)" by fastforce
  have "mig_instances_logged nv d p physical (Suc idx) w2 = Some ((ms, ls), w')" "m' = m"
    using Cons.prems r mig m' by (subst (asm) mig_instances_logged.simps, auto simp: bind_eq_Some_conv)+
  with Cons.IH [OF this(1)] show ?case using r mig m' by (subst mig_instances.simps) simp
qed

lemma mig_logged_recall:
  "mig_instances nv d p physical idx w = Some (ms, w') \<Longrightarrow>
     \<exists>ls. mig_instances_logged nv d p physical idx w = Some ((ms, ls), w')"
proof (induction ms arbitrary: idx w)
  case Nil
  obtain r w1 where r: "run_state (GetMigDeviceHandleByIndex nv d idx) w = (r, w1)" by fastforce
  with Nil.prems show ?case
    by (subst (asm) mig_instances.simps, subst mig_instances_logged.simps)
      (cases r, auto split: prod.splits simp: bind_eq_Some_conv)
next
  case (Cons m ms)
  obtain r w1 where r: "run_state (GetMigDeviceHandleByIndex nv d idx) w = (r, w1)" by fastforce
  with Cons.prems obtain mig where mig: "r = Inr mig"
    by (subst (asm) mig_instances.simps) (auto split: sum.splits)
  obtain m' w2 where m': "run_state (collectMIGDevice nv mig p (int idx) physical) w1 = (m', w2)" by fastforce
  have "mig_instances nv d p physical (Suc idx) w2 = Some (ms, w')" "m' = m"
    using Cons.prems r mig m' by (subst (asm) mig_instances.simps, auto simp: bind_eq_Some_conv)+
  with Cons.IH show ?case using r mig m' by (subst mig_instances_logged.simps) fastforce
qed

text \<open>One GPU: the logged result is the plain one, and there is a line, of that GPU, exactly for an empty block.\<close>

definition gpu_logged ::
  "('w, metrics list option) state \<Rightarrow> ('w, metrics list option \<times> node_line list) state \<Rightarrow> int \<Rightarrow> 'w \<Rightarrow> bool" where
  "gpu_logged silent logged i w \<longleftrightarrow> (case run_state logged w of ((r, ls), w') \<Rightarrow>
     run_state silent w = (r, w') \<and> map line_gpu ls = (if r = Some [] then [i] else []))"

lemma instances_logged: "gpu_logged (collectMIGInstances nv d i) (collectMIGInstances_logged nv d i) i w"
proof -
  obtain physical w1 where p: "run_state (collectPhysicalForMIG nv d i) w = (physical, w1)" by fastforce
  show ?thesis
  proof (cases "mig_instances_logged nv d i physical 0 w1")
    case None
    then have "mig_instances nv d i physical 0 w1 = None"
      using mig_logged_recall [of nv d i physical 0 w1] by (cases "mig_instances nv d i physical 0 w1") auto
    then show ?thesis using None p by (simp add: gpu_logged_def collectMIGInstances_def collectMIGInstances_logged_def)
  next
    case (Some r)
    then obtain ms ls w' where "mig_instances_logged nv d i physical 0 w1 = Some ((ms, ls), w')" by (metis prod.exhaust)
    with mig_logged_forget [OF this] show ?thesis
      using p by (simp add: gpu_logged_def collectMIGInstances_def collectMIGInstances_logged_def)
  qed
qed

lemma gpu_is_logged: "gpu_logged (collect_gpu nv i) (collect_gpu_logged nv i) (int i) w"
proof -
  obtain h w1 where h: "run_state (DeviceGetHandleByIndex nv (int i)) w = (h, w1)" by fastforce
  show ?thesis
  proof (cases h)
    case (Inr d)
    obtain b w2 where b: "run_state (isMIGEnabled nv d) w1 = (b, w2)" by fastforce
    obtain c w3 where c: "run_state (collectDevice nv (int i)) w2 = (c, w3)" by fastforce
    show ?thesis using h Inr b c instances_logged [of nv d "int i" w2]
      by (cases b; cases c) (simp_all add: gpu_logged_def collect_gpu_def collect_gpu_logged_def)
  qed (simp add: gpu_logged_def collect_gpu_def collect_gpu_logged_def h)
qed

lemma gpus_logged:
  "run_state (collect_gpus_logged nv is0) w = ((r, ls), w') \<Longrightarrow>
     run_state (collect_gpus nv is0) w = (r, w') \<and>
     (\<forall>ms. r = Some ms \<longrightarrow> (\<exists>blocks. ms = concat blocks \<and> list_all2 (\<lambda>i. gpu_block nv (int i)) is0 blocks \<and>
        map line_gpu ls = map (\<lambda>(i, b). int i) (filter (\<lambda>(i, b). b = []) (zip is0 blocks))))"
proof (induction is0 arbitrary: r ls w w')
  case (Cons i rest)
  obtain r1 ls1 w1 where 1: "run_state (collect_gpu_logged nv i) w = ((r1, ls1), w1)" by (metis prod.exhaust)
  have p: "run_state (collect_gpu nv i) w = (r1, w1)" "map line_gpu ls1 = (if r1 = Some [] then [int i] else [])"
    using gpu_is_logged [of nv i w] 1 by (simp_all add: gpu_logged_def)
  show ?case
  proof (cases r1)
    case (Some xs)
    obtain r2 ls2 w2 where 2: "run_state (collect_gpus_logged nv rest) w1 = ((r2, ls2), w2)" by (metis prod.exhaust)
    have q: "run_state (collect_gpus nv rest) w1 = (r2, w2)" and
      blocks: "\<And>ms. r2 = Some ms \<Longrightarrow> \<exists>blocks. ms = concat blocks \<and> list_all2 (\<lambda>i. gpu_block nv (int i)) rest blocks \<and>
        map line_gpu ls2 = map (\<lambda>(i, b). int i) (filter (\<lambda>(i, b). b = []) (zip rest blocks))"
      using Cons.IH [OF 2] by blast+
    have r: "r = map_option ((@) xs) r2" "ls = ls1 @ ls2" "w' = w2" using Cons.prems 1 2 Some by simp_all
    have "\<exists>blocks. ms = concat blocks \<and> list_all2 (\<lambda>i. gpu_block nv (int i)) (i # rest) blocks \<and>
        map line_gpu ls = map (\<lambda>(i, b). int i) (filter (\<lambda>(i, b). b = []) (zip (i # rest) blocks))" if some: "r = Some ms" for ms
    proof -
      obtain ys where "r2 = Some ys" "ms = xs @ ys" using some r(1) by (cases r2) auto
      moreover from blocks [OF this(1)] obtain bs where "ys = concat bs" "list_all2 (\<lambda>i. gpu_block nv (int i)) rest bs"
        "map line_gpu ls2 = map (\<lambda>(i, b). int i) (filter (\<lambda>(i, b). b = []) (zip rest bs))" by blast
      ultimately show ?thesis
        using p(2) Some r(2) collect_gpu_block [OF p(1) [unfolded Some]] by (intro exI [of _ "xs # bs"]) simp
    qed
    then show ?thesis using p(1) Some q r by simp
  qed (use Cons.prems 1 p in simp)
qed simp

section \<open>Properties\<close>

text \<open>C17
  No GPU is left out silently.  Logging changes neither the result of \<open>CollectAll\<close> nor the library's
  state.  A collection that succeeds is the concatenation of one block for each index below the device
  count, in order: nothing; or the one snapshot of that GPU; or its MIG instances, numbered from 0, with
  that GPU as parent.  Chip-level readings are what the library answered for a handle it gave for the
  GPU's index, utilization and memory what it answered for that handle or the instance's own.  The
  warnings it logs name, in order and once each, exactly the GPUs whose block is empty.\<close>

theorem no_gpu_left_out_silently:
  assumes "run_state (CollectAll_logged nv) w = ((r, ls), w')"
  shows "run_state (nvml_CollectAll nv) w = (r, w') \<and>
    (\<forall>ms. r = Inr ms \<longrightarrow> (\<exists>count blocks. fst (run_state (DeviceGetCount nv) w) = Inr count \<and> ms = concat blocks \<and>
       length blocks = nat count \<and> (\<forall>i < nat count. gpu_block nv (int i) (blocks ! i)) \<and>
       map line_gpu ls = map int (filter (\<lambda>i. blocks ! i = []) [0..<nat count])))"
proof -
  obtain q w1 where q: "run_state (DeviceGetCount nv) w = (q, w1)" by fastforce
  show ?thesis
  proof (cases q)
    case (Inr count)
    obtain r1 ls1 w2 where g: "run_state (collect_gpus_logged nv [0..<nat count]) w1 = ((r1, ls1), w2)" by (metis prod.exhaust)
    note l = gpus_logged [OF g]
    have r: "r = (case r1 of None \<Rightarrow> Inl CollectionHangs | Some xs \<Rightarrow> Inr xs)" "ls = ls1" "w' = w2"
      using assms q Inr g by (simp_all add: CollectAll_logged_def nvml_DeviceCount_def)
    have "\<exists>blocks. ms = concat blocks \<and> length blocks = nat count \<and> (\<forall>i < nat count. gpu_block nv (int i) (blocks ! i)) \<and>
        map line_gpu ls = map int (filter (\<lambda>i. blocks ! i = []) [0..<nat count])" if "r = Inr ms" for ms
    proof -
      have "r1 = Some ms" using that r(1) by (cases r1) simp_all
      with l obtain blocks where b: "ms = concat blocks" "list_all2 (\<lambda>i. gpu_block nv (int i)) [0..<nat count] blocks"
        "map line_gpu ls1 = map (\<lambda>(i, b). int i) (filter (\<lambda>(i, b). b = []) (zip [0..<nat count] blocks))" by blast
      have n: "length blocks = nat count" using list_all2_lengthD [OF b(2)] by simp
      have "zip [0..<nat count] blocks = map (\<lambda>i. (i, blocks ! i)) [0..<nat count]"
        by (rule nth_equalityI) (simp_all add: n)
      then have "map line_gpu ls1 = map int (filter (\<lambda>i. blocks ! i = []) [0..<nat count])"
        using b(3) by (simp add: filter_map comp_def)
      moreover have "\<forall>i < nat count. gpu_block nv (int i) (blocks ! i)" using b(2) by (simp add: list_all2_conv_all_nth)
      ultimately show ?thesis using b(1) n r(2) by blast
    qed
    moreover have "run_state (nvml_CollectAll nv) w = (r, w')"
      using q Inr l r by (simp add: nvml_CollectAll_def nvml_DeviceCount_def)
    ultimately show ?thesis using q Inr by simp
  qed (use assms q in \<open>auto simp: CollectAll_logged_def nvml_CollectAll_def nvml_DeviceCount_def\<close>)
qed

lemma no_gpu_left_out_silently_witness:
  "\<exists>m ls. run_state (CollectAll_logged demo_nvml) () = ((Inr [m, demo_instance 0, demo_instance 1], ls), ()) \<and>
     (\<exists>blocks. [m, demo_instance 0, demo_instance 1] = concat blocks \<and> length blocks = 3 \<and>
        map line_gpu ls = map int (filter (\<lambda>i. blocks ! i = []) [0..<3]))"
proof -
  obtain r ls where l: "run_state (CollectAll_logged demo_nvml) () = ((r, ls), ())" by (metis prod.exhaust unit_eq)
  note t = no_gpu_left_out_silently [OF l]
  from demo_all t obtain m where "r = Inr [m, demo_instance 0, demo_instance 1]" by auto
  moreover from conjunct2 [OF t] this obtain count blocks where
    "fst (run_state (DeviceGetCount demo_nvml) ()) = Inr count" "[m, demo_instance 0, demo_instance 1] = concat blocks"
    "length blocks = nat count" "map line_gpu ls = map int (filter (\<lambda>i. blocks ! i = []) [0..<nat count])" by blast
  moreover from this(1) have "count = 3" by (simp add: demo_nvml_def)
  ultimately show ?thesis using l by (intro exI conjI) simp_all
qed

end
