(* ===== verification/Concurrent.thy ===== *)
theory Concurrent
  imports Service
begin

text \<open>
  The handlers as the server runs them, side by side.  A call is cut where the source gives up
  a lock: reading a metric is one step, for Triton two (the scrape, and \<open>applyDerived\<close> under the
  client's lock), and the cooldown of \<open>GetMetrics\<close> is one more, under the scaler's lock.
  Between the steps of one call any steps of others may come.
\<close>

datatype request = ForActive scaled_object_ref | ForMetrics scaled_object_ref

definition request_ref :: "request \<Rightarrow> scaled_object_ref" where
  "request_ref q = (case q of ForActive ref \<Rightarrow> ref | ForMetrics ref \<Rightarrow> ref)"

text \<open>How far a call has come: a scrape that awaits its derived fields, or a value.\<close>

datatype task =
    Scraped request scaler_config triton_metrics
  | Valued request scaler_config f64

record 's conc =
  shared :: "'s scaler"
  inflight :: "task list"
  trace :: "(cooldown_call \<times> f64) list"

definition conc_start :: "'s scaler \<Rightarrow> 's conc" where
  "conc_start s = \<lparr>shared = s, inflight = [], trace = []\<rparr>"

text \<open>The raw metrics of a scrape that succeeds.\<close>

definition scraped_metrics :: "http_reply \<Rightarrow> triton_metrics option" where
  "scraped_metrics reply = (case reply of
     TransportError e \<Rightarrow> None
   | Reply status body rerr \<Rightarrow>
       if status \<noteq> status_ok then None
       else (case parseMetrics_triton body rerr of (m, Some e) \<Rightarrow> None | (m, None) \<Rightarrow> Some m))"

definition without :: "nat \<Rightarrow> 'a list \<Rightarrow> 'a list" where
  "without i xs = take i xs @ drop (Suc i) xs"

definition cooldown_call_of :: "gotime \<Rightarrow> scaled_object_ref \<Rightarrow> scaler_config \<Rightarrow> f64 \<Rightarrow> cooldown_call" where
  "cooldown_call_of now ref cfg x =
     \<lparr>cc_now = now, cc_key = newCooldownKey ref cfg, cc_value = x, cc_window = seconds (cooldownSeconds cfg)\<rparr>"

inductive conc_step :: "'s metrics_collector \<Rightarrow> 's conc \<Rightarrow> 's conc \<Rightarrow> bool"
  for C :: "'s metrics_collector" where
  read: "parseMetadata (scalerMetadata (request_ref q)) = Inr cfg \<Longrightarrow> \<not> IsTritonMetric (metricType cfg) \<Longrightarrow>
     getMetricValue C env cfg (shared c) = (r, s') \<Longrightarrow>
     conc_step C c (c\<lparr>shared := s', inflight := inflight c @ (case r of Inl _ \<Rightarrow> [] | Inr x \<Rightarrow> [Valued q cfg x])\<rparr>)"
| scrape: "parseMetadata (scalerMetadata (request_ref q)) = Inr cfg \<Longrightarrow> IsTritonMetric (metricType cfg) \<Longrightarrow>
     getTritonClient (tritonEndpoint cfg) (tritonClients (shared c)) = (cl, cs) \<Longrightarrow>
     conc_step C c (c\<lparr>shared := (shared c)\<lparr>tritonClients := cs\<rparr>,
       inflight := inflight c @ (case scraped_metrics (http_get (env :: call_env) (endpoint_t cl)) of
         None \<Rightarrow> [] | Some raw \<Rightarrow> [Scraped q cfg raw])\<rparr>)"
| derive: "i < length (inflight c) \<Longrightarrow> inflight c ! i = Scraped q cfg raw \<Longrightarrow>
     tritonClients (shared c) (tritonEndpoint cfg) = Some cl \<Longrightarrow> applyDerived now raw cl = (m, cl') \<Longrightarrow>
     conc_step C c (c\<lparr>shared := (shared c)\<lparr>tritonClients := (tritonClients (shared c))(tritonEndpoint cfg \<mapsto> cl')\<rparr>,
       inflight := (inflight c)[i := Valued q cfg (triton_value cfg m)]\<rparr>)"
| report: "i < length (inflight c) \<Longrightarrow> inflight c ! i = Valued (ForMetrics ref) cfg x \<Longrightarrow>
     cooldown_step (cooldown_call_of now ref cfg x) (cooldowns (shared c)) = (v, cds) \<Longrightarrow>
     conc_step C c (c\<lparr>shared := (shared c)\<lparr>cooldowns := cds\<rparr>, inflight := without i (inflight c),
       trace := trace c @ [(cooldown_call_of now ref cfg x, v)]\<rparr>)"
| answer: "i < length (inflight c) \<Longrightarrow> inflight c ! i = Valued (ForActive ref) cfg x \<Longrightarrow>
     conc_step C c (c\<lparr>inflight := without i (inflight c)\<rparr>)"

inductive conc_reachable :: "'s metrics_collector \<Rightarrow> 's conc \<Rightarrow> bool"
  for C :: "'s metrics_collector" where
  start: "conc_reachable C (conc_start (NewGPUExternalScaler k))"
| step: "conc_reachable C c \<Longrightarrow> conc_step C c c' \<Longrightarrow> conc_reachable C c'"

section \<open>Facts\<close>

lemma cooldown_run_snoc:
  "cooldown_run (cs @ [c]) cds =
     (case cooldown_run cs cds of (rs, cds1) \<Rightarrow> (case cooldown_step c cds1 of (r, cds2) \<Rightarrow> (rs @ [(c, r)], cds2)))"
  by (induction cs arbitrary: cds) (simp_all add: case_prod_beta Let_def)

text \<open>The trace is a run of the cooldown from an empty map, whatever came between.\<close>

lemma conc_trace_run:
  "conc_reachable C c \<Longrightarrow> cooldown_run (map fst (trace c)) Map.empty = (trace c, cooldowns (shared c))"
proof (induction rule: conc_reachable.induct)
  case (start k)
  then show ?case by (simp add: conc_start_def NewGPUExternalScaler_def)
next
  case (step c c')
  from step(2) show ?case
  proof cases
    case (read q cfg env r s')
    then show ?thesis using step.IH getMetricValue_cooldownsD [OF read(4)] by simp
  next
    case (report i ref cfg x now v cds)
    then show ?thesis using step.IH by (simp add: cooldown_run_snoc)
  qed (use step.IH in simp_all)
qed

lemma conc_clients_vetted: "conc_reachable C c \<Longrightarrow> clients_vetted (shared c)"
proof (induction rule: conc_reachable.induct)
  case (start k)
  then show ?case by (simp add: conc_start_def NewGPUExternalScaler_def clients_vetted_def)
next
  case (step c c')
  from step(2) show ?case
  proof cases
    case (read q cfg env r s')
    then show ?thesis using read_vetted [OF step.IH parse_endpoints_ok [OF read(2)], of C env] by simp
  next
    case (scrape q cfg cl cs env)
    have "vetted (tritonEndpoint cfg)"
      using endpoints_ok_vetted(2) [OF parse_endpoints_ok [OF scrape(2)] scrape(3)] .
    then have "endpoint_t d = e \<and> vetted e" if "cs e = Some d" for e d
      using that step.IH scrape(4)
      by (auto simp: getTritonClient_def clients_vetted_def NewClient_triton_def split: option.splits if_splits)
    then show ?thesis using step.IH scrape(1) by (simp add: clients_vetted_def)
  next
    case (derive i q cfg raw cl now m cl')
    then have "endpoint_t cl' = endpoint_t cl" by (auto simp: applyDerived_def Let_def)
    then show ?thesis using step.IH derive by (auto simp: clients_vetted_def)
  qed (use step.IH in \<open>simp_all add: clients_vetted_def\<close>)
qed

text \<open>An atomic handler is one of the interleavings: its steps, run without interruption.\<close>

lemma scrape_split:
  "scraped_metrics reply = None \<Longrightarrow> \<exists>e. Scrape_triton reply now c = (Inl e, c)"
  "scraped_metrics reply = Some raw \<Longrightarrow>
     Scrape_triton reply now c = (let (m, c') = applyDerived now raw c in (Inr m, c'))"
  by (auto simp: scraped_metrics_def Scrape_triton_def split: http_reply.splits if_splits prod.splits option.splits)

lemma getTritonClient_stored: "getTritonClient e m = (c, cs) \<Longrightarrow> cs e = Some c"
  by (auto simp: getTritonClient_def split: option.splits)

abbreviation quiescent :: "'s scaler \<Rightarrow> task list \<Rightarrow> (cooldown_call \<times> f64) list \<Rightarrow> 's conc" where
  "quiescent s ts tr \<equiv> \<lparr>shared = s, inflight = ts, trace = tr\<rparr>"

lemma read_runs:
  assumes "parseMetadata (scalerMetadata (request_ref q)) = Inr cfg" "getMetricValue C env cfg s = (r, s')"
  shows "(conc_step C)\<^sup>*\<^sup>* (quiescent s [] tr) (quiescent s' (case r of Inl _ \<Rightarrow> [] | Inr x \<Rightarrow> [Valued q cfg x]) tr)"
proof (cases "IsTritonMetric (metricType cfg)")
  case False
  from conc_step.read [OF assms(1) False, of C env "quiescent s [] tr"] assms(2)
  show ?thesis by (intro r_into_rtranclp) simp
next
  case True
  let ?e = "tritonEndpoint cfg"
  obtain cl cs where cl: "getTritonClient ?e (tritonClients s) = (cl, cs)" by fastforce
  note stored = getTritonClient_stored [OF cl]
  have g: "getMetricValue C env cfg s = getTritonMetricValue env cfg s"
    using True engine_metrics_disjoint [of "metricType cfg"] by (auto simp: getMetricValue_def)
  let ?s1 = "s\<lparr>tritonClients := cs\<rparr>" and ?reply = "http_get env (endpoint_t cl)"
  have first: "conc_step C (quiescent s [] tr) (quiescent ?s1
      (case scraped_metrics ?reply of None \<Rightarrow> [] | Some raw \<Rightarrow> [Scraped q cfg raw]) tr)"
    using conc_step.scrape [OF assms(1) True, of "quiescent s [] tr" cl cs C env] cl by simp
  show ?thesis
  proof (cases "scraped_metrics ?reply")
    case None
    obtain e where "Scrape_triton ?reply (scrape_now env) cl = (Inl e, cl)" using scrape_split(1) [OF None] by blast
    then have "s' = ?s1" "\<exists>e. r = Inl e"
      using assms(2) stored by (auto simp: g getTritonMetricValue_def cl fun_upd_idem)
    then show ?thesis using first None by (auto intro: r_into_rtranclp)
  next
    case (Some raw)
    obtain m cl' where m: "applyDerived (scrape_now env) raw cl = (m, cl')" by fastforce
    have "s' = ?s1\<lparr>tritonClients := cs(?e \<mapsto> cl')\<rparr>" "r = Inr (triton_value cfg m)"
      using assms(2) by (auto simp: g getTritonMetricValue_def cl scrape_split(2) [OF Some] m)
    moreover have "conc_step C (quiescent ?s1 [Scraped q cfg raw] tr)
        (quiescent (?s1\<lparr>tritonClients := cs(?e \<mapsto> cl')\<rparr>) [Valued q cfg (triton_value cfg m)] tr)"
      using conc_step.derive [of 0 "quiescent ?s1 [Scraped q cfg raw] tr" q cfg raw cl "scrape_now env" m cl' C] stored m
      by simp
    ultimately show ?thesis using first Some by (auto intro: converse_rtranclp_into_rtranclp)
  qed
qed

lemma answer_runs: "conc_step C (quiescent s [Valued (ForActive ref) cfg x] tr) (quiescent s [] tr)"
  using conc_step.answer [of 0 "quiescent s [Valued (ForActive ref) cfg x] tr" ref cfg x C] by (simp add: without_def)

lemma report_runs:
  "applyCooldown now (newCooldownKey ref cfg) x (seconds (cooldownSeconds cfg)) (cooldowns s) = (v, cds) \<Longrightarrow>
     conc_step C (quiescent s [Valued (ForMetrics ref) cfg x] tr)
       (quiescent (s\<lparr>cooldowns := cds\<rparr>) [] (tr @ [(cooldown_call_of now ref cfg x, v)]))"
  using conc_step.report [of 0 "quiescent s [Valued (ForMetrics ref) cfg x] tr" ref cfg x now v cds C]
  by (simp add: without_def cooldown_step_def cooldown_call_of_def)

lemma active_runs:
  fixes ref :: scaled_object_ref
  assumes "parseMetadata (scalerMetadata ref) = Inr cfg"
  shows "(conc_step C)\<^sup>*\<^sup>* (quiescent s [] tr) (quiescent (snd (getMetricValue C env cfg s)) [] tr)"
proof -
  obtain r s' where g: "getMetricValue C env cfg s = (r, s')" by fastforce
  have q: "parseMetadata (scalerMetadata (request_ref (ForActive ref))) = Inr cfg" using assms by (simp add: request_ref_def)
  note run = read_runs [OF q g, of tr]
  show ?thesis
  proof (cases r)
    case (Inr x)
    then show ?thesis using run g answer_runs [of C s' ref cfg x tr] by simp
  qed (use run g in simp)
qed

text \<open>A series of atomic calls is one of the interleavings, with the same trace.\<close>

lemma conc_trace:
  "\<exists>s'. (conc_step C)\<^sup>*\<^sup>* (quiescent s [] tr) (quiescent s' [] (tr @ metrics_trace C calls s))"
proof (induction calls arbitrary: s tr)
  case (Cons a calls)
  obtain env ref where a: "a = (env, ref)" by (cases a)
  show ?case
  proof (cases rule: GetMetrics_cases [where ref = ref and C = C and env = env and s = s])
    case (parse e)
    then show "\<exists>s'. (conc_step C)\<^sup>*\<^sup>* (quiescent s [] tr) (quiescent s' [] (tr @ metrics_trace C (a # calls) s))"
      using Cons.IH [of s tr] by (simp add: a)
  next
    case (metric cfg e s1)
    have q: "parseMetadata (scalerMetadata (request_ref (ForMetrics ref))) = Inr cfg"
      using metric(1) by (simp add: request_ref_def)
    obtain s' where "(conc_step C)\<^sup>*\<^sup>* (quiescent s1 [] tr) (quiescent s' [] (tr @ metrics_trace C calls s1))"
      using Cons.IH by blast
    then have "(conc_step C)\<^sup>*\<^sup>* (quiescent s [] tr) (quiescent s' [] (tr @ metrics_trace C calls s1))"
      using read_runs [OF q metric(2), of tr] by simp
    moreover have "metrics_trace C (a # calls) s = metrics_trace C calls s1" using metric by (simp add: a)
    ultimately show "\<exists>s'. (conc_step C)\<^sup>*\<^sup>* (quiescent s [] tr) (quiescent s' [] (tr @ metrics_trace C (a # calls) s))"
      by auto
  next
    case (ok cfg x s1 v cds)
    have q: "parseMetadata (scalerMetadata (request_ref (ForMetrics ref))) = Inr cfg"
      using ok(1) by (simp add: request_ref_def)
    let ?entry = "(cooldown_call_of (cooldown_now env) ref cfg x, v)"
    obtain s' where "(conc_step C)\<^sup>*\<^sup>* (quiescent (s1\<lparr>cooldowns := cds\<rparr>) [] (tr @ [?entry]))
        (quiescent s' [] ((tr @ [?entry]) @ metrics_trace C calls (s1\<lparr>cooldowns := cds\<rparr>)))"
      using Cons.IH by blast
    moreover have "metrics_trace C (a # calls) s = ?entry # metrics_trace C calls (s1\<lparr>cooldowns := cds\<rparr>)"
      using ok by (simp add: a cooldown_call_of_def)
    ultimately show "\<exists>s'. (conc_step C)\<^sup>*\<^sup>* (quiescent s [] tr) (quiescent s' [] (tr @ metrics_trace C (a # calls) s))"
      using rtranclp_trans [OF rtranclp.rtrancl_into_rtrancl [OF read_runs [OF q ok(2), of tr, simplified] report_runs [OF ok(3)]]]
      by auto
  qed
qed auto

lemma conc_reaches: "(conc_step C)\<^sup>*\<^sup>* c c' \<Longrightarrow> conc_reachable C c \<Longrightarrow> conc_reachable C c'"
  by (induction rule: rtranclp_induct) (auto intro: conc_reachable.step)

lemma demo_conc: "\<exists>c. conc_reachable scripted c \<and> trace c = demo_trace"
proof -
  obtain s' where run: "(conc_step scripted)\<^sup>*\<^sup>* (quiescent demo_service [] []) (quiescent s' [] demo_trace)"
    using conc_trace [of scripted demo_service "[]" demo_calls] by (auto simp: demo_trace_eq)
  have "conc_reachable scripted (quiescent demo_service [] [])"
    using conc_reachable.start [of scripted "[90, 60, 10, 20]"] by (simp add: conc_start_def demo_service_def)
  then have "conc_reachable scripted (quiescent s' [] demo_trace)" by (rule conc_reaches [OF run])
  then show ?thesis by (intro exI [of _ "quiescent s' [] demo_trace"]) simp
qed

text \<open>A Triton read, by the client of its endpoint.\<close>

lemma triton_read_via_client:
  assumes "scaler_reachable C s" "IsTritonMetric (metricType cfg)"
    and "http_get env (tritonEndpoint cfg) = Reply 200 body rerr" "scan_lines body rerr = (ls, None)"
  shows "\<exists>cl raw. triton_reads ls raw \<and>
    getMetricValue C env cfg s =
      (Inr (triton_value cfg (derive_fields cl (scrape_now env) raw)),
       snd (getMetricValue C env cfg s)) \<and>
    (\<forall>cl0. tritonClients s (tritonEndpoint cfg) = Some cl0 \<longrightarrow> cl = cl0) \<and>
    (\<exists>cl'. tritonClients (snd (getMetricValue C env cfg s)) (tritonEndpoint cfg) = Some cl' \<and>
       prevInferenceCnt cl' = InferenceCount raw)"
proof -
  let ?e = "tritonEndpoint cfg"
  obtain cl cs where c: "getTritonClient ?e (tritonClients s) = (cl, cs)" by fastforce
  have e: "endpoint_t cl = ?e" using getTritonClient_endpoint [OF reachable_vetted [OF assms(1)], of ?e] c by simp
  obtain raw where raw: "triton_reads ls raw" "Scrape_triton (Reply 200 body rerr) (scrape_now env) cl =
      (let (m, c') = applyDerived (scrape_now env) raw cl in (Inr m, c'))"
    using scrape_reply [OF assms(4), of "scrape_now env" cl] by blast
  have "cl = cl0" if "tritonClients s ?e = Some cl0" for cl0 using c that by (simp add: getTritonClient_def)
  moreover have "getMetricValue C env cfg s = getTritonMetricValue env cfg s"
    using assms(2) engine_metrics_disjoint [of "metricType cfg"] by (auto simp: getMetricValue_def)
  ultimately show ?thesis
    using raw by (intro exI [of _ cl] exI [of _ raw])
      (simp add: getTritonMetricValue_def c e assms(3) applyDerived_def Let_def)
qed

definition triton_md :: metadata where
  "triton_md = [''metricType'' \<mapsto> MetricTritonRequestRate, ''tritonEndpoint'' \<mapsto> ''http://v:80'']"

definition triton_config :: scaler_config where
  "triton_config = default_config\<lparr>metricType := MetricTritonRequestRate, tritonEndpoint := ''http://v:80''\<rparr>"

lemma parse_triton_md: "parseMetadata triton_md = Inr triton_config"
  by (simp add: parse_Inr_iff well_formed_keys_def key_ok_def effective_config_def key_or_def triton_md_def
      triton_config_def from_profile_def default_config_def endpoints_ok_def IsVLLMMetric_def IsTritonMetric_def
      ValidMetricType_def demo_endpoint metric_type_defs)

definition triton_env :: "int \<Rightarrow> call_env" where
  "triton_env t = (demo_env t)\<lparr>http_get := \<lambda>_. Reply 200 demo_body None\<rparr>"

section \<open>Properties\<close>

text \<open>
  The atomic handlers are a special case.  Whatever a call of \<open>IsActive\<close> or \<open>GetMetrics\<close> or a tick
  of a stream does to the scaler in one step, the interleaved handlers can do in several, from and to states
  in which no call is in flight.\<close>

theorem atomic_handlers_interleave:
  assumes "scaler_step C s s'"
  shows "\<exists>tr'. (conc_step C)\<^sup>*\<^sup>* \<lparr>shared = s, inflight = [], trace = tr\<rparr> \<lparr>shared = s', inflight = [], trace = tr'\<rparr>"
  using assms
proof cases
  case (is_active env ref)
  show ?thesis
  proof (cases "parseMetadata (scalerMetadata ref)")
    case (Inr cfg)
    then show ?thesis
      using active_runs [OF Inr, of C s tr env] is_active by (auto simp: IsActive_def case_prod_beta Let_def)
  qed (auto simp: is_active IsActive_def)
next
  case (get_metrics env req)
  show ?thesis
  proof (cases req)
    case (Some ref)
    show ?thesis unfolding get_metrics Some
    proof (cases rule: GetMetrics_cases [where ref = ref and C = C and env = env and s = s])
      case (parse e)
      then show "\<exists>tr'. (conc_step C)\<^sup>*\<^sup>* (quiescent s [] tr) (quiescent (snd (GetMetrics C env (Some ref) s)) [] tr')" by auto
    next
      case (metric cfg e s1)
      have q: "parseMetadata (scalerMetadata (request_ref (ForMetrics ref))) = Inr cfg"
        using metric(1) by (simp add: request_ref_def)
      show "\<exists>tr'. (conc_step C)\<^sup>*\<^sup>* (quiescent s [] tr) (quiescent (snd (GetMetrics C env (Some ref) s)) [] tr')"
        using read_runs [OF q metric(2), of tr] metric(3) by auto
    next
      case (ok cfg x s1 v cds)
      have q: "parseMetadata (scalerMetadata (request_ref (ForMetrics ref))) = Inr cfg"
        using ok(1) by (simp add: request_ref_def)
      show "\<exists>tr'. (conc_step C)\<^sup>*\<^sup>* (quiescent s [] tr) (quiescent (snd (GetMetrics C env (Some ref) s)) [] tr')"
        using rtranclp.rtrancl_into_rtrancl [OF read_runs [OF q ok(2), of tr, simplified] report_runs [OF ok(3)]] ok(4)
        by auto
    qed
  qed (auto simp: get_metrics GetMetrics_def)
next
  case (tick md cfg env)
  then show ?thesis
    using active_runs [of "demo_ref md" cfg C s tr env] by (auto simp: demo_ref_def)
qed

lemma atomic_handlers_interleave_witness:
  "\<exists>tr'. (conc_step mock_ops)\<^sup>*\<^sup>* \<lparr>shared = demo_scaler, inflight = [], trace = []\<rparr>
     \<lparr>shared = snd (GetMetrics mock_ops (demo_env 1) (Some (demo_ref Map.empty)) demo_scaler), inflight = [], trace = tr'\<rparr>"
  by (rule atomic_handlers_interleave [OF scaler_step.get_metrics])

text \<open>C3
  The cooldown holds under every interleaving.  In every state the concurrent handlers reach, and for
  every series whose calls carry one positive window, two reports that are each below the report of the
  series before them lie at least the window apart; and every cached client asks a vetted endpoint.\<close>

theorem concurrent_scale_downs_spaced:
  assumes "conc_reachable C c" "steady k d (map fst (trace c))"
    and "rs = filter (\<lambda>(x, r). cc_key x = k) (trace c)" "i < j" "scaled_down rs i" "scaled_down rs j"
  shows "clock_of (fst (rs ! i)) + d \<le> clock_of (fst (rs ! j)) \<and> clients_vetted (shared c)"
proof -
  have "rs = reports k (map fst (trace c)) Map.empty"
    using assms(3) conc_trace_run [OF assms(1)] by (simp add: reports_def)
  then have "clock_of (fst (rs ! i)) + d \<le> clock_of (fst (rs ! j))"
    using drops_spaced [OF assms(2) _ assms(4), of "f64_of_nat 0" Map.empty] assms(5,6)
    by (simp add: scaled_down_def drop_at_def)
  then show ?thesis using conc_clients_vetted [OF assms(1)] by blast
qed

lemma concurrent_scale_downs_spaced_witness:
  "\<exists>c. conc_reachable scripted c \<and> clock_of (fst (trace c ! 1)) + seconds 60 \<le> clock_of (fst (trace c ! 3))"
proof -
  obtain c where c: "conc_reachable scripted c" "trace c = demo_trace" using demo_conc by blast
  have "clock_of (fst (demo_trace ! 1)) + seconds 60 \<le> clock_of (fst (demo_trace ! 3)) \<and> clients_vetted (shared c)"
    by (rule concurrent_scale_downs_spaced [OF c(1), of demo_series])
      (simp_all add: c(2) demo_trace_def steady_def clock_ok_def is_zero_time_def seconds_max nanos_per_second_def scaled_down_def)
  then show ?thesis using c by auto
qed

text \<open>C39
  Readings can overtake one another.  Of two concurrent calls of \<open>GetMetrics\<close> for one series, the one
  that read first may come to the cooldown last: the newer, higher reading is reported first, and then
  the older, lower one, as a scale-down no reading asked for.\<close>

theorem readings_overtake:
  assumes "u < (v :: u32)"
  shows "\<exists>c. conc_reachable scripted c \<and> inflight c = [] \<and>
    (\<exists>s. getMetricValue scripted (demo_env 1) default_config (NewGPUExternalScaler [u, v]) = (Inr (f64_of_nat (unat u)), s) \<and>
         getMetricValue scripted (demo_env 2) default_config s = (Inr (f64_of_nat (unat v)), shared c\<lparr>cooldowns := Map.empty\<rparr>)) \<and>
    map (\<lambda>(call, r). (cc_key call, r)) (trace c) =
      [(demo_series, f64_of_nat (unat v)), (demo_series, f64_of_nat (unat u))]"
proof -
  let ?q = "ForMetrics (demo_ref Map.empty)" and ?t = "\<lparr>wall = 3, mono = Some 3\<rparr>"
    and ?s0 = "NewGPUExternalScaler [u, v]" and ?x = "f64_of_nat (unat u)" and ?y = "f64_of_nat (unat v)"
  have q: "parseMetadata (scalerMetadata (request_ref ?q)) = Inr default_config"
    by (simp add: request_ref_def demo_ref_def parse_empty)
  have t: "\<not> IsTritonMetric (metricType default_config)" by (simp add: default_config_def IsTritonMetric_def metric_type_defs)
  have r1: "getMetricValue scripted (demo_env 1) default_config ?s0 = (Inr ?x, ?s0\<lparr>coll := [v]\<rparr>)"
    by (rule scripted_read) (simp add: NewGPUExternalScaler_def)
  have r2: "getMetricValue scripted (demo_env 2) default_config (?s0\<lparr>coll := [v]\<rparr>) = (Inr ?y, ?s0\<lparr>coll := []\<rparr>)"
    using scripted_read [of "?s0\<lparr>coll := [v]\<rparr>" v "[]" "demo_env 2"] by simp
  have "unat u \<le> 2 ^ 53" "unat v \<le> 2 ^ 53" "unat u < unat v"
    using unsigned_less [of u, where ?'a = nat] unsigned_less [of v, where ?'a = nat] assms by (auto simp: word_less_nat_alt)
  then have lt: "\<not> f64_le ?y ?x" by simp
  let ?st = "\<lparr>lastValue = ?y, lastScaleDownAt = zero_time\<rparr>"
  have cd: "cooldownSeconds default_config = 60" "0 < seconds 60" "cooldowns ?s0 = Map.empty"
    by (simp_all add: default_config_def seconds_max nanos_per_second_def NewGPUExternalScaler_def)
  let ?e = "\<lambda>z. cooldown_call_of ?t (demo_ref Map.empty) default_config z"
  define c where "c = quiescent (?s0\<lparr>coll := [], cooldowns := [demo_series \<mapsto> \<lparr>lastValue = ?x, lastScaleDownAt = ?t\<rparr>]\<rparr>) []
    [(?e ?y, ?y), (?e ?x, ?x)]"
  have "conc_step scripted (quiescent ?s0 [] []) (quiescent (?s0\<lparr>coll := [v]\<rparr>) [Valued ?q default_config ?x] [])"
    using conc_step.read [OF q t, of scripted "demo_env 1" "quiescent ?s0 [] []"] r1 by simp
  moreover have "conc_step scripted \<dots> (quiescent (?s0\<lparr>coll := []\<rparr>) [Valued ?q default_config ?x, Valued ?q default_config ?y] [])"
    using conc_step.read [OF q t, of scripted "demo_env 2" "quiescent (?s0\<lparr>coll := [v]\<rparr>) [Valued ?q default_config ?x] []"] r2 by simp
  moreover have "conc_step scripted \<dots> (quiescent (?s0\<lparr>coll := [], cooldowns := [demo_series \<mapsto> ?st]\<rparr>) [Valued ?q default_config ?x] [(?e ?y, ?y)])"
    using conc_step.report [of 1 "quiescent (?s0\<lparr>coll := []\<rparr>) [Valued ?q default_config ?x, Valued ?q default_config ?y] []"
        "demo_ref Map.empty" default_config ?y ?t ?y "[demo_series \<mapsto> ?st]" scripted] cd
    by (simp add: without_def cooldown_step_def cooldown_call_of_def applyCooldown_def)
  moreover have "conc_step scripted \<dots> c"
    using conc_step.report [of 0 "quiescent (?s0\<lparr>coll := [], cooldowns := [demo_series \<mapsto> ?st]\<rparr>) [Valued ?q default_config ?x] [(?e ?y, ?y)]"
        "demo_ref Map.empty" default_config ?x ?t ?x "[demo_series \<mapsto> \<lparr>lastValue = ?x, lastScaleDownAt = ?t\<rparr>]" scripted] cd lt
    by (simp add: without_def cooldown_step_def cooldown_call_of_def applyCooldown_def is_zero_time_def zero_time_def c_def)
  ultimately have "conc_reachable scripted c"
    using conc_reachable.start [of scripted "[u, v]"] unfolding conc_start_def by (meson conc_reachable.step)
  then show ?thesis
    using r1 r2 by (intro exI [of _ c]) (simp add: c_def cooldown_call_of_def NewGPUExternalScaler_def)
qed

lemma readings_overtake_witness:
  "\<exists>c. conc_reachable scripted c \<and> map snd (trace c) = [f64_of_nat 90, f64_of_nat 10]"
  using readings_overtake [of 10 90] by fastforce

text \<open>C40
  Readers of one Triton endpoint take each other's differences away.  All calls that name an
  endpoint share one baseline, so of two reads with no inference completed between them the second is 0,
  however busy the server is and whatever the first one read: \<open>GetMetrics\<close> right after
  \<open>IsActive\<close>, or two objects on one server.\<close>

theorem second_triton_reader_sees_zero:
  assumes "scaler_reachable C s" "parseMetadata md = Inr cfg" "parseMetadata md' = Inr cfg'"
    and "IsTritonMetric (metricType cfg)" "IsTritonMetric (metricType cfg')" "tritonEndpoint cfg' = tritonEndpoint cfg"
    and "http_get env (tritonEndpoint cfg) = Reply 200 body rerr" "http_get env' (tritonEndpoint cfg) = Reply 200 body rerr"
    and "scan_lines body rerr = (ls, None)" "getMetricValue C env cfg s = (r, s1)"
  shows "fst (getMetricValue C env' cfg' s1) = Inr (f64_of_nat 0)"
proof -
  obtain cl' raw where first: "triton_reads ls raw" "tritonClients s1 (tritonEndpoint cfg) = Some cl'"
    "prevInferenceCnt cl' = InferenceCount raw"
    using triton_read_via_client [OF assms(1,4,7,9)] assms(10) by auto
  have "scaler_step C s s1" using scaler_step.tick [OF assms(2), of C s env] assms(10) by simp
  then have "scaler_reachable C s1" by (rule scaler_reachable.step [OF assms(1)])
  then obtain cl raw' where second: "triton_reads ls raw'"
    "fst (getMetricValue C env' cfg' s1) = Inr (triton_value cfg' (derive_fields cl (scrape_now env') raw'))" "cl = cl'"
    using triton_read_via_client [of C s1 cfg' env'] assms(5,6,8,9) first(2) by (metis fst_conv)
  have "raw' = raw" using first(1) second(1) by (simp add: triton_reads_def)
  then have "derive_fields cl (scrape_now env') raw' = raw"
    using first(1,3) second(3) by (auto simp: triton_reads_def intro!: derive_fields_safe(3))
  moreover have "f64_div (f64_of_nat 0) (f64_of_nat 1000) = f64_of_nat 0"
    using f64_div_of_nat [of 0 1000] f64_of_ratio_nat [of 1000 0] by simp
  ultimately show ?thesis
    using first(1) second(2) by (simp add: triton_reads_def triton_value_def)
qed

lemma second_triton_reader_sees_zero_witness:
  "fst (getMetricValue mock_ops (triton_env 2) triton_config
     (snd (getMetricValue mock_ops (triton_env 1) triton_config demo_scaler))) = Inr (f64_of_nat 0)"
  by (rule second_triton_reader_sees_zero [OF demo_reachable parse_triton_md parse_triton_md _ _ _ _ _ demo_lines prod.collapse [symmetric]])
    (simp_all add: triton_env_def triton_config_def IsTritonMetric_def demo_lines)

end
