(* ===== verification/MigReadings.thy ===== *)
theory MigReadings
  imports NodeReadings
begin

text \<open>
  A node with MIG under the scaler, from the driver to the reported value.  An entry of a collection
  stands for a handle and the GPU it is part of: a GPU without MIG for itself, an instance for its own
  share with the chip-level readings of its GPU.
\<close>

section \<open>The entries of a collection\<close>

definition chip_metric :: "metric_type \<Rightarrow> bool" where
  "chip_metric t \<longleftrightarrow> t \<in> {MetricTemperature, MetricPowerDraw, MetricPCIeTxKBps, MetricPCIeRxKBps,
     MetricNVLinkTxMBps, MetricNVLinkRxMBps}"

text \<open>The instances of a GPU up to the first index that is refused; from \<open>N\<close> on all are.\<close>

definition mig_handles :: "('w, 'd) nvml \<Rightarrow> 'w \<Rightarrow> nat \<Rightarrow> nat \<Rightarrow> 'd \<Rightarrow> 'd list" where
  "mig_handles nv w k N d =
     (let handle = (\<lambda>j. fst (run_state (GetMigDeviceHandleByIndex nv d j) w))
      in map (ok_of \<circ> handle) (takeWhile (is_ok \<circ> handle) [k..<N]))"

definition mig_mode :: "('w, 'd) nvml \<Rightarrow> 'w \<Rightarrow> 'd \<Rightarrow> bool" where
  "mig_mode nv w d = fst (run_state (isMIGEnabled nv d) w)"

definition entries :: "('w, 'd) nvml \<Rightarrow> 'w \<Rightarrow> nat \<Rightarrow> 'd \<Rightarrow> ('d \<times> 'd) list" where
  "entries nv w N d = (if mig_mode nv w d then map (\<lambda>h. (h, d)) (mig_handles nv w 0 N d) else [(d, d)])"

definition node_entries :: "('w, 'd) nvml \<Rightarrow> 'w \<Rightarrow> nat \<Rightarrow> int \<Rightarrow> ('d \<times> 'd) list" where
  "node_entries nv w N n = concat (map (entries nv w N) (handles nv w n))"

definition entry_reading :: "('w, 'd) nvml \<Rightarrow> 'w \<Rightarrow> metric_type \<Rightarrow> 'd \<times> 'd \<Rightarrow> nat" where
  "entry_reading nv w t e = driver_reading nv w t (if chip_metric t then snd e else fst e)"

lemma chip_apart:
  assumes "chip_metric t"
  shows "t \<noteq> MetricMemoryUtilization" "t \<noteq> MetricMemoryUsedMiB"
  using assms by (auto simp: chip_metric_def) (simp_all add: metric_type_defs)

lemma chip_last:
  "chip_metric t \<Longrightarrow> t \<noteq> MetricTemperature \<Longrightarrow> t \<noteq> MetricPowerDraw \<Longrightarrow> t \<noteq> MetricPCIeTxKBps \<Longrightarrow> t \<noteq> MetricPCIeRxKBps \<Longrightarrow>
     t \<noteq> MetricNVLinkTxMBps \<Longrightarrow> t = MetricNVLinkRxMBps"
  by (simp add: chip_metric_def)

lemma chip_reading:
  assumes "chip_metric t"
  shows "device_reading t m =
    (if t = MetricTemperature then unat (TemperatureCelsius m) else if t = MetricPowerDraw then unat (PowerDrawWatts m)
     else if t = MetricPCIeTxKBps then unat (PCIeTxKBps m) else if t = MetricPCIeRxKBps then unat (PCIeRxKBps m)
     else if t = MetricNVLinkTxMBps then unat (NVLinkTxMBps m) else unat (NVLinkRxMBps m))"
  using chip_apart(1,2) [OF assms] chip_last [OF assms] by (simp add: device_reading_def cong: if_cong)

section \<open>One instance\<close>

lemma physical_quiet:
  assumes "quiet nv w"
  shows "\<exists>physical. run_state (collectPhysicalForMIG nv d i) w = (physical, w) \<and>
    (\<forall>t. chip_metric t \<longrightarrow> device_reading t physical = driver_reading nv w t d)"
proof -
  obtain tx rx where n: "run_state (sum_nvlinks nv d [0..<max_nvlinks] (0, 0)) w = ((tx, rx), w)"
    "unat tx = nvlink_total nv d w fst mod 2 ^ 64" "unat rx = nvlink_total nv d w snd mod 2 ^ 64"
    using nvlinks_quiet [OF assms] by blast
  have q: "snd (run_state (GetTemperature nv d) w) = w" "snd (run_state (GetPowerUsage nv d) w) = w"
    "snd (run_state (GetPowerManagementLimit nv d) w) = w"
    "snd (run_state (GetPcieThroughputTx nv d) w) = w" "snd (run_state (GetPcieThroughputRx nv d) w) = w"
    using assms by (simp_all add: quiet_def)
  note o = overlay_reading [OF q(1), where dflt = 0] overlay_reading [OF q(2), where dflt = 0]
    overlay_reading [OF q(3), where dflt = 0] overlay_reading [OF q(4), where dflt = 0] overlay_reading [OF q(5), where dflt = 0]
  have "run_state (collectPhysicalForMIG nv d i) w = (zero_metrics\<lparr>Index := i,
      TemperatureCelsius := reading (GetTemperature nv d) w 0,
      PowerDrawWatts := reading (GetPowerUsage nv d) w 0 div 1000,
      PowerLimitWatts := reading (GetPowerManagementLimit nv d) w 0 div 1000,
      PCIeTxKBps := reading (GetPcieThroughputTx nv d) w 0, PCIeRxKBps := reading (GetPcieThroughputRx nv d) w 0,
      NVLinkTxMBps := tx div 1024, NVLinkRxMBps := rx div 1024\<rparr>, w)"
    by (simp add: collectPhysicalForMIG_def read_chip_def read_nvlinks_def o n(1) zero_metrics_def)
  moreover have "driver_reading nv w t d =
    (if t = MetricTemperature then unat (reading (GetTemperature nv d) w 0)
     else if t = MetricPowerDraw then unat (reading (GetPowerUsage nv d) w 0) div 1000
     else if t = MetricPCIeTxKBps then unat (reading (GetPcieThroughputTx nv d) w 0)
     else if t = MetricPCIeRxKBps then unat (reading (GetPcieThroughputRx nv d) w 0)
     else if t = MetricNVLinkTxMBps then nvlink_total nv d w fst mod 2 ^ 64 div 1024
     else nvlink_total nv d w snd mod 2 ^ 64 div 1024)" if "chip_metric t" for t
    using chip_apart(1,2) [OF that] chip_last [OF that] by (simp add: driver_reading_def cong: if_cong)
  ultimately show ?thesis
    using n(2,3) by (simp add: chip_reading unat_div)
qed

text \<open>Chip-level readings are those of the base, the others those of the instance's own handle.\<close>

lemma reading_of_chip: "chip_metric t \<Longrightarrow> chip_of m = chip_of m' \<Longrightarrow> device_reading t m = device_reading t m'"
  by (simp add: chip_reading chip_of_def)

lemma instance_quiet:
  assumes "quiet nv w"
  shows "\<exists>m. run_state (collectMIGDevice nv h p k physical) w = (m, w) \<and>
    (\<forall>t. device_reading t m = (if chip_metric t then device_reading t physical else driver_reading nv w t h))"
proof -
  have q: "snd (run_state (GetUUID nv h) w) = w" "snd (run_state (GetName nv h) w) = w"
    "snd (run_state (GetUtilizationRates nv h) w) = w" "snd (run_state (GetMemoryInfo nv h) w) = w"
    using assms by (simp_all add: quiet_def)
  have name: "run_state (overlay (GetName nv h) (\<lambda>n m. m\<lparr>Name_gpu := n, MigProfile := parseMIGProfile n\<rparr>) m) w =
      (m\<lparr>Name_gpu := n, MigProfile := parseMIGProfile n\<rparr>, w)"
    if "n = reading (GetName nv h) w []" "Name_gpu m = []" "MigProfile m = []" for n m
    using that q(2) by (auto simp: run_overlay case_prod_beta reading_def parseMIGProfile_def has_prefix_def split: sum.split)
  note o = overlay_reading [OF q(1), where dflt = "[]"] overlay_reading [OF q(3), where dflt = "(0, 0)"]
    overlay_reading [OF q(4), where dflt = "(0, 0)"]
  obtain m where m: "run_state (collectMIGDevice nv h p k physical) w = (m, w)"
      "(GPUUtilization m, MemoryUtilization m) = reading (GetUtilizationRates nv h) w (0, 0)"
      "MemoryUsedMiB m = fst (reading (GetMemoryInfo nv h) w (0, 0)) div bytes_per_mib"
    by (simp add: collectMIGDevice_def read_utilization_def read_memory_def o name mig_base_def zero_metrics_def case_prod_beta)
  have "chip_of m = chip_of physical"
    using pred_stateD [OF collectMIGDevice_keeps(2) m(1)] by (simp add: chip_of_def mig_base_def)
  then have "device_reading t m = device_reading t physical" if "chip_metric t" for t
    using that by (rule reading_of_chip [rotated])
  moreover have "device_reading t m = driver_reading nv w t h" if "\<not> chip_metric t" for t
    using that m(2,3) by (auto simp: chip_metric_def device_reading_def driver_reading_def unat_div bytes_per_mib_def
        dest: sym [of "(_, _)"])
  ultimately show ?thesis using m(1) by auto
qed

section \<open>A collection\<close>

lemma mig_handles_step:
  "k < N \<Longrightarrow> mig_handles nv w k N d = (case fst (run_state (GetMigDeviceHandleByIndex nv d k) w) of
     Inl _ \<Rightarrow> [] | Inr h \<Rightarrow> h # mig_handles nv w (Suc k) N d)"
  by (simp add: mig_handles_def Let_def upt_conv_Cons split: sum.split)

lemma instances_quiet:
  assumes "quiet nv w" "refuses_from nv N"
  shows "\<exists>ms. mig_instances nv d p physical k w = Some (ms, w) \<and>
    map (device_reading t) ms =
      map (\<lambda>h. if chip_metric t then device_reading t physical else driver_reading nv w t h) (mig_handles nv w k N d)"
proof (induction "N - k" arbitrary: k rule: less_induct)
  case less
  obtain r where r: "run_state (GetMigDeviceHandleByIndex nv d k) w = (r, w)"
    using assms(1) by (metis quiet_def prod.collapse)
  show ?case
  proof (cases r)
    case (Inl e)
    then have "mig_handles nv w k N d = []"
      by (cases "k < N") (simp_all add: mig_handles_step r, simp add: mig_handles_def)
    then show ?thesis using r Inl by (subst mig_instances.simps) simp
  next
    case (Inr h)
    then have k: "k < N" using assms(2) r unfolding refuses_from_def by (metis fst_conv is_ok_simps(2) not_le)
    then have less_k: "N - Suc k < N - k" by simp
    obtain m where m: "run_state (collectMIGDevice nv h p (int k) physical) w = (m, w)"
      "device_reading t m = (if chip_metric t then device_reading t physical else driver_reading nv w t h)"
      using instance_quiet [OF assms(1)] by metis
    obtain ms where "mig_instances nv d p physical (Suc k) w = Some (ms, w)"
      "map (device_reading t) ms =
        map (\<lambda>h. if chip_metric t then device_reading t physical else driver_reading nv w t h) (mig_handles nv w (Suc k) N d)"
      using less [OF less_k] by blast
    then show ?thesis using r Inr m k by (subst mig_instances.simps) (simp add: mig_handles_step)
  qed
qed

lemma gpu_quiet:
  assumes "quiet nv w" "refuses_from nv N"
  shows "\<exists>ms. run_state (collect_gpu nv i) w = (Some ms, w) \<and>
    map (device_reading t) ms = map (entry_reading nv w t)
      (concat (map (entries nv w N) (device_list (fst (run_state (DeviceGetHandleByIndex nv (int i)) w)))))"
proof (cases "fst (run_state (DeviceGetHandleByIndex nv (int i)) w)")
  case (Inl e)
  then have "run_state (DeviceGetHandleByIndex nv (int i)) w = (Inl e, w)" using assms(1) by (metis quiet_def prod.collapse)
  then show ?thesis by (simp add: collect_gpu_def device_list_def)
next
  case (Inr d)
  then have h: "run_state (DeviceGetHandleByIndex nv (int i)) w = (Inr d, w)" using assms(1) by (metis quiet_def prod.collapse)
  have b: "run_state (isMIGEnabled nv d) w = (mig_mode nv w d, w)"
    unfolding mig_mode_def by (rule run_quiet [OF stays_isMIGEnabled [OF assms(1)]])
  show ?thesis
  proof (cases "mig_mode nv w d")
    case True
    obtain physical where p: "run_state (collectPhysicalForMIG nv d (int i)) w = (physical, w)"
      "\<forall>t. chip_metric t \<longrightarrow> device_reading t physical = driver_reading nv w t d"
      using physical_quiet [OF assms(1)] by blast
    obtain ms where "mig_instances nv d (int i) physical 0 w = Some (ms, w)"
      "map (device_reading t) ms =
        map (\<lambda>h. if chip_metric t then device_reading t physical else driver_reading nv w t h) (mig_handles nv w 0 N d)"
      using instances_quiet [OF assms] by blast
    then show ?thesis
      using True p b h by (auto simp: collect_gpu_def collectMIGInstances_def device_list_def entries_def entry_reading_def)
  next
    case False
    obtain m where "run_state (nvml_CollectDevice nv (int i)) w = (Inr m, w)" "device_reading t m = driver_reading nv w t d"
      using device_says [OF assms(1) Inr] by blast
    moreover from this have "run_state (collectDevice nv (int i)) w = (Inr m, w)"
      using CollectDevice_quiet [OF assms(1)] run_quiet [OF stays_collectDevice [OF assms(1)]] by (metis prod.inject)
    ultimately show ?thesis
      using False b h by (auto simp: collect_gpu_def device_list_def entries_def entry_reading_def)
  qed
qed

lemma gpus_quiet:
  assumes "quiet nv w" "refuses_from nv N"
  shows "\<exists>ms. run_state (collect_gpus nv is0) w = (Some ms, w) \<and>
    map (device_reading t) ms = map (entry_reading nv w t) (concat (map (entries nv w N)
      (concat (map (\<lambda>i. device_list (fst (run_state (DeviceGetHandleByIndex nv (int i)) w))) is0))))"
proof (induction is0)
  case (Cons i is0)
  then obtain ms where ms: "run_state (collect_gpus nv is0) w = (Some ms, w)"
    "map (device_reading t) ms = map (entry_reading nv w t) (concat (map (entries nv w N)
      (concat (map (\<lambda>i. device_list (fst (run_state (DeviceGetHandleByIndex nv (int i)) w))) is0))))" by blast
  obtain xs where "run_state (collect_gpu nv i) w = (Some xs, w)"
    "map (device_reading t) xs = map (entry_reading nv w t)
      (concat (map (entries nv w N) (device_list (fst (run_state (DeviceGetHandleByIndex nv (int i)) w)))))"
    using gpu_quiet [OF assms] by blast
  then show ?case using ms by simp
qed simp

lemma node_quiet:
  assumes "quiet nv w" "refuses_from nv N" "fst (run_state (DeviceGetCount nv) w) = Inr n"
  shows "\<exists>ms. run_state (nvml_CollectAll nv) w = (Inr ms, w) \<and>
    map (device_reading t) ms = map (entry_reading nv w t) (node_entries nv w N n)"
proof -
  have "run_state (DeviceGetCount nv) w = (Inr n, w)" using assms(1,3) by (metis quiet_def prod.collapse)
  moreover obtain ms where "run_state (collect_gpus nv [0..<nat n]) w = (Some ms, w)"
    "map (device_reading t) ms = map (entry_reading nv w t) (node_entries nv w N n)"
    using gpus_quiet [OF assms(1,2)] unfolding node_entries_def handles_def by blast
  ultimately show ?thesis by (auto simp: nvml_CollectAll_def nvml_DeviceCount_def)
qed

lemma node_reads:
  assumes "quiet nv w" "refuses_from nv N" "fst (run_state (DeviceGetCount nv) w) = Inr n" "nvml_world (coll s) = w"
    and "\<not> IsVLLMMetric (metricType cfg)" "\<not> IsTritonMetric (metricType cfg)"
    and "metricType cfg \<noteq> MetricMemoryUsedPercent" "gpuIndex cfg < 0"
    and "node_entries nv w N n \<noteq> []" "length (node_entries nv w N n) \<le> 2 ^ 40"
    and "sum_list (map (entry_reading nv w (metricType cfg)) (node_entries nv w N n)) \<le> 2 ^ 53"
  shows "getMetricValue (nvml_ops nv) env cfg s =
    (Inr (aggregate_spec (map (entry_reading nv w (metricType cfg)) (node_entries nv w N n)) (aggregation cfg)), s)"
proof -
  let ?ns = "map (entry_reading nv w (metricType cfg)) (node_entries nv w N n)"
  obtain ms where ms: "run_state (nvml_CollectAll nv) w = (Inr ms, w)" "map (device_reading (metricType cfg)) ms = ?ns"
    using node_quiet [OF assms(1-3)] by blast
  then have "CollectAll (nvml_ops nv) (coll s) = (Inr ms, coll s)" "ms \<noteq> []"
    using assms(4,9) by (auto simp: on_world_def)
  then have "getMetricValue (nvml_ops nv) env cfg s =
      (Inr (the (aggregate (map (\<lambda>m. extractMetric m (metricType cfg)) ms) (aggregation cfg))), s)"
    by (simp add: read_all_devices [OF assms(5,6,8)])
  moreover have "map (\<lambda>m. extractMetric m (metricType cfg)) ms = map f64_of_nat ?ns"
    using assms(7) by (simp add: extract_reading flip: ms(2))
  moreover have "aggregate (map f64_of_nat ?ns) (aggregation cfg) = Some (aggregate_spec ?ns (aggregation cfg))"
    by (rule aggregate_nat) (use assms(9-11) in simp_all)
  ultimately show ?thesis by (simp only: option.sel)
qed

lemma sum_concat: "sum_list (map (f :: 'x \<Rightarrow> nat) (concat xss)) = (\<Sum>xs\<leftarrow>xss. sum_list (map f xs))"
  by (induction xss) simp_all

lemma chip_sum:
  assumes "chip_metric t"
  shows "sum_list (map (entry_reading nv w t) (node_entries nv w N n)) =
    (\<Sum>d\<leftarrow>handles nv w n. length (entries nv w N d) * driver_reading nv w t d)"
proof -
  have "sum_list (map (entry_reading nv w t) (entries nv w N d)) = length (entries nv w N d) * driver_reading nv w t d" for d
    using assms by (simp add: entries_def entry_reading_def comp_def sum_list_triv)
  then show ?thesis unfolding node_entries_def sum_concat by (simp add: comp_def)
qed

section \<open>The sample node\<close>

definition mig_scaler :: "unit nvml_collector scaler" where
  "mig_scaler = NewGPUExternalScaler \<lparr>nvml_world = (), driverVersion = []\<rparr>"

lemma demo_quiet: "quiet demo_nvml ()" "fst (run_state (DeviceGetCount demo_nvml) ()) = Inr 3"
  by (simp_all add: quiet_def)

lemma demo_entries: "handles demo_nvml () 3 = [0, 1]" "entries demo_nvml () 2 0 = [(0, 0)]"
  "entries demo_nvml () 2 1 = [(10, 1), (11, 1)]" "node_entries demo_nvml () 2 3 = [(0, 0), (10, 1), (11, 1)]"
proof -
  show h: "handles demo_nvml () 3 = [0, 1]" by (simp add: handles_def device_list_def upt_rec)
  show 0: "entries demo_nvml () 2 0 = [(0, 0)]" by (simp add: entries_def mig_mode_def isMIGEnabled_def)
  show 1: "entries demo_nvml () 2 1 = [(10, 1), (11, 1)]"
    by (simp add: entries_def mig_mode_def isMIGEnabled_def mig_handles_def upt_rec)
  show "node_entries demo_nvml () 2 3 = [(0, 0), (10, 1), (11, 1)]" using 0 1 by (simp add: node_entries_def h)
qed

lemma demo_power: "driver_reading demo_nvml () MetricPowerDraw d = 300"
  by (simp add: driver_reading_def reading_def metric_type_defs)

lemma power_is_chip: "chip_metric MetricPowerDraw"
  by (simp add: chip_metric_def)

abbreviation power_sum :: scaler_config where
  "power_sum \<equiv> default_config\<lparr>metricType := MetricPowerDraw, aggregation := ''sum''\<rparr>"

lemma power_sum_device:
  "\<not> IsVLLMMetric (metricType power_sum)" "\<not> IsTritonMetric (metricType power_sum)"
  "metricType power_sum \<noteq> MetricMemoryUsedPercent" "gpuIndex power_sum < 0"
  by (simp_all add: IsVLLMMetric_def IsTritonMetric_def default_config_def) (simp_all add: metric_type_defs)

section \<open>Properties\<close>

text \<open>C7
  From the driver to the reported value, with MIG.  While the driver answers the same and refuses MIG
  handles from some index on, an object on all GPUs with any device metric but the memory percentage
  reads the exact aggregation, on natural numbers, over these entries: a GPU without MIG with its own
  readings, and for each GPU with MIG its instances up to the first refused index, utilization and
  memory from the instance's handle, the chip-level metrics from the GPU's.  The scaler is left unchanged.\<close>

theorem mig_node_value_exact:
  assumes "quiet nv w" "refuses_from nv N" "fst (run_state (DeviceGetCount nv) w) = Inr n" "nvml_world (coll s) = w"
    and "\<not> IsVLLMMetric (metricType cfg)" "\<not> IsTritonMetric (metricType cfg)"
    and "metricType cfg \<noteq> MetricMemoryUsedPercent" "gpuIndex cfg < 0"
    and "node_entries nv w N n \<noteq> []" "length (node_entries nv w N n) \<le> 2 ^ 40"
    and "sum_list (map (entry_reading nv w (metricType cfg)) (node_entries nv w N n)) \<le> 2 ^ 53"
  shows "getMetricValue (nvml_ops nv) env cfg s =
    (Inr (aggregate_spec (map (entry_reading nv w (metricType cfg)) (node_entries nv w N n)) (aggregation cfg)), s)"
  using assms by (rule node_reads)

lemma mig_node_value_exact_witness:
  "getMetricValue (nvml_ops demo_nvml) (demo_env 1) (power_sum\<lparr>aggregation := ''max''\<rparr>) mig_scaler = (Inr (f64_of_nat 300), mig_scaler)"
proof -
  let ?cfg = "power_sum\<lparr>aggregation := ''max''\<rparr>"
  have r: "entry_reading demo_nvml () MetricPowerDraw e = 300" for e by (simp add: entry_reading_def demo_power)
  have w: "nvml_world (coll mig_scaler) = ()" by simp
  show ?thesis
    using mig_node_value_exact [OF demo_quiet(1) demo_refuses demo_quiet(2) w, of ?cfg "demo_env 1"] power_sum_device
    by (simp add: demo_entries(4) r aggregate_spec_def)
qed

text \<open>C16
  A chip is counted once for each of its instances.  Under the same conditions the \<open>sum\<close> of a
  chip-level metric (temperature, power, PCIe, NVLink) adds each GPU's reading as many times as the
  GPU has entries: once without MIG, as often as it is split with MIG, and not at all for a GPU that is
  set to MIG but not split.\<close>

theorem chip_counted_per_instance:
  assumes "quiet nv w" "refuses_from nv N" "fst (run_state (DeviceGetCount nv) w) = Inr n" "nvml_world (coll s) = w"
    and "chip_metric (metricType cfg)" "aggregation cfg = ''sum''" "gpuIndex cfg < 0"
    and "node_entries nv w N n \<noteq> []" "length (node_entries nv w N n) \<le> 2 ^ 40"
    and "(\<Sum>d\<leftarrow>handles nv w n. length (entries nv w N d) * driver_reading nv w (metricType cfg) d) \<le> 2 ^ 53"
  shows "getMetricValue (nvml_ops nv) env cfg s =
    (Inr (f64_of_nat (\<Sum>d\<leftarrow>handles nv w n. length (entries nv w N d) * driver_reading nv w (metricType cfg) d)), s)"
proof -
  have d: "\<not> IsVLLMMetric (metricType cfg)" "\<not> IsTritonMetric (metricType cfg)" "metricType cfg \<noteq> MetricMemoryUsedPercent"
    using assms(5) by (auto simp: chip_metric_def IsVLLMMetric_def IsTritonMetric_def) (simp_all add: metric_type_defs)
  show ?thesis
    using node_reads [OF assms(1-4) d assms(7-9)] assms(6,10) by (simp add: chip_sum [OF assms(5)] aggregate_spec_def)
qed

lemma chip_counted_per_instance_witness:
  "getMetricValue (nvml_ops demo_nvml) (demo_env 1) power_sum mig_scaler = (Inr (f64_of_nat 900), mig_scaler)"
proof -
  have w: "nvml_world (coll mig_scaler) = ()" by simp
  show ?thesis
    using chip_counted_per_instance [OF demo_quiet(1) demo_refuses demo_quiet(2) w, of power_sum "demo_env 1"] power_sum_device(4)
    by (simp add: demo_entries demo_entries(3) [unfolded One_nat_def] power_is_chip demo_power)
qed

end
