(* ===== verification/CsvOutput.thy ===== *)
theory CsvOutput
  imports HpcEnv Gpu
begin

text \<open>
  The CSV output of \<open>cmd/gpu-metrics\<close>, with the quoting of \<open>encoding/csv\<close> and a reader as its
  specification.
\<close>

section \<open>Rows\<close>

definition csvHeader :: "string list" where
  "csvHeader = [''index'', ''uuid'', ''name'',
     ''gpu_util_pct'', ''mem_util_pct'', ''mem_used_mib'', ''mem_total_mib'',
     ''temp_c'', ''power_w'', ''power_limit_w'',
     ''pcie_tx_kbps'', ''pcie_rx_kbps'', ''nvlink_tx_mbps'', ''nvlink_rx_mbps'',
     ''is_mig_instance'', ''parent_index'', ''mig_profile'']"

definition csvRow :: "metrics \<Rightarrow> string list" where
  "csvRow m = [itoa (Index m), UUID m, Name_gpu m,
     format_word (GPUUtilization m), format_word (MemoryUtilization m),
     format_word (MemoryUsedMiB m), format_word (MemoryTotalMiB m),
     format_word (TemperatureCelsius m), format_word (PowerDrawWatts m), format_word (PowerLimitWatts m),
     format_word (PCIeTxKBps m), format_word (PCIeRxKBps m),
     format_word (NVLinkTxMBps m), format_word (NVLinkRxMBps m),
     if IsMIGInstance m then ''true'' else ''false'',
     if IsMIGInstance m then itoa (ParentIndex m) else [],
     if IsMIGInstance m then MigProfile m else []]"

section \<open>CSV\<close>

text \<open>
  \<open>Writer.Write\<close> of \<open>encoding/csv\<close>: a field is quoted when it has a comma, a quote or a line
  break, begins with white space, or is the end-of-data marker.
\<close>

definition field_needs_quotes :: "string \<Rightarrow> bool" where
  "field_needs_quotes f \<longleftrightarrow> f \<noteq> [] \<and> (f = [CHR 0x5C, CHR ''.''] \<or>
     list_ex (\<lambda>c. c = CHR '','' \<or> c = CHR 0x22 \<or> byte c = 10 \<or> byte c = 13) f \<or> space_len f \<noteq> 0)"

definition quote_field :: "string \<Rightarrow> string" where
  "quote_field f = CHR 0x22 # concat (map (\<lambda>c. if c = CHR 0x22 then [CHR 0x22, CHR 0x22] else [c]) f) @ [CHR 0x22]"

definition csv_field :: "string \<Rightarrow> string" where
  "csv_field f = (if field_needs_quotes f then quote_field f else f)"

text \<open>A record, without the line break \<open>Write\<close> adds.\<close>

definition csv_record :: "string list \<Rightarrow> string" where
  "csv_record fs = str_join '','' (map csv_field fs)"

definition outputCSV :: "metrics list \<Rightarrow> env_context \<Rightarrow> string \<Rightarrow> string list" where
  "outputCSV ms ctx driver =
     csv_record (Header_env ctx @ [''driver_version''] @ csvHeader)
     # map (\<lambda>m. csv_record (Row_env ctx @ [driver] @ csvRow m)) ms"

section \<open>Facts on CSV\<close>

text \<open>A reader of records, by the quoting rules of RFC 4180.\<close>

fun read_quoted :: "string \<Rightarrow> string \<times> string" where
  "read_quoted [] = ([], [])"
| "read_quoted [c] = (if c = CHR 0x22 then ([], []) else ([c], []))"
| "read_quoted (c # d # s) =
     (if c \<noteq> CHR 0x22 then apfst ((#) c) (read_quoted (d # s))
      else if d = CHR 0x22 then apfst ((#) c) (read_quoted s)
      else ([], d # s))"

fun read_plain :: "string \<Rightarrow> string \<times> string" where
  "read_plain [] = ([], [])"
| "read_plain (c # s) = (if c = CHR '','' then ([], c # s) else apfst ((#) c) (read_plain s))"

definition read_field :: "string \<Rightarrow> string \<times> string" where
  "read_field s = (case s of c # s' \<Rightarrow> if c = CHR 0x22 then read_quoted s' else read_plain s | [] \<Rightarrow> ([], []))"

lemma read_quoted_shorter: "length (snd (read_quoted s)) \<le> length s"
  by (induction s rule: read_quoted.induct) auto

lemma read_plain_shorter: "length (snd (read_plain s)) \<le> length s"
  by (induction s) auto

lemma read_field_shorter: "length (snd (read_field s)) \<le> length s"
  using read_quoted_shorter [of "tl s"] read_plain_shorter [of s]
  by (cases s) (auto simp: read_field_def)

function read_record :: "string \<Rightarrow> string list" where
  "read_record s = fst (read_field s) # (case snd (read_field s) of [] \<Rightarrow> [] | _ # r \<Rightarrow> read_record r)"
  by pat_completeness auto
termination
proof (relation "measure length", goal_cases)
  case (2 s c r)
  then show ?case using read_field_shorter [of s] by simp
qed simp

declare read_record.simps [simp del]

definition escape :: "string \<Rightarrow> string" where
  "escape f = concat (map (\<lambda>c. if c = CHR 0x22 then [CHR 0x22, CHR 0x22] else [c]) f)"

lemma read_escaped: "r = [] \<or> hd r \<noteq> CHR 0x22 \<Longrightarrow> read_quoted (escape f @ CHR 0x22 # r) = (f, r)"
proof (induction f)
  case Nil
  then show ?case by (cases r) (auto simp: escape_def)
next
  case (Cons c f)
  then have IH: "read_quoted (escape f @ CHR 0x22 # r) = (f, r)" by blast
  obtain d s where s: "escape f @ CHR 0x22 # r = d # s" by (cases "escape f @ CHR 0x22 # r") auto
  have "escape (c # f) = (if c = CHR 0x22 then [CHR 0x22, CHR 0x22] else [c]) @ escape f" by (simp add: escape_def)
  then show ?case using IH s by auto
qed

lemma read_unquoted: "CHR '','' \<notin> set f \<Longrightarrow> r = [] \<or> hd r = CHR '','' \<Longrightarrow> read_plain (f @ r) = (f, r)"
  by (induction f) (auto, cases r, auto)

lemma read_csv_field: "r = [] \<or> hd r = CHR '','' \<Longrightarrow> read_field (csv_field f @ r) = (f, r)"
proof (cases "field_needs_quotes f")
  case True
  assume "r = [] \<or> hd r = CHR '',''"
  then show ?thesis
    using True read_escaped [of r f] by (auto simp: csv_field_def quote_field_def read_field_def escape_def)
next
  case False
  assume r: "r = [] \<or> hd r = CHR '',''"
  have f: "f = [] \<or> CHR '','' \<notin> set f \<and> CHR 0x22 \<notin> set f"
    using False by (auto simp: field_needs_quotes_def list_ex_iff)
  then have "read_plain (f @ r) = (f, r)" using read_unquoted [of f r] r by auto
  moreover have "f @ r = [] \<or> hd (f @ r) \<noteq> CHR 0x22" using f r by (cases f) auto
  ultimately show ?thesis using False by (auto simp: csv_field_def read_field_def split: list.splits)
qed

lemma read_csv_record: "fs \<noteq> [] \<Longrightarrow> read_record (csv_record fs) = fs"
proof (induction fs rule: induct_list012)
  case (2 f)
  then show ?case using read_csv_field [of "[]" f] by (simp add: csv_record_def read_record.simps [of "csv_field f"])
next
  case (3 f g fs)
  have "csv_record (f # g # fs) = csv_field f @ CHR '','' # csv_record (g # fs)" by (simp add: csv_record_def)
  then show ?case using 3 read_csv_field [of "CHR '','' # csv_record (g # fs)" f]
    by (simp add: read_record.simps [of "csv_field f @ CHR '','' # csv_record (g # fs)"])
qed simp

text \<open>The snapshot a row stands for.\<close>

definition word_of_field :: "string \<Rightarrow> 'a::len word" where
  "word_of_field f = (case parse_uint f of Inr n \<Rightarrow> of_nat n | Inl _ \<Rightarrow> 0)"

definition metrics_of_row :: "string list \<Rightarrow> metrics" where
  "metrics_of_row r = \<lparr>Index = atoi_value (r ! 0), UUID = r ! 1, Name_gpu = r ! 2,
     GPUUtilization = word_of_field (r ! 3), MemoryUtilization = word_of_field (r ! 4),
     MemoryUsedMiB = word_of_field (r ! 5), MemoryTotalMiB = word_of_field (r ! 6),
     TemperatureCelsius = word_of_field (r ! 7), PowerDrawWatts = word_of_field (r ! 8),
     PowerLimitWatts = word_of_field (r ! 9), PCIeTxKBps = word_of_field (r ! 10),
     PCIeRxKBps = word_of_field (r ! 11), NVLinkTxMBps = word_of_field (r ! 12),
     NVLinkRxMBps = word_of_field (r ! 13), IsMIGInstance = (r ! 14 = ''true''),
     ParentIndex = atoi_value (r ! 15), MigProfile = r ! 16\<rparr>"

text \<open>The MIG fields of a snapshot that is no instance are not printed.\<close>

definition printed :: "metrics \<Rightarrow> metrics" where
  "printed m = (if IsMIGInstance m then m else m\<lparr>ParentIndex := 0, MigProfile := []\<rparr>)"

lemma word_of_field_format [simp]: "LENGTH('a) \<le> 64 \<Longrightarrow> word_of_field (format_word (w :: 'a::len word)) = w"
proof -
  assume "LENGTH('a) \<le> 64"
  then have "(2::nat) ^ LENGTH('a) \<le> 2 ^ 64" by (intro power_increasing) auto
  then have "unat w < 2 ^ 64" using unsigned_less [of w, where ?'a = nat] by linarith
  then show ?thesis by (simp add: word_of_field_def format_word_def parse_uint_format_uint)
qed

lemma atoi_value_empty [simp]: "atoi_value [] = 0"
  by (simp add: atoi_value_def atoi_def parse_uint_def Let_def)

lemma metrics_of_csvRow:
  "in_int64 (Index m) \<Longrightarrow> in_int64 (ParentIndex m) \<Longrightarrow> metrics_of_row (csvRow m) = printed m"
  by (simp add: metrics_of_row_def csvRow_def printed_def atoi_value_itoa)

lemma csv_lines_back:
  assumes "\<forall>m \<in> set ms. in_int64 (Index m) \<and> in_int64 (ParentIndex m)"
  shows "\<exists>hdr rows. outputCSV ms ctx driver = hdr # rows \<and>
    read_record hdr = Header_env ctx @ [''driver_version''] @ csvHeader \<and>
    (\<forall>l \<in> set rows. length (read_record l) = length (read_record hdr) \<and> take 5 (read_record l) = Row_env ctx @ [driver]) \<and>
    map (\<lambda>l. metrics_of_row (drop 5 (read_record l))) rows = map printed ms"
proof -
  have "read_record (csv_record (Row_env ctx @ [driver] @ csvRow m)) = Row_env ctx @ [driver] @ csvRow m" for m
    by (rule read_csv_record) simp
  moreover have "drop 5 (Row_env ctx @ [driver] @ csvRow m) = csvRow m"
    "take 5 (Row_env ctx @ [driver] @ csvRow m) = Row_env ctx @ [driver]" for m
    by (simp_all add: Row_env_def)
  moreover have "read_record (csv_record (Header_env ctx @ [''driver_version''] @ csvHeader))
      = Header_env ctx @ [''driver_version''] @ csvHeader"
    by (rule read_csv_record) simp
  ultimately show ?thesis
    using assms by (simp add: outputCSV_def metrics_of_csvRow) (simp add: Row_env_def Header_env_def csvRow_def csvHeader_def)
qed

section \<open>Properties\<close>

text \<open>C29
  The CSV output can be read back.  By the quoting rules of RFC 4180 its first line is the
  environment's columns, the driver version and the columns of a snapshot, every line has as many fields,
  and the fields of each line give back the environment, the driver version and the snapshot, whatever
  commas, quotes and line breaks the names contain.  Only the MIG fields of a snapshot that is no
  instance are not printed.\<close>

theorem csv_reads_back:
  assumes "\<forall>m \<in> set ms. in_int64 (Index m) \<and> in_int64 (ParentIndex m)"
  shows "\<exists>hdr rows. outputCSV ms ctx driver = hdr # rows \<and>
    read_record hdr = Header_env ctx @ [''driver_version''] @ csvHeader \<and>
    (\<forall>l \<in> set rows. length (read_record l) = length (read_record hdr) \<and> take 5 (read_record l) = Row_env ctx @ [driver]) \<and>
    map (\<lambda>l. metrics_of_row (drop 5 (read_record l))) rows = map printed ms"
  using assms by (rule csv_lines_back)

lemma csv_reads_back_witness:
  "map (\<lambda>l. metrics_of_row (drop 5 (read_record l))) (tl (outputCSV [mock_device 80 1\<lparr>Name_gpu := ''A,B''\<rparr>] zero_context ''550'')) =
     [printed (mock_device 80 1\<lparr>Name_gpu := ''A,B''\<rparr>)]"
  using csv_reads_back [of "[mock_device 80 1\<lparr>Name_gpu := ''A,B''\<rparr>]" zero_context "''550''"]
  by (auto simp: mock_device_def in_int64_def min_int64_def max_int64_def zero_metrics_def)

end
