(* ===== verification/GoUtf8.thy ===== *)
theory GoUtf8
  imports GoStrings
begin

text \<open>
  UTF-8 as \<open>unicode/utf8\<close> decodes it, and what is built on it: counting runes, the padding of
  \<open>fmt\<close>, and the replacement of invalid bytes.
\<close>

section \<open>Runes\<close>

definition tail_byte :: "nat \<Rightarrow> bool" where
  "tail_byte b \<longleftrightarrow> 128 \<le> b \<and> b \<le> 191"

text \<open>The byte strings that encode one rune: no overlong forms, no surrogates, at most U+10FFFF.\<close>

definition is_rune :: "string \<Rightarrow> bool" where
  "is_rune u = (case map byte u of
     [b] \<Rightarrow> b < 128
   | [b, c] \<Rightarrow> 194 \<le> b \<and> b \<le> 223 \<and> tail_byte c
   | [b, c, d] \<Rightarrow> 224 \<le> b \<and> b \<le> 239 \<and> tail_byte c \<and> tail_byte d \<and>
       (b = 224 \<longrightarrow> 160 \<le> c) \<and> (b = 237 \<longrightarrow> c \<le> 159)
   | [b, c, d, e] \<Rightarrow> 240 \<le> b \<and> b \<le> 244 \<and> tail_byte c \<and> tail_byte d \<and> tail_byte e \<and>
       (b = 240 \<longrightarrow> 144 \<le> c) \<and> (b = 244 \<longrightarrow> c \<le> 143)
   | _ \<Rightarrow> False)"

text \<open>The number of bytes of the rune a string starts with; 0 if it starts with none.\<close>

definition rune_len :: "string \<Rightarrow> nat" where
  "rune_len s = (case filter (\<lambda>n. is_rune (take n s)) [1, 2, 3, 4] of [] \<Rightarrow> 0 | n # _ \<Rightarrow> n)"

lemma is_rune_simps [simp]:
  "is_rune [] = False"
  "is_rune [b] \<longleftrightarrow> byte b < 128"
  by (simp_all add: is_rune_def)

lemma rune_len_Nil [simp]: "rune_len [] = 0"
  by (simp add: rune_len_def)

lemma rune_len_ascii [simp]: "byte c < 128 \<Longrightarrow> rune_len (c # s) = 1"
  by (simp add: rune_len_def)

lemma is_rune_cases:
  assumes "is_rune u"
  obtains b where "u = [b]" "byte b < 128"
  | b c where "u = [b, c]" "194 \<le> byte b" "tail_byte (byte c)"
  | b c d where "u = [b, c, d]" "224 \<le> byte b" "tail_byte (byte c)" "tail_byte (byte d)"
  | b c d e where "u = [b, c, d, e]" "240 \<le> byte b" "tail_byte (byte c)" "tail_byte (byte d)" "tail_byte (byte e)"
  using assms by (auto simp: is_rune_def map_eq_Cons_conv split: list.splits)

text \<open>No rune is the beginning of another one.\<close>

lemma rune_prefix: "is_rune (u @ v) \<Longrightarrow> is_rune u \<Longrightarrow> v = []"
  by (auto simp: is_rune_def map_eq_Cons_conv tail_byte_def split: list.splits)

lemma rune_len_rune [simp]:
  assumes "is_rune u"
  shows "rune_len (u @ r) = length u"
proof -
  have no: "\<not> is_rune (take n u)" if "n < length u" for n
    using rune_prefix [of "take n u" "drop n u"] assms that by auto
  show ?thesis
    using assms by (cases rule: is_rune_cases) (use assms no in \<open>force simp: rune_len_def\<close>)+
qed

lemma rune_len_is_rune: "0 < rune_len s \<Longrightarrow> is_rune (take (rune_len s) s)"
  by (auto simp: rune_len_def split: if_splits)

section \<open>The runes of a string\<close>

text \<open>A string cut into its runes, each byte that belongs to none on its own.\<close>

function runes :: "string \<Rightarrow> string list" where
  "runes s = (if s = [] then []
     else take (max 1 (rune_len s)) s # runes (drop (max 1 (rune_len s)) s))"
  by pat_completeness auto
termination
  by (relation "measure length") auto

declare runes.simps [simp del]

lemma runes_Nil [simp]: "runes [] = []"
  by (simp add: runes.simps)

lemma runes_rune: "is_rune u \<Longrightarrow> runes (u @ r) = u # runes r"
  by (cases u) (auto simp: runes.simps [of "_ # _"] max_def Suc_leI dest: rune_len_rune [of _ r])

lemma runes_ascii [simp]: "byte c < 128 \<Longrightarrow> runes (c # s) = [c] # runes s"
  using runes_rune [of "[c]" s] by simp

lemma concat_runes [simp]: "concat (runes s) = s"
  by (induction s rule: runes.induct) (subst runes.simps, auto)

text \<open>\<open>utf8.RuneCountInString\<close>, \<open>utf8.ValidString\<close>.\<close>

definition rune_count :: "string \<Rightarrow> nat" where
  "rune_count s = length (runes s)"

definition valid_utf8 :: "string \<Rightarrow> bool" where
  "valid_utf8 s \<longleftrightarrow> list_all is_rune (runes s)"

text \<open>Invalid bytes replaced by U+FFFD.\<close>

definition replacement :: string where
  "replacement = map char_of [239, 191, 189 :: nat]"

definition utf8_clean :: "string \<Rightarrow> string" where
  "utf8_clean s = concat (map (\<lambda>u. if is_rune u then u else replacement) (runes s))"

lemma clean_valid [simp]: "valid_utf8 s \<Longrightarrow> utf8_clean s = s"
proof -
  assume "valid_utf8 s"
  then have "map (\<lambda>u. if is_rune u then u else replacement) (runes s) = runes s"
    by (intro map_idI) (auto simp: valid_utf8_def list_all_iff)
  then show ?thesis by (simp add: utf8_clean_def)
qed

lemma runes_append: "valid_utf8 s \<Longrightarrow> runes (s @ t) = runes s @ runes t"
proof (induction s rule: runes.induct)
  case (1 s)
  show ?case
  proof (cases "s = []")
    case False
    let ?n = "max 1 (rune_len s)"
    have r: "runes s = take ?n s # runes (drop ?n s)" using False by (subst runes.simps) simp
    then have u: "is_rune (take ?n s)" "valid_utf8 (drop ?n s)" using 1(2) by (simp_all add: valid_utf8_def)
    then have "runes (take ?n s @ (drop ?n s @ t)) = take ?n s # runes (drop ?n s @ t)" by (intro runes_rune)
    then show ?thesis using 1(1) [OF False u(2)] r
      by (simp add: append_assoc [symmetric] del: append_assoc)
  qed simp
qed

lemma valid_append [simp]: "valid_utf8 s \<Longrightarrow> valid_utf8 (s @ t) \<longleftrightarrow> valid_utf8 t"
  by (simp add: valid_utf8_def runes_append list_all_append)

lemma rune_count_append [simp]: "valid_utf8 s \<Longrightarrow> rune_count (s @ t) = rune_count s + rune_count t"
  by (simp add: rune_count_def runes_append)

text \<open>ASCII text.\<close>

definition ascii :: "string \<Rightarrow> bool" where
  "ascii s \<longleftrightarrow> list_all (\<lambda>c. byte c < 128) s"

lemma runes_of_ascii: "ascii s \<Longrightarrow> runes s = map (\<lambda>c. [c]) s"
  by (induction s) (simp_all add: ascii_def)

lemma ascii_facts [simp]:
  "ascii s \<Longrightarrow> valid_utf8 s"
  "ascii s \<Longrightarrow> rune_count s = length s"
  by (auto simp: runes_of_ascii valid_utf8_def rune_count_def ascii_def list_all_iff)

section \<open>Padding\<close>

text \<open>\<open>%ws\<close> and \<open>%-ws\<close> of \<open>fmt\<close>: the width counts runes, and a longer text is kept whole.\<close>

definition pad_left :: "nat \<Rightarrow> string \<Rightarrow> string" where
  "pad_left w s = replicate (w - rune_count s) (CHR '' '') @ s"

definition pad_right :: "nat \<Rightarrow> string \<Rightarrow> string" where
  "pad_right w s = s @ replicate (w - rune_count s) (CHR '' '')"

lemma ascii_blanks [simp]: "ascii (replicate n (CHR '' ''))"
  by (simp add: ascii_def byte_def list_all_iff)

lemma rune_count_pad [simp]:
  "rune_count (pad_left w s) = max w (rune_count s)"
  "valid_utf8 s \<Longrightarrow> rune_count (pad_right w s) = max w (rune_count s)"
  by (auto simp: pad_left_def pad_right_def)

lemma valid_pad [simp]: "valid_utf8 s \<Longrightarrow> valid_utf8 (pad_left w s)" "valid_utf8 s \<Longrightarrow> valid_utf8 (pad_right w s)"
  by (auto simp: pad_left_def pad_right_def)

end
