(* ===== verification/TableOutput.thy ===== *)
theory TableOutput
  imports GoUtf8 HpcEnv Gpu
begin

text \<open>The table of \<open>cmd/gpu-metrics\<close>, as the lines it is printed in.\<close>

section \<open>Rows and labels\<close>

definition tableGPULabel :: "metrics \<Rightarrow> string" where
  "tableGPULabel m =
     (if IsMIGInstance m then
        (if 0 \<le> ParentIndex m then ''gpu'' @ itoa (ParentIndex m) @ ''/inst'' @ itoa (Index m)
         else ''mig/'' @ itoa (Index m))
      else itoa (Index m))"

text \<open>The ellipsis is three bytes of UTF-8; \<open>None\<close> is the panic of a negative slice bound.\<close>

definition truncate_name :: "string \<Rightarrow> nat \<Rightarrow> string option" where
  "truncate_name s n =
     (if length s \<le> n then Some s
      else if n = 0 then None
      else Some (take (n - 1) s @ map char_of [226, 128, 166 :: nat]))"

definition degree_celsius :: string where
  "degree_celsius = map char_of [194, 176 :: nat] @ ''C''"

text \<open>The first line; \<open>Printf\<close> calls under a condition add their part or nothing.\<close>

definition part :: "string \<Rightarrow> string \<Rightarrow> string" where
  "part v text = (if v = [] then [] else text)"

definition table_banner :: "env_context \<Rightarrow> string \<Rightarrow> string" where
  "table_banner ctx driver =
     ''Environment : '' @ Orchestrator ctx
     @ part (NodeName ctx) (''  |  Node: '' @ NodeName ctx)
     @ part (JobID ctx) (''  |  Job: '' @ JobID ctx @ ''  |  Rank: '' @ itoa (TaskRank ctx))
     @ part (PodName ctx) (''  |  Pod: '' @ PodName ctx)
     @ part (Namespace ctx) (''  |  Namespace: '' @ Namespace ctx)
     @ part (Partition ctx) (''  |  Partition: '' @ Partition ctx)
     @ part driver (''  |  Driver: '' @ driver)"

definition header_cells :: "string list" where
  "header_cells = [pad_right 5 ''GPU'', pad_right 22 ''Name'', pad_left 6 ''Util%'', pad_left 6 ''Mem%'',
     pad_left 10 ''MemUsed'', pad_left 10 ''MemTotal'', pad_left 6 ''Temp'', pad_left 6 ''Power'',
     pad_left 10 ''PCIeTx'', pad_left 10 ''PCIeRx'', pad_left 10 ''NVLTx'', pad_left 10 ''NVLRx'']"

definition table_header :: string where
  "table_header = str_join '' '' header_cells"

definition table_rule :: string where
  "table_rule = ''---   ----------------------  -----  -----  ---------  ---------  -----  -----  ---------  ---------  ---------  ---------''"

text \<open>\<open>the\<close> is safe here: the bound 22 is not 0.\<close>

definition row_cells :: "metrics \<Rightarrow> string list" where
  "row_cells m = [pad_right 5 (tableGPULabel m), pad_right 22 (the (truncate_name (Name_gpu m) 22)),
     pad_left 5 (format_word (GPUUtilization m)) @ ''%'', pad_left 5 (format_word (MemoryUtilization m)) @ ''%'',
     pad_left 7 (format_word (MemoryUsedMiB m)) @ ''MiB'', pad_left 7 (format_word (MemoryTotalMiB m)) @ ''MiB'',
     pad_left 4 (format_word (TemperatureCelsius m)) @ degree_celsius, pad_left 4 (format_word (PowerDrawWatts m)) @ ''W'',
     pad_left 7 (format_word (PCIeTxKBps m)) @ ''KB/s'', pad_left 7 (format_word (PCIeRxKBps m)) @ ''KB/s'',
     pad_left 7 (format_word (NVLinkTxMBps m)) @ ''MB/s'', pad_left 7 (format_word (NVLinkRxMBps m)) @ ''MB/s'']"

definition table_row :: "metrics \<Rightarrow> string" where
  "table_row m = str_join '' '' (row_cells m)"

definition outputTable :: "metrics list \<Rightarrow> env_context \<Rightarrow> string \<Rightarrow> string list" where
  "outputTable ms ctx driver = [table_banner ctx driver, [], table_header, table_rule] @ map table_row ms"

section \<open>Facts\<close>

lemma truncate_22: "\<exists>t. truncate_name s 22 = Some t"
  by (simp add: truncate_name_def)

lemma format_uint_ascii [simp]: "ascii (format_uint n)"
  using format_uint_digits [of n] by (auto simp: ascii_def list_all_iff is_digit_def byte_def)

lemma ascii_list [simp]:
  "ascii []" "ascii (c # s) \<longleftrightarrow> byte c < 128 \<and> ascii s" "ascii (s @ t) \<longleftrightarrow> ascii s \<and> ascii t"
  by (simp_all add: ascii_def)

lemma numbers_ascii [simp]: "ascii (format_word w)" "ascii (itoa i)"
  by (simp_all add: format_word_def itoa_def byte_def)

lemma label_ascii [simp]: "ascii (tableGPULabel m)"
  by (simp add: tableGPULabel_def byte_def)

lemma format_uint_length: "n < 10 ^ k \<Longrightarrow> 0 < k \<Longrightarrow> length (format_uint n) \<le> k"
proof (induction n arbitrary: k rule: format_uint.induct)
  case (1 n)
  show ?case
  proof (cases "n < 10")
    case False
    then obtain j where j: "k = Suc j" "0 < j" using 1(2) by (cases k; cases "k - 1") auto
    then have "n div 10 < 10 ^ j" using 1(2) by (auto simp: div_less_iff_less_mult mult.commute)
    then show ?thesis using 1(1) [OF False _ j(2)] False j by (simp add: format_uint.simps [of n])
  qed (use 1 in \<open>simp add: format_uint.simps [of n]\<close>)
qed

lemma word_width: "unat w < 10 ^ k \<Longrightarrow> 0 < k \<Longrightarrow> max k (length (format_word w)) = k"
  using format_uint_length [of "unat w" k] by (simp add: format_word_def)

lemma runes_nonempty: "[] \<notin> set (runes s)"
proof (induction s rule: runes.induct)
  case (1 s)
  then show ?case by (cases "s = []") (auto simp: runes.simps [of s])
qed

lemma length_concat_ge: "[] \<notin> set us \<Longrightarrow> length us \<le> length (concat us)"
proof (induction us)
  case (Cons u us)
  then show ?case by (cases u) auto
qed simp

lemma rune_count_le: "rune_count s \<le> length s"
  using length_concat_ge [OF runes_nonempty, of s] by (simp add: rune_count_def)

lemma special_runes [simp]:
  "is_rune (map char_of [194, 176 :: nat])" "is_rune (map char_of [226, 128, 166 :: nat])"
  by (simp_all add: is_rune_def byte_def tail_byte_def)

lemma rune_facts: "is_rune u \<Longrightarrow> valid_utf8 u \<and> rune_count u = 1"
  using runes_rune [of u "[]"] by (simp add: valid_utf8_def rune_count_def)

lemma degree_facts [simp]: "valid_utf8 degree_celsius" "rune_count degree_celsius = 2"
  using rune_facts [OF special_runes(1)]
  by (simp_all add: degree_celsius_def byte_def del: special_runes list.map)

lemma rune_count_ascii [simp]: "byte c < 128 \<Longrightarrow> rune_count (c # s) = Suc (rune_count s)"
  by (simp add: rune_count_def)

lemma rune_count_join:
  "ps \<noteq> [] \<Longrightarrow> list_all valid_utf8 ps \<Longrightarrow>
     rune_count (str_join '' '' ps) = sum_list (map rune_count ps) + (length ps - 1)"
  by (induction ps rule: induct_list012) (simp_all add: byte_def)

text \<open>A cut between two runes, and a cut inside one.\<close>

lemma valid_before:
  "valid_utf8 (s @ c # t) \<Longrightarrow> \<not> tail_byte (byte c) \<Longrightarrow> valid_utf8 s"
proof (induction s rule: runes.induct)
  case (1 s)
  show ?case
  proof (cases "s = []")
    case False
    let ?all = "s @ c # t"
    let ?n = "max 1 (rune_len ?all)"
    have r: "runes ?all = take ?n ?all # runes (drop ?n ?all)" by (subst runes.simps) simp
    then have u: "is_rune (take ?n ?all)" and v: "valid_utf8 (drop ?n ?all)" using 1(2) by (simp_all add: valid_utf8_def)
    have "?n \<le> length s"
    proof (rule ccontr)
      assume "\<not> ?thesis"
      then obtain w where "take ?n ?all = s @ c # w" by (cases "?n - length s") auto
      then show False using u 1(3) False by (auto elim!: is_rune_cases simp: append_eq_Cons_conv)
    qed
    then have n: "take ?n ?all = take ?n s" "drop ?n ?all = drop ?n s @ c # t" by simp_all
    have "rune_len (take ?n s @ drop ?n s) = length (take ?n s)" using u unfolding n by (rule rune_len_rune)
    then have "rune_len s = ?n" using \<open>?n \<le> length s\<close> by simp
    then show ?thesis
      using 1(1) [OF False] v u 1(3) runes.simps [of s] False unfolding n by (simp add: valid_utf8_def)
  qed (simp add: valid_utf8_def)
qed

lemma truncated_facts:
  assumes "valid_utf8 s" "22 < length s \<longrightarrow> valid_utf8 (take 21 s)"
  shows "valid_utf8 (the (truncate_name s 22)) \<and> rune_count (the (truncate_name s 22)) \<le> 22"
proof (cases "length s \<le> 22")
  case True
  then show ?thesis using assms(1) rune_count_le [of s] by (simp add: truncate_name_def)
next
  case False
  have "rune_count (take 21 s) \<le> 21" using rune_count_le [of "take 21 s"] by simp
  then show ?thesis
    using False assms(2) rune_facts [OF special_runes(2)] by (simp add: truncate_name_def del: special_runes list.map)
qed

text \<open>The numbers for which the columns are wide enough.\<close>

definition numbers_fit :: "metrics \<Rightarrow> bool" where
  "numbers_fit m \<longleftrightarrow> unat (GPUUtilization m) < 10 ^ 5 \<and> unat (MemoryUtilization m) < 10 ^ 5 \<and>
     unat (MemoryUsedMiB m) < 10 ^ 7 \<and> unat (MemoryTotalMiB m) < 10 ^ 7 \<and>
     unat (TemperatureCelsius m) < 10 ^ 4 \<and> unat (PowerDrawWatts m) < 10 ^ 4 \<and>
     unat (PCIeTxKBps m) < 10 ^ 7 \<and> unat (PCIeRxKBps m) < 10 ^ 7 \<and>
     unat (NVLinkTxMBps m) < 10 ^ 7 \<and> unat (NVLinkRxMBps m) < 10 ^ 7"

lemma header_widths: "map rune_count header_cells = [5, 22, 6, 6, 10, 10, 6, 6, 10, 10, 10, 10]"
  by (simp add: header_cells_def byte_def)

section \<open>Properties\<close>

text \<open>
  Where the columns of the table stand.  Of a snapshot whose name is valid UTF-8 and is not cut
  inside a character, with numbers the columns have room for, the cells are as wide as the cells of the
  header except for the power, which is one narrower, the four rates, which are one wider, and the label
  of a MIG instance of a known GPU, which is never narrower than ten where the header has five.\<close>

theorem table_columns:
  assumes "numbers_fit m" "valid_utf8 (Name_gpu m)" "22 < length (Name_gpu m) \<longrightarrow> valid_utf8 (take 21 (Name_gpu m))"
  shows "map rune_count header_cells = [5, 22, 6, 6, 10, 10, 6, 6, 10, 10, 10, 10] \<and>
    map rune_count (row_cells m) = [max 5 (rune_count (tableGPULabel m)), 22, 6, 6, 10, 10, 6, 5, 11, 11, 11, 11] \<and>
    (IsMIGInstance m \<and> 0 \<le> ParentIndex m \<longrightarrow> 10 \<le> rune_count (tableGPULabel m))"
proof -
  have "1 \<le> length (itoa i)" for i by (simp add: itoa_def Suc_le_eq)
  from add_mono [OF this this] have "IsMIGInstance m \<and> 0 \<le> ParentIndex m \<longrightarrow> 10 \<le> rune_count (tableGPULabel m)"
    by (auto simp: tableGPULabel_def byte_def numeral_2_eq_2)
  moreover have "map rune_count (row_cells m) = [max 5 (rune_count (tableGPULabel m)), 22, 6, 6, 10, 10, 6, 5, 11, 11, 11, 11]"
    using assms(1) truncated_facts [OF assms(2,3)] by (simp add: row_cells_def numbers_fit_def word_width byte_def)
  ultimately show ?thesis using header_widths by blast
qed

lemma table_columns_witness:
  "map rune_count (row_cells (zero_metrics\<lparr>IsMIGInstance := True\<rparr>)) = [10, 22, 6, 6, 10, 10, 6, 5, 11, 11, 11, 11]"
proof -
  let ?m = "zero_metrics\<lparr>IsMIGInstance := True\<rparr>"
  have "tableGPULabel ?m = ''gpu0/inst0''"
    by code_simp
  then show ?thesis
    using table_columns [of ?m] by (simp add: numbers_fit_def zero_metrics_def byte_def)
qed

text \<open>
  Truncation cuts characters.  A valid name longer than 22 bytes whose 21st byte does not end a
  character is printed as invalid UTF-8; a name cut between two characters stays valid.\<close>

theorem truncation_cuts_runes:
  assumes "22 < length s" "truncate_name s 22 = Some t"
  shows "valid_utf8 t \<longleftrightarrow> valid_utf8 (take 21 s)"
proof -
  have t: "t = take 21 s @ map char_of [226, 128, 166 :: nat]" using assms by (simp add: truncate_name_def)
  have "valid_utf8 (map char_of [226, 128, 166 :: nat])" using rune_facts [OF special_runes(2)] by blast
  moreover have "\<not> tail_byte (byte (char_of (226 :: nat)))" by (simp add: tail_byte_def byte_def)
  ultimately show ?thesis
    unfolding t using valid_before [of "take 21 s" "char_of (226 :: nat)" "map char_of [128, 166 :: nat]"] by auto
qed

lemma truncation_cuts_runes_witness:
  "\<exists>t. truncate_name (''AAAAAAAAAAAAAAAAAAAA'' @ map char_of [195, 169 :: nat] @ ''100'') 22 = Some t \<and> \<not> valid_utf8 t"
proof -
  let ?s = "''AAAAAAAAAAAAAAAAAAAA'' @ map char_of [195, 169 :: nat] @ ''100''"
  obtain t where "truncate_name ?s 22 = Some t" using truncate_22 by blast
  moreover have "\<not> valid_utf8 (take 21 ?s)"
    by (simp add: valid_utf8_def byte_def runes.simps [of "[_]"] rune_len_def)
  ultimately show ?thesis using truncation_cuts_runes [of ?s t] by auto
qed

end
