(* ===== verification/JsonOutput.thy ===== *)
theory JsonOutput
  imports GoUtf8 HpcEnv Gpu
begin

text \<open>
  The JSON output of \<open>cmd/gpu-metrics\<close>: what \<open>encoding/json\<close> writes for the structures of the
  program, with the indentation of the encoder, and a reader of JSON as its specification.
\<close>

section \<open>Values and their text\<close>

datatype 'a json =
    JNull
  | JBool bool
  | JNum int
  | JStr 'a
  | JArr "'a json list"
  | JObj "('a \<times> 'a json) list"

definition hex_digit :: "nat \<Rightarrow> char" where
  "hex_digit n = ''0123456789abcdef'' ! n"

definition byte_escape :: "char \<Rightarrow> string" where
  "byte_escape c = CHR 0x5C # ''u00'' @ [hex_digit (byte c div 16), hex_digit (byte c mod 16)]"

text \<open>
  One rune of a string, or one byte that belongs to none.  The encoder escapes what HTML gives a
  meaning to, and the two line separators of JavaScript.
\<close>

definition json_escape :: "string \<Rightarrow> string" where
  "json_escape u =
     (if \<not> is_rune u then CHR 0x5C # ''ufffd''
      else case u of
        [c] \<Rightarrow>
          if c = CHR 0x5C \<or> c = CHR 0x22 then [CHR 0x5C, c]
          else if c = CHR 0x08 then CHR 0x5C # ''b''
          else if c = CHR 0x0C then CHR 0x5C # ''f''
          else if c = CHR 0x0A then CHR 0x5C # ''n''
          else if c = CHR 0x0D then CHR 0x5C # ''r''
          else if c = CHR 0x09 then CHR 0x5C # ''t''
          else if byte c < 32 \<or> c = CHR ''<'' \<or> c = CHR ''>'' \<or> c = CHR ''&'' then byte_escape c
          else [c]
      | _ \<Rightarrow>
          if u = map char_of [226, 128, 168 :: nat] then CHR 0x5C # ''u2028''
          else if u = map char_of [226, 128, 169 :: nat] then CHR 0x5C # ''u2029''
          else u)"

definition json_string :: "string \<Rightarrow> string" where
  "json_string s = CHR 0x22 # concat (map json_escape (runes s)) @ [CHR 0x22]"

definition indent :: "nat \<Rightarrow> string" where
  "indent d = CHR 0x0A # replicate (2 * d) (CHR '' '')"

fun json_text :: "nat \<Rightarrow> string json \<Rightarrow> string"
  and json_elements :: "nat \<Rightarrow> string json list \<Rightarrow> string"
  and json_members :: "nat \<Rightarrow> (string \<times> string json) list \<Rightarrow> string" where
  "json_text d JNull = ''null''"
| "json_text d (JBool b) = (if b then ''true'' else ''false'')"
| "json_text d (JNum i) = itoa i"
| "json_text d (JStr s) = json_string s"
| "json_text d (JArr []) = ''[]''"
| "json_text d (JArr (v # vs)) =
     ''['' @ indent (Suc d) @ json_text (Suc d) v @ json_elements (Suc d) vs @ indent d @ '']''"
| "json_text d (JObj []) = ''{}''"
| "json_text d (JObj ((k, v) # ms)) =
     ''{'' @ indent (Suc d) @ json_string k @ '': '' @ json_text (Suc d) v @ json_members (Suc d) ms @ indent d @ ''}''"
| "json_elements d [] = []"
| "json_elements d (v # vs) = '','' @ indent d @ json_text d v @ json_elements d vs"
| "json_members d [] = []"
| "json_members d ((k, v) # ms) =
     '','' @ indent d @ json_string k @ '': '' @ json_text d v @ json_members d ms"

section \<open>The structures of the program\<close>

definition omit_empty :: "string \<Rightarrow> string \<Rightarrow> (string \<times> string json) list" where
  "omit_empty k v = (if v = [] then [] else [(k, JStr v)])"

definition json_of_context :: "env_context \<Rightarrow> string json" where
  "json_of_context c = JObj (
     [(''orchestrator'', JStr (Orchestrator c))]
     @ omit_empty ''node'' (NodeName c)
     @ omit_empty ''job_id'' (JobID c)
     @ [(''task_rank'', JNum (TaskRank c))]
     @ omit_empty ''pod_name'' (PodName c)
     @ omit_empty ''namespace'' (Namespace c)
     @ omit_empty ''partition'' (Partition c)
     @ omit_empty ''flux_uri'' (FluxURI c))"

definition json_of_metrics :: "metrics \<Rightarrow> string json" where
  "json_of_metrics m = JObj [
     (''Index'', JNum (Index m)), (''UUID'', JStr (UUID m)), (''Name'', JStr (Name_gpu m)),
     (''GPUUtilization'', JNum (uint (GPUUtilization m))), (''MemoryUtilization'', JNum (uint (MemoryUtilization m))),
     (''MemoryUsedMiB'', JNum (uint (MemoryUsedMiB m))), (''MemoryTotalMiB'', JNum (uint (MemoryTotalMiB m))),
     (''TemperatureCelsius'', JNum (uint (TemperatureCelsius m))), (''PowerDrawWatts'', JNum (uint (PowerDrawWatts m))),
     (''PowerLimitWatts'', JNum (uint (PowerLimitWatts m))), (''PCIeTxKBps'', JNum (uint (PCIeTxKBps m))),
     (''PCIeRxKBps'', JNum (uint (PCIeRxKBps m))), (''NVLinkTxMBps'', JNum (uint (NVLinkTxMBps m))),
     (''NVLinkRxMBps'', JNum (uint (NVLinkRxMBps m))), (''IsMIGInstance'', JBool (IsMIGInstance m)),
     (''ParentIndex'', JNum (ParentIndex m)), (''MigProfile'', JStr (MigProfile m))]"

record json_output =
  environment_json :: env_context
  driver_version_json :: string
  collected_at_json :: string
  devices_json :: "metrics list"

text \<open>
  The only empty list of snapshots a collection returns is the nil slice of \<open>CollectAll\<close>,
  which is written \<open>null\<close>.
\<close>

definition json_of_output :: "json_output \<Rightarrow> string json" where
  "json_of_output j = JObj (
     [(''environment'', json_of_context (environment_json j))]
     @ omit_empty ''driver_version'' (driver_version_json j)
     @ [(''collected_at'', JStr (collected_at_json j)),
        (''devices'', if devices_json j = [] then JNull else JArr (map json_of_metrics (devices_json j)))])"

definition outputJSON :: "string \<Rightarrow> metrics list \<Rightarrow> env_context \<Rightarrow> string \<Rightarrow> string" where
  "outputJSON now ms ctx driver =
     json_text 0 (json_of_output \<lparr>environment_json = ctx, driver_version_json = driver,
       collected_at_json = now, devices_json = ms\<rparr>) @ [CHR 0x0A]"

section \<open>A reader\<close>

text \<open>Inside a string: up to the closing quote.\<close>

definition utf8_of_code :: "nat \<Rightarrow> string" where
  "utf8_of_code n = map char_of
     (if n < 128 then [n]
      else if n < 2048 then [192 + n div 64, 128 + n mod 64]
      else [224 + n div 4096, 128 + n div 64 mod 64, 128 + n mod 64])"

definition hex_number :: "string \<Rightarrow> nat" where
  "hex_number = foldl (\<lambda>n c. 16 * n + (if is_digit c then byte c - 48 else byte c - 87)) 0"

definition unescape :: "char \<Rightarrow> char" where
  "unescape e = (if e = CHR ''b'' then CHR 0x08 else if e = CHR ''f'' then CHR 0x0C
     else if e = CHR ''n'' then CHR 0x0A else if e = CHR ''r'' then CHR 0x0D
     else if e = CHR ''t'' then CHR 0x09 else e)"

fun read_text :: "string \<Rightarrow> string \<times> string" where
  "read_text [] = ([], [])"
| "read_text (c # s) =
     (if c = CHR 0x22 then ([], s)
      else if c = CHR 0x5C then
        (case s of [] \<Rightarrow> ([], [])
         | e # s' \<Rightarrow>
             if e = CHR ''u'' then apfst ((@) (utf8_of_code (hex_number (take 4 s')))) (read_text (drop 4 s'))
             else apfst ((#) (unescape e)) (read_text s'))
      else apfst ((#) c) (read_text s))"

lemma read_text_shorter: "length (snd (read_text s)) \<le> length s"
proof (induction s rule: read_text.induct)
  case (2 c s)
  consider "c = CHR 0x22" | "c = CHR 0x5C" "s = []" | e s' where "c = CHR 0x5C" "s = e # s'" | "c \<noteq> CHR 0x22" "c \<noteq> CHR 0x5C"
    by (cases s) blast+
  then show ?case
  proof cases
    case 3
    then show ?thesis using 2(1) [OF _ _ 3(2)] 2(2) [OF _ _ 3(2)] by (cases "e = CHR ''u''") (fastforce simp del: drop_Suc_Cons)+
  next
    case 4
    then show ?thesis using 2(3) by simp
  qed simp_all
qed simp

datatype token = TPunct char | TText string | TWord string

definition word_char :: "char \<Rightarrow> bool" where
  "word_char c \<longleftrightarrow> is_digit c \<or> is_alpha c \<or> c = CHR ''-'' \<or> c = CHR ''+'' \<or> c = CHR ''.''"

function json_lex :: "string \<Rightarrow> token list" where
  "json_lex [] = []"
| "json_lex (c # s) =
     (if c = CHR '' '' \<or> c = CHR 0x0A \<or> c = CHR 0x0D \<or> c = CHR 0x09 then json_lex s
      else if c = CHR 0x22 then TText (fst (read_text s)) # json_lex (snd (read_text s))
      else if word_char c then TWord (c # takeWhile word_char s) # json_lex (dropWhile word_char s)
      else TPunct c # json_lex s)"
  by pat_completeness auto
termination
  by (relation "measure length")
    (auto simp: less_Suc_eq_le read_text_shorter length_dropWhile_le)

text \<open>Tokens are read with a stack of the containers that are open.  Colons and commas carry nothing.\<close>

datatype frame = InArr "string json list" | InObj "(string \<times> string json) list" "string option"

type_synonym reader = "frame list \<times> string json option"

definition put_json :: "string json \<Rightarrow> reader \<Rightarrow> reader" where
  "put_json v st = (case st of
     ([], r) \<Rightarrow> ([], Some v)
   | (InArr vs # fs, r) \<Rightarrow> (InArr (vs @ [v]) # fs, r)
   | (InObj ms None # fs, r) \<Rightarrow> st
   | (InObj ms (Some k) # fs, r) \<Rightarrow> (InObj (ms @ [(k, v)]) None # fs, r))"

definition word_json :: "string \<Rightarrow> string json" where
  "word_json w =
     (if w = ''null'' then JNull
      else if w = ''true'' then JBool True
      else if w = ''false'' then JBool False
      else case w of
        c # ds \<Rightarrow> JNum (if c = CHR ''-'' then - int (dec_val 0 ds) else int (dec_val 0 w))
      | [] \<Rightarrow> JNull)"

definition read_token :: "token \<Rightarrow> reader \<Rightarrow> reader" where
  "read_token t st = (case t of
     TPunct c \<Rightarrow>
       if c = CHR ''{'' then apfst ((#) (InObj [] None)) st
       else if c = CHR ''['' then apfst ((#) (InArr [])) st
       else (case st of
           (InArr vs # fs, r) \<Rightarrow> if c = CHR '']'' then put_json (JArr vs) (fs, r) else st
         | (InObj ms k # fs, r) \<Rightarrow> if c = CHR ''}'' then put_json (JObj ms) (fs, r) else st
         | ([], r) \<Rightarrow> st)
   | TText s \<Rightarrow> (case st of
       (InObj ms None # fs, r) \<Rightarrow> (InObj ms (Some s) # fs, r)
     | _ \<Rightarrow> put_json (JStr s) st)
   | TWord w \<Rightarrow> put_json (word_json w) st)"

definition read_tokens :: "string \<Rightarrow> reader \<Rightarrow> reader" where
  "read_tokens s = fold read_token (json_lex s)"

definition read_json :: "string \<Rightarrow> string json option" where
  "read_json s = snd (read_tokens s ([], None))"

section \<open>Reading strings back\<close>

lemma hex_number_digits:
  "n < 256 \<Longrightarrow> hex_number [CHR ''0'', CHR ''0'', hex_digit (n div 16), hex_digit (n mod 16)] = n"
proof -
  have d: "(if is_digit (hex_digit k) then byte (hex_digit k) - 48 else byte (hex_digit k) - 87) = k" if "k < 16" for k :: nat
  proof -
    have "\<forall>k \<in> {0..<16 :: nat}. (if is_digit (hex_digit k) then byte (hex_digit k) - 48 else byte (hex_digit k) - 87) = k"
      by code_simp
    then show ?thesis using that by simp
  qed
  assume "n < 256"
  then have "n div 16 < 16" by simp
  then show ?thesis using d [of "n div 16"] d [of "n mod 16"] by (simp add: hex_number_def is_digit_def byte_def)
qed

lemma read_byte_escape: "byte c < 128 \<Longrightarrow> read_text (byte_escape c @ r) = apfst ((#) c) (read_text r)"
  using hex_number_digits [of "byte c"]
  by (simp add: byte_escape_def utf8_of_code_def) (simp add: byte_def)

lemma read_plain_bytes:
  "list_all (\<lambda>c. c \<noteq> CHR 0x22 \<and> c \<noteq> CHR 0x5C) u \<Longrightarrow> read_text (u @ r) = apfst ((@) u) (read_text r)"
  by (induction u) (simp_all add: apfst_def map_prod_def case_prod_beta)

lemma high_bytes_plain: "list_all (\<lambda>c. 128 \<le> byte c) u \<Longrightarrow> list_all (\<lambda>c. c \<noteq> CHR 0x22 \<and> c \<noteq> CHR 0x5C) u"
  by (auto simp: list_all_iff byte_def)

lemma read_u_escape:
  "length h = 4 \<Longrightarrow> read_text (CHR 0x5C # CHR ''u'' # h @ r) = apfst ((@) (utf8_of_code (hex_number h))) (read_text r)"
  by simp

lemma special_codes:
  "utf8_of_code (hex_number ''fffd'') = replacement"
  "utf8_of_code (hex_number ''2028'') = map char_of [226, 128, 168 :: nat]"
  "utf8_of_code (hex_number ''2029'') = map char_of [226, 128, 169 :: nat]"
  by code_simp+

lemma read_one_byte:
  assumes "byte c < 128"
  shows "read_text (json_escape [c] @ r) = apfst ((#) c) (read_text r)"
proof -
  consider "c = CHR 0x5C \<or> c = CHR 0x22" | "c \<in> {CHR 0x08, CHR 0x0C, CHR 0x0A, CHR 0x0D, CHR 0x09}"
    | "json_escape [c] = byte_escape c" | "c \<noteq> CHR 0x5C" "c \<noteq> CHR 0x22" "json_escape [c] = [c]"
  proof -
    have "c = CHR 0x5C \<or> c = CHR 0x22 \<or> c \<in> {CHR 0x08, CHR 0x0C, CHR 0x0A, CHR 0x0D, CHR 0x09} \<or>
        json_escape [c] = byte_escape c \<or> c \<noteq> CHR 0x5C \<and> c \<noteq> CHR 0x22 \<and> json_escape [c] = [c]"
      using assms unfolding json_escape_def by (simp split: if_split)
    then show ?thesis using that by blast
  qed
  then show ?thesis
  proof cases
    case 1
    then show ?thesis by (elim disjE) (simp_all add: json_escape_def byte_def unescape_def)
  next
    case 2
    then show ?thesis by (elim insertE emptyE) (simp_all add: json_escape_def byte_def unescape_def)
  next
    case 3
    then show ?thesis using read_byte_escape [OF assms] by simp
  qed simp
qed

lemma read_json_escape:
  "read_text (json_escape u @ r) = apfst ((@) (if is_rune u then u else replacement)) (read_text r)"
proof (cases "is_rune u")
  case False
  then show ?thesis using read_u_escape [of "''fffd''" r] by (simp add: json_escape_def special_codes)
next
  case True
  show ?thesis
  proof (cases "\<exists>c. u = [c]")
    case True
    then obtain c where "u = [c]" "byte c < 128" using \<open>is_rune u\<close> by auto
    then show ?thesis using read_one_byte [of c r] by (simp add: apfst_def map_prod_def case_prod_beta)
  next
    case False
    then have e: "json_escape u = (if u = map char_of [226, 128, 168 :: nat] then CHR 0x5C # ''u2028''
        else if u = map char_of [226, 128, 169 :: nat] then CHR 0x5C # ''u2029'' else u)"
      using True by (auto simp: json_escape_def split: list.splits)
    have "list_all (\<lambda>c. 128 \<le> byte c) u"
      using True False by (auto elim!: is_rune_cases simp: tail_byte_def)
    then show ?thesis
      using True read_u_escape [of "''2028''" r] read_u_escape [of "''2029''" r] read_plain_bytes [OF high_bytes_plain, of u r]
      unfolding e by (auto simp: special_codes)
  qed
qed

lemma read_escaped_runes:
  "read_text (concat (map json_escape us) @ CHR 0x22 # r) = (concat (map (\<lambda>u. if is_rune u then u else replacement) us), r)"
  by (induction us) (simp_all add: read_json_escape)

lemma lex_string: "json_lex (json_string s @ r) = TText (utf8_clean s) # json_lex r"
  by (simp add: json_string_def read_escaped_runes utf8_clean_def)

section \<open>Reading values back\<close>

definition delimited :: "string \<Rightarrow> bool" where
  "delimited r \<longleftrightarrow> (case r of [] \<Rightarrow> True | c # _ \<Rightarrow> \<not> word_char c)"

lemma word_char_visible: "word_char c \<Longrightarrow> 32 < byte c \<and> byte c \<noteq> 34"
  by (auto simp: word_char_def is_digit_def is_alpha_def byte_def)

lemma lex_word:
  assumes "w \<noteq> []" "list_all word_char w" "delimited r"
  shows "json_lex (w @ r) = TWord w # json_lex r"
proof -
  obtain c ws where w: "w = c # ws" using assms(1) by (cases w) auto
  have "takeWhile word_char r = []" "dropWhile word_char r = r"
    using assms(3) by (auto simp: delimited_def split: list.splits)
  moreover have "takeWhile word_char (ws @ r) = ws @ takeWhile word_char r" "dropWhile word_char (ws @ r) = dropWhile word_char r"
    using assms(2) w by (simp_all add: list_all_iff takeWhile_append2 dropWhile_append2)
  moreover have "word_char c" "32 < byte c \<and> byte c \<noteq> 34" using assms(2) w word_char_visible by auto
  ultimately show ?thesis by (auto simp: w byte_def)
qed

lemma lex_blanks: "json_lex (replicate n (CHR '' '') @ r) = json_lex r"
  by (induction n) simp_all

lemma lex_indent [simp]: "json_lex (indent d @ r) = json_lex r"
  by (simp add: indent_def lex_blanks)

lemma punct_not_word [simp]:
  "\<not> word_char (CHR ''['')" "\<not> word_char (CHR '']'')" "\<not> word_char (CHR ''{'')" "\<not> word_char (CHR ''}'')"
  "\<not> word_char (CHR '','')" "\<not> word_char (CHR '':'')" "\<not> word_char (CHR 0x0A)"
  by (simp_all add: word_char_def is_digit_def is_alpha_def byte_def)

lemma delimited_simps [simp]:
  "delimited []" "delimited (c # r) \<longleftrightarrow> \<not> word_char c" "delimited (indent d @ r)"
  by (simp_all add: delimited_def indent_def)

lemma itoa_word: "itoa i \<noteq> []" "list_all word_char (itoa i)" "word_json (itoa i) = JNum i"
proof -
  have d: "list_all word_char (format_uint n)" for n
    using format_uint_digits [of n] by (auto simp: word_char_def list_all_iff)
  then show "itoa i \<noteq> []" "list_all word_char (itoa i)" by (simp_all add: itoa_def word_char_def)
  have h: "is_digit (hd (format_uint n))" for n by (rule format_uint_hd)
  show "word_json (itoa i) = JNum i"
  proof (cases "i < 0")
    case False
    obtain c ds where w: "format_uint (nat i) = c # ds" using format_uint_nonempty [of "nat i"] by (cases "format_uint (nat i)") auto
    then have "is_digit c" using h [of "nat i"] by simp
    then have "c \<notin> {CHR ''n'', CHR ''t'', CHR ''f'', CHR ''-''}" by (auto simp: is_digit_def byte_def)
    then show ?thesis using False w dec_val_format_uint [of "nat i"] by (simp add: itoa_def word_json_def)
  qed (simp add: itoa_def word_json_def)
qed

lemma read_tokens_simps [simp]:
  "read_tokens [] st = st"
  "read_tokens (CHR '' '' # r) st = read_tokens r st"
  "read_tokens (CHR 0x0A # r) st = read_tokens r st"
  "read_tokens (CHR ''['' # r) st = read_tokens r (apfst ((#) (InArr [])) st)"
  "read_tokens (CHR ''{'' # r) st = read_tokens r (apfst ((#) (InObj [] None)) st)"
  "read_tokens (CHR '']'' # r) (InArr vs # fs, x) = read_tokens r (put_json (JArr vs) (fs, x))"
  "read_tokens (CHR ''}'' # r) (InObj ms k # fs, x) = read_tokens r (put_json (JObj ms) (fs, x))"
  "read_tokens (CHR '','' # r) (f # fs, x) = read_tokens r (f # fs, x)"
  "read_tokens (CHR '':'' # r) (f # fs, x) = read_tokens r (f # fs, x)"
  "read_tokens (indent d @ r) st = read_tokens r st"
  by (simp_all add: read_tokens_def read_token_def split: frame.split)

lemma read_tokens_word:
  "w \<noteq> [] \<Longrightarrow> list_all word_char w \<Longrightarrow> delimited r \<Longrightarrow> read_tokens (w @ r) st = read_tokens r (put_json (word_json w) st)"
  by (simp add: read_tokens_def lex_word read_token_def)

lemma literals_word:
  "list_all word_char ''null''" "list_all word_char ''true''" "list_all word_char ''false''"
  by (simp_all add: word_char_def is_alpha_def byte_def)

text \<open>A value is expected.\<close>

definition expects_value :: "frame list \<Rightarrow> bool" where
  "expects_value fs \<longleftrightarrow> (case fs of InObj ms None # _ \<Rightarrow> False | _ \<Rightarrow> True)"

lemma expects_simps [simp]: "expects_value []" "expects_value (InArr vs # fs)" "expects_value (InObj ms (Some k) # fs)"
  by (simp_all add: expects_value_def)

lemma read_tokens_string:
  "expects_value fs \<Longrightarrow> read_tokens (json_string s @ r) (fs, x) = read_tokens r (put_json (JStr (utf8_clean s)) (fs, x))"
  "read_tokens (json_string s @ r) (InObj ms None # fs, x) = read_tokens r (InObj ms (Some (utf8_clean s)) # fs, x)"
  by (auto simp: read_tokens_def lex_string read_token_def expects_value_def split: list.splits frame.splits option.splits)

abbreviation clean_member :: "string \<times> string json \<Rightarrow> string \<times> string json" where
  "clean_member \<equiv> map_prod utf8_clean (map_json utf8_clean)"

lemma delimited_rest [simp]:
  "delimited r \<Longrightarrow> delimited (json_elements d vs @ r)"
  "delimited r \<Longrightarrow> delimited (json_members d ms @ r)"
  by (cases vs, simp_all) (cases ms, auto)

lemma read_json_text:
  "expects_value fs \<Longrightarrow> delimited r \<Longrightarrow>
     read_tokens (json_text d v @ r) (fs, x) = read_tokens r (put_json (map_json utf8_clean v) (fs, x))"
  "delimited r \<Longrightarrow>
     read_tokens (json_elements d vs @ r) (InArr ws # fs, x) = read_tokens r (InArr (ws @ map (map_json utf8_clean) vs) # fs, x)"
  "delimited r \<Longrightarrow>
     read_tokens (json_members d ms @ r) (InObj ns None # fs, x) = read_tokens r (InObj (ns @ map clean_member ms) None # fs, x)"
proof (induction d v and d vs and d ms arbitrary: fs r x and fs r x ws and fs r x ns
    rule: json_text_json_elements_json_members.induct)
  case (1 d)
  then show ?case using read_tokens_word [OF _ literals_word(1)] by (simp add: word_json_def)
next
  case (2 d b)
  then show ?case using read_tokens_word [OF _ literals_word(2)] read_tokens_word [OF _ literals_word(3)]
    by (simp add: word_json_def)
next
  case (3 d i)
  then show ?case using read_tokens_word [OF itoa_word(1,2)] by (simp add: itoa_word)
next
  case (4 d s)
  then show ?case by (simp add: read_tokens_string)
next
  case (10 d v vs)
  then show ?case by (simp add: put_json_def)
next
  case (12 d k v ms)
  then show ?case by (simp add: put_json_def read_tokens_string)
qed (simp_all add: put_json_def read_tokens_string)

lemma read_whole_text: "read_json (json_text 0 v @ [CHR 0x0A]) = Some (map_json utf8_clean v)"
  using read_json_text(1) [of "[]" "[CHR 0x0A]" 0 v None] by (simp add: read_json_def put_json_def)

section \<open>The structures read back\<close>

fun members :: "string json \<Rightarrow> (string \<times> string json) list" where
  "members (JObj ms) = ms"
| "members _ = []"

definition text_at :: "string \<Rightarrow> (string \<times> string json) list \<Rightarrow> string" where
  "text_at k ms = (case map_of ms k of Some (JStr s) \<Rightarrow> s | _ \<Rightarrow> [])"

definition number_at :: "string \<Rightarrow> (string \<times> string json) list \<Rightarrow> int" where
  "number_at k ms = (case map_of ms k of Some (JNum i) \<Rightarrow> i | _ \<Rightarrow> 0)"

definition context_of_json :: "string json \<Rightarrow> env_context" where
  "context_of_json j = (let ms = members j in \<lparr>Orchestrator = text_at ''orchestrator'' ms,
     NodeName = text_at ''node'' ms, JobID = text_at ''job_id'' ms, TaskRank = number_at ''task_rank'' ms,
     PodName = text_at ''pod_name'' ms, Namespace = text_at ''namespace'' ms, Partition = text_at ''partition'' ms,
     FluxURI = text_at ''flux_uri'' ms, visibleDevices = [], migUUIDs = []\<rparr>)"

definition metrics_of_json :: "string json \<Rightarrow> metrics" where
  "metrics_of_json j = (let ms = members j; num = (\<lambda>k. number_at k ms) in \<lparr>Index = num ''Index'',
     UUID = text_at ''UUID'' ms, Name_gpu = text_at ''Name'' ms,
     GPUUtilization = of_int (num ''GPUUtilization''), MemoryUtilization = of_int (num ''MemoryUtilization''),
     MemoryUsedMiB = of_int (num ''MemoryUsedMiB''), MemoryTotalMiB = of_int (num ''MemoryTotalMiB''),
     TemperatureCelsius = of_int (num ''TemperatureCelsius''), PowerDrawWatts = of_int (num ''PowerDrawWatts''),
     PowerLimitWatts = of_int (num ''PowerLimitWatts''), PCIeTxKBps = of_int (num ''PCIeTxKBps''),
     PCIeRxKBps = of_int (num ''PCIeRxKBps''), NVLinkTxMBps = of_int (num ''NVLinkTxMBps''),
     NVLinkRxMBps = of_int (num ''NVLinkRxMBps''), IsMIGInstance = (map_of ms ''IsMIGInstance'' = Some (JBool True)),
     ParentIndex = num ''ParentIndex'', MigProfile = text_at ''MigProfile'' ms\<rparr>)"

definition output_of_json :: "string json \<Rightarrow> json_output" where
  "output_of_json j = (let ms = members j in
     \<lparr>environment_json = (case map_of ms ''environment'' of Some e \<Rightarrow> context_of_json e | None \<Rightarrow> zero_context),
      driver_version_json = text_at ''driver_version'' ms, collected_at_json = text_at ''collected_at'' ms,
      devices_json = (case map_of ms ''devices'' of Some (JArr ds) \<Rightarrow> map metrics_of_json ds | _ \<Rightarrow> [])\<rparr>)"

text \<open>What survives the output: text is made valid UTF-8, and the assigned GPUs are not serialised.\<close>

definition clean_metrics :: "metrics \<Rightarrow> metrics" where
  "clean_metrics m = m\<lparr>UUID := utf8_clean (UUID m), Name_gpu := utf8_clean (Name_gpu m),
     MigProfile := utf8_clean (MigProfile m)\<rparr>"

definition clean_context :: "env_context \<Rightarrow> env_context" where
  "clean_context c = \<lparr>Orchestrator = utf8_clean (Orchestrator c), NodeName = utf8_clean (NodeName c),
     JobID = utf8_clean (JobID c), TaskRank = TaskRank c, PodName = utf8_clean (PodName c),
     Namespace = utf8_clean (Namespace c), Partition = utf8_clean (Partition c),
     FluxURI = utf8_clean (FluxURI c), visibleDevices = [], migUUIDs = []\<rparr>"

lemma clean_ascii [simp]: "ascii s \<Longrightarrow> utf8_clean s = s" by simp

lemma clean_Nil [simp]: "utf8_clean [] = []"
  by (simp add: utf8_clean_def)

lemma at_simps [simp]:
  "text_at k [] = []"
  "text_at k ((k', v) # ms) = (if k = k' then (case v of JStr s \<Rightarrow> s | _ \<Rightarrow> []) else text_at k ms)"
  "number_at k ((k', v) # ms) = (if k = k' then (case v of JNum i \<Rightarrow> i | _ \<Rightarrow> 0) else number_at k ms)"
  by (simp_all add: text_at_def number_at_def)

lemma at_omitted [simp]:
  "text_at k (map clean_member (omit_empty k' v) @ ms) = (if k = utf8_clean k' \<and> v \<noteq> [] then utf8_clean v else text_at k ms)"
  "number_at k (map clean_member (omit_empty k' v) @ ms) = (if k = utf8_clean k' \<and> v \<noteq> [] then 0 else number_at k ms)"
  "map_of (map clean_member (omit_empty k' v) @ ms) k = (if k = utf8_clean k' \<and> v \<noteq> [] then Some (JStr (utf8_clean v)) else map_of ms k)"
  by (auto simp: omit_empty_def text_at_def number_at_def)

lemma metrics_json_back: "metrics_of_json (map_json utf8_clean (json_of_metrics m)) = clean_metrics m"
  by (simp add: metrics_of_json_def json_of_metrics_def clean_metrics_def Let_def ascii_def byte_def)

lemma context_json_back: "context_of_json (map_json utf8_clean (json_of_context c)) = clean_context c"
  using at_omitted(1) [of _ _ _ "[]"]
  by (simp add: context_of_json_def json_of_context_def clean_context_def Let_def ascii_def byte_def)

section \<open>Properties\<close>

text \<open>C30
  The JSON output can be read back.  A reader of JSON, given the text printed for any snapshots,
  environment, driver version and time, returns the value the structures stand for, and from it the
  environment, the driver version, the time and every snapshot in order, with all numbers exact, except
  that bytes of a text that are no UTF-8 have become U+FFFD and that the GPUs assigned to the job are
  not printed; a node without snapshots has \<open>null\<close> in place of the list.\<close>

theorem json_reads_back:
  "\<exists>j. read_json (outputJSON now ms ctx driver) = Some j \<and>
     output_of_json j = \<lparr>environment_json = clean_context ctx, driver_version_json = utf8_clean driver,
       collected_at_json = utf8_clean now, devices_json = map clean_metrics ms\<rparr> \<and>
     (map_of (members j) ''devices'' = Some JNull \<longleftrightarrow> ms = [])"
proof -
  let ?o = "\<lparr>environment_json = ctx, driver_version_json = driver, collected_at_json = now, devices_json = ms\<rparr>"
  let ?j = "map_json utf8_clean (json_of_output ?o)"
  have "read_json (outputJSON now ms ctx driver) = Some ?j"
    by (simp add: outputJSON_def read_whole_text)
  moreover have "output_of_json ?j = \<lparr>environment_json = clean_context ctx, driver_version_json = utf8_clean driver,
      collected_at_json = utf8_clean now, devices_json = map clean_metrics ms\<rparr>"
    by (simp add: output_of_json_def json_of_output_def Let_def ascii_def byte_def context_json_back metrics_json_back comp_def
        del: map_of_append)
  moreover have "map_of (members ?j) ''devices'' = Some JNull \<longleftrightarrow> ms = []"
    by (simp add: json_of_output_def ascii_def byte_def del: map_of_append)
  ultimately show ?thesis by blast
qed

end
