(* ===== verification/GpuMetricsCli.thy ===== *)
theory GpuMetricsCli
  imports CsvOutput TableOutput JsonOutput Factory Version
begin

text \<open>
  The command \<open>cmd/gpu-metrics\<close>: which GPUs it reads for a job, how it polls them, the dry run, and
  the choice of the output.  The renderings \<open>%q\<close> and \<open>%s\<close> of a duration are arguments.
\<close>

section \<open>Selection\<close>

datatype collect_error =
    CollectorError gpu_error
  | UUIDError string gpu_error
  | GPUError int gpu_error

text \<open>The loops over the assigned GPUs: the first failure ends them.\<close>

fun collect_each ::
  "('k \<Rightarrow> 's \<Rightarrow> (gpu_error, metrics) result \<times> 's) \<Rightarrow> ('k \<Rightarrow> gpu_error \<Rightarrow> collect_error)
     \<Rightarrow> 'k list \<Rightarrow> metrics list \<Rightarrow> 's \<Rightarrow> (collect_error, metrics list) result \<times> 's" where
  "collect_each call err [] out s = (Inr out, s)"
| "collect_each call err (k # ks) out s = (case call k s of
     (Inl e, s') \<Rightarrow> (Inl (err k e), s')
   | (Inr m, s') \<Rightarrow> collect_each call err ks (out @ [m]) s')"

definition collectByUUIDs ::
  "'s metrics_collector \<Rightarrow> string list \<Rightarrow> 's \<Rightarrow> (collect_error, metrics list) result \<times> 's" where
  "collectByUUIDs C uuids = collect_each (CollectByUUID C) UUIDError uuids []"

definition collectDevices ::
  "'s metrics_collector \<Rightarrow> int list \<Rightarrow> 's \<Rightarrow> (collect_error, metrics list) result \<times> 's" where
  "collectDevices C devs = collect_each (CollectDevice C) GPUError devs []"

definition collect ::
  "'s metrics_collector \<Rightarrow> int \<Rightarrow> env_context \<Rightarrow> 's \<Rightarrow> (collect_error, metrics list) result \<times> 's" where
  "collect C device ctx s =
     (if 0 \<le> device then (case CollectDevice C device s of
         (Inl e, s') \<Rightarrow> (Inl (CollectorError e), s')
       | (Inr m, s') \<Rightarrow> (Inr [m], s'))
      else if migUUIDs ctx \<noteq> [] then collectByUUIDs C (migUUIDs ctx) s
      else if visibleDevices ctx \<noteq> [] then collectDevices C (visibleDevices ctx) s
      else apfst (map_err CollectorError) (CollectAll C s))"

section \<open>The dry run\<close>

definition describeFormat :: "(string \<Rightarrow> string) \<Rightarrow> string \<Rightarrow> string" where
  "describeFormat quoted format =
     (if format = ''table'' \<or> format = ''json'' \<or> format = ''csv'' then format
      else quoted format @ '' (unrecognized '' @ map char_of [226, 128, 148 :: nat] @ '' will fall back to table)'')"

text \<open>\<open>%v\<close> of a list of integers.\<close>

definition show_ints :: "int list \<Rightarrow> string" where
  "show_ints is0 = ''['' @ str_join '' '' (map itoa is0) @ '']''"

definition describeDeviceFilter :: "int \<Rightarrow> int list \<Rightarrow> string" where
  "describeDeviceFilter device visible =
     (if 0 \<le> device then ''device '' @ itoa device @ '' (from --device)''
      else if visible \<noteq> [] then ''scheduler-assigned devices '' @ show_ints visible
      else ''all GPUs'')"

definition describeInterval :: "(int \<Rightarrow> string) \<Rightarrow> int \<Rightarrow> string" where
  "describeInterval show_duration d =
     (if d \<le> 0 then ''one-shot (single collection)'' else ''every '' @ show_duration d @ '' (continuous)'')"

definition optional_line :: "string \<Rightarrow> string \<Rightarrow> string list" where
  "optional_line v line = (if v = [] then [] else [line])"

definition printDryRun ::
  "(string \<Rightarrow> string) \<Rightarrow> (int \<Rightarrow> string) \<Rightarrow> env_context \<Rightarrow> string \<Rightarrow> int \<Rightarrow> int \<Rightarrow> string list" where
  "printDryRun quoted show_duration ctx format device interval =
     [''Dry run: showing the resolved configuration; NVML will not be initialized.'', '''',
      ''Environment   : '' @ Orchestrator ctx]
     @ optional_line (NodeName ctx) (''Node          : '' @ NodeName ctx)
     @ optional_line (JobID ctx) (''Job / Rank    : '' @ JobID ctx @ '' / '' @ itoa (TaskRank ctx))
     @ optional_line (PodName ctx) (''Pod           : '' @ PodName ctx)
     @ optional_line (Namespace ctx) (''Namespace     : '' @ Namespace ctx)
     @ optional_line (Partition ctx) (''Partition     : '' @ Partition ctx)
     @ [''Output format : '' @ describeFormat quoted format,
        ''Device filter : '' @ describeDeviceFilter device (visibleDevices ctx),
        ''Interval      : '' @ describeInterval show_duration interval]"

section \<open>Output and the two modes\<close>

text \<open>What is printed: lines, and for JSON a text that depends on the clock at that moment.\<close>

datatype rendered =
    Json "string \<Rightarrow> string"
  | Csv "string list"
  | Table "string list"

definition output_metrics :: "metrics list \<Rightarrow> string \<Rightarrow> env_context \<Rightarrow> string \<Rightarrow> rendered" where
  "output_metrics ms format ctx driver =
     (if format = ''json'' then Json (\<lambda>now. outputJSON now ms ctx driver)
      else if format = ''csv'' then Csv (outputCSV ms ctx driver)
      else Table (outputTable ms ctx driver))"

text \<open>
  \<open>runContinuous\<close>: after each collection the loop waits for a tick or a signal.  The run
  returns what was printed, failures included, and whether the loop has returned.  A collection that
  hangs is shown as one that fails; \<open>refuses_from\<close> rules it out where that matters.
\<close>

datatype poll_event = PollTick | Signal

definition print_sample ::
  "string \<Rightarrow> env_context \<Rightarrow> string \<Rightarrow> (collect_error, metrics list) result \<Rightarrow> (collect_error, rendered) result" where
  "print_sample format ctx driver r =
     (case r of Inl e \<Rightarrow> Inl e | Inr ms \<Rightarrow> Inr (output_metrics ms format ctx driver))"

fun runContinuous ::
  "'s metrics_collector \<Rightarrow> int \<Rightarrow> env_context \<Rightarrow> string \<Rightarrow> string \<Rightarrow> poll_event list \<Rightarrow> 's
     \<Rightarrow> (collect_error, rendered) result list \<times> bool \<times> 's" where
  "runContinuous C device ctx format driver es s =
     (case collect C device ctx s of (r, s') \<Rightarrow>
       (let sample = print_sample format ctx driver r
        in (case es of
              [] \<Rightarrow> ([sample], False, s')
            | Signal # _ \<Rightarrow> ([sample], True, s')
            | PollTick # rest \<Rightarrow>
                (case runContinuous C device ctx format driver rest s' of
                   (samples, t) \<Rightarrow> (sample # samples, t)))))"

record cli_flags =
  format_flag :: string
  interval_flag :: int
  device_flag :: int
  env_flag :: string
  dryRun_flag :: bool
  showVersion_flag :: bool
  other_args :: "string list"

datatype cli_outcome =
    VersionPrinted string
  | DryRunPrinted "string list"
  | InitError factory_error
  | CollectionError collect_error
  | Printed rendered
  | Polled "(collect_error, rendered) result list" bool

text \<open>
  The status the process exits with, \<open>None\<close> while it runs: \<open>os.Exit(1)\<close> after a failed start, or
  a failed collection that was the only one.  A collection that hangs has not failed: the loop over
  MIG instances goes on for ever.
\<close>

fun exit_status :: "cli_outcome \<Rightarrow> int option" where
  "exit_status (InitError e) = Some 1"
| "exit_status (CollectionError e) = (if e = CollectorError CollectionHangs then None else Some 1)"
| "exit_status (Polled samples ended) = (if ended then Some 0 else None)"
| "exit_status _ = Some 0"

text \<open>
  \<open>main\<close>, with the library's state after the deferred \<open>Close\<close>; it is \<open>None\<close> where that call is not
  made: before the collector exists, while the loop runs, and after \<open>os.Exit\<close>.
\<close>

definition gpu_metrics_main ::
  "build_info \<Rightarrow> (string \<Rightarrow> string) \<Rightarrow> (int \<Rightarrow> string) \<Rightarrow> process \<Rightarrow> (string \<Rightarrow> bool) \<Rightarrow> ('w, 'd) nvml
     \<Rightarrow> poll_event list \<Rightarrow> cli_flags \<Rightarrow> 'w \<Rightarrow> cli_outcome \<times> 'w option" where
  "gpu_metrics_main build quoted show_duration p exists nv es fl w =
     (let close = (\<lambda>c. Some (nvml_world (snd (Close (nvml_ops nv) c))))
      in if Requested (showVersion_flag fl) (other_args fl) then (VersionPrinted (String_version build ''gpu-metrics''), None)
      else (let ctx = FromType p (Parse_env p (env_flag fl)) in
        if dryRun_flag fl then
          (DryRunPrinted (printDryRun quoted show_duration ctx (format_flag fl) (device_flag fl) (interval_flag fl)), None)
        else (case NewDetectedCollector nv exists w of
           Inl e \<Rightarrow> (InitError e, None)
         | Inr c \<Rightarrow>
             if interval_flag fl \<le> 0 then (case collect (nvml_ops nv) (device_flag fl) ctx c of
                 (Inl e, c') \<Rightarrow> (CollectionError e, None)
               | (Inr ms, c') \<Rightarrow> (Printed (output_metrics ms (format_flag fl) ctx (driverVersion c')), close c'))
             else (case runContinuous (nvml_ops nv) (device_flag fl) ctx (format_flag fl) (driverVersion c) es c of
                 (samples, ended, c') \<Rightarrow> (Polled samples ended, if ended then close c' else None)))))"

section \<open>Facts on the selection\<close>

lemma collect_each_ok:
  assumes "collect_each call err ks out s = (Inr ms, s')"
    and "\<And>k s m s'. k \<in> set ks \<Longrightarrow> P s \<Longrightarrow> call k s = (Inr m, s') \<Longrightarrow> Q k m"
    and "\<And>k s. P s \<Longrightarrow> P (snd (call k s))" and "P s"
  shows "\<exists>news. ms = out @ news \<and> list_all2 Q ks news"
  using assms(1,2,4)
proof (induction ks arbitrary: out s)
  case (Cons k ks)
  obtain m s1 where m: "call k s = (Inr m, s1)" "collect_each call err ks (out @ [m]) s1 = (Inr ms, s')"
    using Cons.prems(1) by (auto split: prod.splits sum.splits)
  then have "P s1" using assms(3) [OF Cons.prems(3), of k] by simp
  then obtain news where "ms = (out @ [m]) @ news" "list_all2 Q ks news"
    using Cons.IH [OF m(2)] Cons.prems(2) by fastforce
  moreover have "Q k m" using Cons.prems(2) [OF _ Cons.prems(3) m(1)] by simp
  ultimately show ?case by (intro exI [of _ "m # news"]) simp
qed simp

context collector
begin

lemma collectDevices_indices:
  assumes "collectDevices C devs s = (Inr ms, s')" "inv s"
  shows "map Index ms = devs"
proof -
  have "\<exists>news. ms = [] @ news \<and> list_all2 (\<lambda>i m. Index m = i) devs news"
    by (rule collect_each_ok [OF assms(1) [unfolded collectDevices_def], of inv])
      (use assms(2) device_index inv_device in \<open>auto dest: arg_cong [of _ "(_, _)" fst]\<close>)
  then show ?thesis by (auto simp: list_all2_conv_all_nth intro: nth_equalityI)
qed

lemma collectByUUIDs_length:
  assumes "collectByUUIDs C us s = (Inr ms, s')"
  shows "length ms = length us"
  using collect_each_ok [OF assms [unfolded collectByUUIDs_def], of "\<lambda>_. True" "\<lambda>_ _. True"]
  by (auto dest: list_all2_lengthD)

lemma collect_selected:
  assumes "inv s" "collect C device ctx s = (Inr ms, s')"
  shows "(0 \<le> device \<longrightarrow> map Index ms = [device]) \<and>
    (device < 0 \<and> migUUIDs ctx = [] \<and> visibleDevices ctx \<noteq> [] \<longrightarrow> map Index ms = visibleDevices ctx) \<and>
    (device < 0 \<and> migUUIDs ctx \<noteq> [] \<longrightarrow> length ms = length (migUUIDs ctx))"
  using assms(2) device_index [OF assms(1), of device]
  by (auto simp: collect_def split: prod.splits sum.splits if_splits
      dest: collectDevices_indices [OF _ assms(1)] collectByUUIDs_length)

end

lemma collect_all_default:
  "device < 0 \<Longrightarrow> migUUIDs ctx = [] \<Longrightarrow> visibleDevices ctx = [] \<Longrightarrow>
     collect C device ctx s = apfst (map_err CollectorError) (CollectAll C s)"
  by (simp add: collect_def)

section \<open>Facts on polling\<close>

declare runContinuous.simps [simp del]

lemma runContinuous_unfold:
  "runContinuous C device ctx format driver es s =
     (case collect C device ctx s of (r, s') \<Rightarrow>
       (case es of
          [] \<Rightarrow> ([print_sample format ctx driver r], False, s')
        | Signal # _ \<Rightarrow> ([print_sample format ctx driver r], True, s')
        | PollTick # rest \<Rightarrow> apfst ((#) (print_sample format ctx driver r))
            (runContinuous C device ctx format driver rest s')))"
  by (subst runContinuous.simps) (auto split: prod.split list.split poll_event.split sum.split)

text \<open>\<open>n\<close> collections in a row: their results and the last state.\<close>

fun collect_times ::
  "nat \<Rightarrow> 's metrics_collector \<Rightarrow> int \<Rightarrow> env_context \<Rightarrow> 's \<Rightarrow> (collect_error, metrics list) result list \<times> 's" where
  "collect_times 0 C device ctx s = ([], s)"
| "collect_times (Suc n) C device ctx s = (case collect C device ctx s of (r, s1) \<Rightarrow>
     apfst ((#) r) (collect_times n C device ctx s1))"

definition ticks_before_signal :: "poll_event list \<Rightarrow> nat" where
  "ticks_before_signal es = length (takeWhile (\<lambda>e. e = PollTick) es)"

lemma runContinuous_collects:
  "runContinuous C device ctx format driver es s =
     (case collect_times (Suc (ticks_before_signal es)) C device ctx s of
        (rs, s') \<Rightarrow> (map (print_sample format ctx driver) rs, Signal \<in> set es, s'))"
proof (induction es arbitrary: s)
  case Nil
  then show ?case by (simp add: runContinuous_unfold ticks_before_signal_def split: prod.split)
next
  case (Cons e es)
  show ?case
  proof (cases e)
    case PollTick
    then show ?thesis
      using Cons [of "snd (collect C device ctx s)"]
      by (simp add: runContinuous_unfold [of C device ctx format driver "PollTick # es"] ticks_before_signal_def
        case_prod_beta)
  qed (simp add: runContinuous_unfold ticks_before_signal_def case_prod_beta)
qed

section \<open>Properties\<close>

text \<open>C28
  A job is shown its own GPUs.  If a SLURM or Flux job's list holds indices, then without a
  device flag, and with any collector that keeps the interface's contract, a successful collection
  returns the snapshots of exactly these GPUs, in the order of the list.\<close>

theorem job_sees_its_gpus:
  assumes "collector C good" "good s" "is0 \<noteq> []" "length is0 = length pads" "\<forall>i \<in> set is0. in_int64 i"
    and "list = str_join '','' (map2 (\<lambda>i (a, b). blanks a @ itoa i @ blanks b) is0 pads)"
    and "t = SLURM \<and> slurmGPUs p = list \<or> t = Flux \<and> fluxGPUs p = list"
    and "device < 0" "collect C device (FromType p t) s = (Inr ms, s')"
  shows "map Index ms = is0"
proof -
  have "visibleDevices (FromType p t) = is0 \<and> migUUIDs (FromType p t) = []"
    using assms(7) slurm.indices_read_back [OF assms(4,5), of "FromEnv_slurm p"]
      flux.indices_read_back [OF assms(4,5), of "FromEnv_flux p"] assms(6)
    by (auto simp: job_gpus)
  then show ?thesis
    using collector.collect_selected [OF assms(1,2,9)] assms(3,8) by simp
qed

lemma job_sees_its_gpus_witness:
  "map Index (ok_of (fst (collect mock_ops (- 1) (FromType (demo_process [(''CUDA_VISIBLE_DEVICES'', ''2, 0'')]) Flux)
     (NewMockCollector (map (mock_device 50) [0..<4]))))) = [2, 0]"
proof -
  let ?p = "demo_process [(''CUDA_VISIBLE_DEVICES'', ''2, 0'')]" and ?s = "NewMockCollector (map (mock_device 50) [0..<4])"
  have g: "fluxGPUs ?p = ''2, 0''" "''2, 0'' = str_join '','' (map2 (\<lambda>i (a, b). blanks a @ itoa i @ blanks b) [2, 0] [(0, 0), (1, 0)])"
    by code_simp+
  have inv: "mock_inv ?s" using mock_devices_inv [of 4 50] by (simp add: NewMockDevices_def metrics_bytes_def max_alloc_def)
  have r: "visibleDevices (FromType ?p Flux) = [2, 0]" "migUUIDs (FromType ?p Flux) = []"
    using flux.indices_read_back [of "[2, 0]" "[(0, 0), (1, 0)]" "FromEnv_flux ?p"] g
    by (simp_all add: job_gpus in_int64_def min_int64_def max_int64_def)
  obtain ms s' where "collect mock_ops (- 1) (FromType ?p Flux) ?s = (Inr ms, s')"
    by (simp add: collect_def r collectDevices_def mock_CollectDevice_def NewMockCollector_def)
  then show ?thesis
    using job_sees_its_gpus [OF mock.collector_axioms inv, of "[2, 0]" "[(0, 0), (1, 0)]" _ Flux ?p "- 1" ms s'] g
    by (simp add: in_int64_def min_int64_def max_int64_def)
qed

text \<open>C31
  Polling goes on through failures and ends with the signal.  Over any sequence of ticks and
  signals \<open>runContinuous\<close> collects once at the start and once for each tick before the first signal,
  prints each result in order, failed ones included, and has returned exactly if there was a signal;
  after it nothing is collected.\<close>

theorem polling_ends_with_signal:
  "runContinuous C device ctx format driver es s =
     (case collect_times (Suc (ticks_before_signal es)) C device ctx s of
        (rs, s') \<Rightarrow> (map (print_sample format ctx driver) rs, Signal \<in> set es, s'))"
  by (rule runContinuous_collects)

text \<open>
  GPUs assigned by their UUIDs are not recognised: a SLURM or Flux job whose list holds plain
  GPU UUIDs counts as a job without a list, and is shown all GPUs of the node.\<close>

theorem uuid_job_sees_all_gpus:
  assumes "\<forall>u \<in> set us. has_prefix u ''GPU-'' \<and> list_all plain u \<and> CHR '','' \<notin> set u"
    and "t = SLURM \<and> slurmGPUs p = str_join '','' us \<or> t = Flux \<and> fluxGPUs p = str_join '','' us"
    and "device < 0"
  shows "collect C device (FromType p t) s = apfst (map_err CollectorError) (CollectAll C s)"
  using assms(2) slurm.gpu_uuids_lost [OF assms(1), of "FromEnv_slurm p"] flux.gpu_uuids_lost [OF assms(1), of "FromEnv_flux p"]
  by (auto simp: job_gpus intro!: collect_all_default assms(3))

lemma uuid_job_sees_all_gpus_witness:
  "fst (collect mock_ops (- 1) (FromType (demo_process [(''CUDA_VISIBLE_DEVICES'', ''GPU-0a1b'')]) Flux)
     (NewMockCollector (map (mock_device 50) [0..<2]))) = Inr (map (mock_device 50) [0..<2])"
  using uuid_job_sees_all_gpus [of "[''GPU-0a1b'']" Flux "demo_process [(''CUDA_VISIBLE_DEVICES'', ''GPU-0a1b'')]" "- 1"
      mock_ops "NewMockCollector (map (mock_device 50) [0..<2])"]
  by (simp add: has_prefix_def plain_def byte_def fluxGPUs_def getenv_def demo_process_def mock_CollectAll_def NewMockCollector_def)

text \<open>
  The dry run does not say what a MIG job gets.  For a job assigned MIG instances it announces
  \<open>all GPUs\<close>, where the collection reads the assigned instances only.\<close>

theorem dry_run_hides_mig:
  assumes "us \<noteq> []" "\<forall>u \<in> set us. has_prefix u ''MIG-'' \<and> list_all plain u \<and> CHR '','' \<notin> set u"
    and "t = SLURM \<and> slurmGPUs p = str_join '','' us \<or> t = Flux \<and> fluxGPUs p = str_join '','' us"
    and "device < 0"
  shows "''Device filter : all GPUs'' \<in> set (printDryRun quoted show_duration (FromType p t) format device interval) \<and>
    collect C device (FromType p t) s = collectByUUIDs C us s"
proof -
  have "migUUIDs (FromType p t) = us \<and> visibleDevices (FromType p t) = []"
    using assms(3) slurm.uuids_read_back [OF assms(2), of "FromEnv_slurm p"] flux.uuids_read_back [OF assms(2), of "FromEnv_flux p"]
    by (auto simp: job_gpus)
  then show ?thesis using assms(1,4) by (simp add: printDryRun_def describeDeviceFilter_def collect_def)
qed

lemma dry_run_hides_mig_witness:
  "''Device filter : all GPUs'' \<in> set (printDryRun id (\<lambda>_. []) (FromType (demo_process [(''CUDA_VISIBLE_DEVICES'', ''MIG-1,MIG-2'')]) Flux) ''csv'' (- 1) 0)"
  by (rule conjunct1 [OF dry_run_hides_mig [where us = "[''MIG-1'', ''MIG-2'']" and C = mock_ops and s = "NewMockCollector []"]])
    (simp_all add: has_prefix_def plain_def byte_def fluxGPUs_def getenv_def demo_process_def)

lemma mig_uuid_identity:
  assumes "has_prefix u ''MIG-''" "run_state (nvml_CollectByUUID nv u) w = (Inr m, w')"
  shows "identity_of m = (0, True, - 1)"
proof -
  obtain d physical w1 where r: "run_state (collectMIGDevice nv d (- 1) 0 physical) w1 = (m, w')"
    using assms by (auto simp: nvml_CollectByUUID_def split: prod.splits sum.splits)
  show ?thesis using pred_stateD [OF collectMIGDevice_keeps(1) r] by simp
qed

text \<open>
  A job on MIG instances.  If a SLURM or Flux job's list holds MIG UUIDs, a successful collection with
  NVML returns one snapshot of an instance for each of them, in the order of the list.  All of them
  carry index 0 and no parent, so the table labels every instance of the job \<open>mig/0\<close>.\<close>

theorem mig_job_snapshots:
  assumes "us \<noteq> []" "\<forall>u \<in> set us. has_prefix u ''MIG-'' \<and> list_all plain u \<and> CHR '','' \<notin> set u"
    and "t = SLURM \<and> slurmGPUs p = str_join '','' us \<or> t = Flux \<and> fluxGPUs p = str_join '','' us"
    and "device < 0" "collect (nvml_ops nv) device (FromType p t) c = (Inr ms, c')"
  shows "length ms = length us \<and> (\<forall>m \<in> set ms. identity_of m = (0, True, - 1)) \<and>
    map tableGPULabel ms = replicate (length us) ''mig/0''"
proof -
  have "migUUIDs (FromType p t) = us"
    using assms(3) slurm.uuids_read_back [OF assms(2), of "FromEnv_slurm p"] flux.uuids_read_back [OF assms(2), of "FromEnv_flux p"]
    by (auto simp: job_gpus)
  then have "collect_each (CollectByUUID (nvml_ops nv)) UUIDError us [] c = (Inr ms, c')"
    using assms(1,4,5) by (simp add: collect_def collectByUUIDs_def del: nvml_ops_simps)
  moreover have step: "has_prefix u ''MIG-'' \<longrightarrow> identity_of m = (0, True, - 1)"
    if "CollectByUUID (nvml_ops nv) u s = (Inr m, s')" for u s m s'
    using that mig_uuid_identity [of u nv "nvml_world s" m] by (auto simp: on_world_def split: prod.splits)
  ultimately have r: "list_all2 (\<lambda>u m. has_prefix u ''MIG-'' \<longrightarrow> identity_of m = (0, True, - 1)) us ms"
    using collect_each_ok [of "CollectByUUID (nvml_ops nv)" UUIDError us "[]" c ms c' "\<lambda>_. True"
        "\<lambda>u m. has_prefix u ''MIG-'' \<longrightarrow> identity_of m = (0, True, - 1)"] by auto
  then have l: "length ms = length us" by (rule list_all2_lengthD [symmetric])
  have id: "\<forall>m \<in> set ms. identity_of m = (0, True, - 1)"
    using r assms(2) l nth_mem [of _ us] by (fastforce simp: list_all2_conv_all_nth in_set_conv_nth [of _ ms])
  have "itoa 0 = ''0''" by code_simp
  then have "tableGPULabel m = ''mig/0''" if "m \<in> set ms" for m
    using id that by (auto simp: tableGPULabel_def identity_of_def)
  then have "map tableGPULabel ms = replicate (length us) ''mig/0''"
    using l by (auto intro!: nth_equalityI)
  then show ?thesis using l id by blast
qed

lemma mig_job_snapshots_witness:
  "\<exists>m n c'. collect (nvml_ops demo_nvml) (- 1) (FromType (demo_process [(''CUDA_VISIBLE_DEVICES'', ''MIG-10,MIG-10'')]) Flux)
     \<lparr>nvml_world = (), driverVersion = []\<rparr> = (Inr [m, n], c') \<and> map tableGPULabel [m, n] = [''mig/0'', ''mig/0'']"
proof -
  let ?p = "demo_process [(''CUDA_VISIBLE_DEVICES'', ''MIG-10,MIG-10'')]" and ?us = "[''MIG-10'', ''MIG-10'']"
  let ?c = "\<lparr>nvml_world = (), driverVersion = []\<rparr>"
  have us: "\<forall>u \<in> set ?us. has_prefix u ''MIG-'' \<and> list_all plain u \<and> CHR '','' \<notin> set u"
    by (simp add: has_prefix_def plain_def byte_def)
  have g: "fluxGPUs ?p = str_join '','' ?us" by (simp add: fluxGPUs_def getenv_def demo_process_def)
  have mu: "migUUIDs (FromType ?p Flux) = ?us"
    using flux.uuids_read_back [OF us, of "FromEnv_flux ?p"] g by (simp add: job_gpus)
  have h: "DeviceGetHandleByUUID demo_nvml ''MIG-10'' = answer 10" by (simp add: demo_nvml_def)
  obtain r where r: "run_state (nvml_CollectByUUID demo_nvml ''MIG-10'') () = (r, ())" by (cases "run_state (nvml_CollectByUUID demo_nvml ''MIG-10'') ()") simp
  have "\<exists>m. fst (run_state (nvml_CollectByUUID demo_nvml ''MIG-10'') ()) = Inr m"
    by (simp add: nvml_CollectByUUID_def h has_prefix_def case_prod_beta)
  with r have "\<exists>m. run_state (nvml_CollectByUUID demo_nvml ''MIG-10'') () = (Inr m, ())" by auto
  then obtain m where m: "run_state (nvml_CollectByUUID demo_nvml ''MIG-10'') () = (Inr m, ())" by blast
  then have "collect (nvml_ops demo_nvml) (- 1) (FromType ?p Flux) ?c = (Inr [m, m], ?c)"
    by (simp add: collect_def collectByUUIDs_def mu on_world_def)
  then show ?thesis
    using mig_job_snapshots [OF _ us, of Flux ?p "- 1" demo_nvml ?c "[m, m]" ?c] g by auto
qed

end
