(* ===== verification/JobReport.thy ===== *)
theory JobReport
  imports GpuMetricsCli NodeReadings
begin

text \<open>
  \<open>cmd/gpu-metrics\<close> from the flags to its output: how it ends, and what a job is shown of what the
  driver says.
\<close>

section \<open>A collection of assigned GPUs\<close>

text \<open>What the driver says of the GPU with an index and the handle \<open>d\<close>.\<close>

definition snapshot_of :: "('w, 'd) nvml \<Rightarrow> 'w \<Rightarrow> int \<Rightarrow> 'd \<Rightarrow> metrics \<Rightarrow> bool" where
  "snapshot_of nv w i d m \<longleftrightarrow> identity_of m = (i, False, 0) \<and>
     UUID m = reading (GetUUID nv d) w [] \<and> Name_gpu m = reading (GetName nv d) w [] \<and>
     unat (MemoryTotalMiB m) = unat (snd (reading (GetMemoryInfo nv d) w (0, 0))) div 2 ^ 20 \<and>
     unat (PowerLimitWatts m) = unat (reading (GetPowerManagementLimit nv d) w 0) div 1000 \<and>
     (\<forall>t. device_reading t m = driver_reading nv w t d)"

lemma collect_each_quiet:
  assumes "\<forall>i \<in> set is0. fst (run_state (DeviceGetHandleByIndex nv i) (nvml_world c)) = Inr (h i)" "quiet nv (nvml_world c)"
  shows "\<exists>ms. collect_each (CollectDevice (nvml_ops nv)) err is0 out c = (Inr (out @ ms), c) \<and>
    list_all2 (\<lambda>i. snapshot_of nv (nvml_world c) i (h i)) is0 ms"
  using assms(1)
proof (induction is0 arbitrary: out)
  case (Cons i is0)
  obtain m where m: "run_state (nvml_CollectDevice nv i) (nvml_world c) = (Inr m, nvml_world c)"
    "snapshot_of nv (nvml_world c) i (h i) m"
    using device_says [OF assms(2), of i "h i"] Cons.prems unfolding snapshot_of_def by auto
  obtain ms where "collect_each (CollectDevice (nvml_ops nv)) err is0 (out @ [m]) c = (Inr ((out @ [m]) @ ms), c)"
    "list_all2 (\<lambda>i. snapshot_of nv (nvml_world c) i (h i)) is0 ms"
    using Cons.IH [of "out @ [m]"] Cons.prems by (auto simp del: nvml_ops_simps)
  moreover have "CollectDevice (nvml_ops nv) i c = (Inr m, c)" using m(1) by (simp add: on_world_def)
  ultimately show ?case using m(2) by (intro exI [of _ "m # ms"]) (simp del: nvml_ops_simps)
qed simp

lemma collect_job:
  assumes "quiet nv (nvml_world c)" "\<forall>i \<in> set is0. fst (run_state (DeviceGetHandleByIndex nv i) (nvml_world c)) = Inr (h i)"
    and "device < 0" "migUUIDs ctx = []" "visibleDevices ctx = is0" "is0 \<noteq> []"
  shows "\<exists>ms. collect (nvml_ops nv) device ctx c = (Inr ms, c) \<and>
    list_all2 (\<lambda>i. snapshot_of nv (nvml_world c) i (h i)) is0 ms"
  using collect_each_quiet [OF assms(2,1), of GPUError "[]"] assms(3-6)
  by (simp add: collect_def collectDevices_def del: nvml_ops_simps)

text \<open>A collection fails with an error of its own, while MIG handles are refused from some index on.\<close>

lemma collect_each_errors:
  "(\<And>k x. err k x \<noteq> e) \<Longrightarrow> fst (collect_each call err ks out s) \<noteq> Inl e"
  by (induction call err ks out s rule: collect_each.induct) (auto split: prod.splits sum.splits)

lemma CollectDevice_ends: "CollectDevice (nvml_ops nv) i c \<noteq> (Inl CollectionHangs, c')"
  by (auto simp: on_world_def nvml_CollectDevice_def collectDevice_def split: prod.splits sum.splits)

lemma collect_ends:
  assumes "refuses_from nv N"
  shows "fst (collect (nvml_ops nv) device ctx c) \<noteq> Inl (CollectorError CollectionHangs)"
proof -
  have all: "fst (CollectAll (nvml_ops nv) c) \<noteq> Inl CollectionHangs"
    using CollectAll_ends [OF assms] by (simp add: on_world_def case_prod_beta)
  consider (one) "0 \<le> device" | (uuids) "device < 0" "migUUIDs ctx \<noteq> []"
    | (devs) "device < 0" "migUUIDs ctx = []" "visibleDevices ctx \<noteq> []"
    | (all) "device < 0" "migUUIDs ctx = []" "visibleDevices ctx = []" by linarith
  then show ?thesis
  proof cases
    case one
    then show ?thesis
      using CollectDevice_ends [of nv device c]
      by (auto simp: collect_def simp del: nvml_ops_simps split: prod.split sum.split)
  next
    case all
    then show ?thesis using \<open>fst _ \<noteq> _\<close> by (auto simp: collect_def map_err_Inl_iff simp del: nvml_ops_simps)
  qed (simp_all add: collect_def collectByUUIDs_def collectDevices_def collect_each_errors del: nvml_ops_simps)
qed

section \<open>A job on the sample node\<close>

definition job_process :: process where
  "job_process = demo_process [(''SLURM_JOB_ID'', ''7''), (''SLURM_JOB_GPUS'', ''1,0'')]"

definition job_flags :: cli_flags where
  "job_flags = \<lparr>format_flag = ''csv'', interval_flag = 0, device_flag = - 1, env_flag = ''auto'',
     dryRun_flag = False, showVersion_flag = False, other_args = []\<rparr>"

definition job_build :: build_info where
  "job_build = \<lparr>Version = ''dev'', BuildDate = ''unknown'', runtime_Version = ''go1.26''\<rparr>"

lemma job_list: "slurmGPUs job_process = ''1,0''" "Parse_env job_process ''auto'' = SLURM"
  by (simp_all add: job_process_def demo_process_def slurmGPUs_def getenv_def Parse_env_def Detect_env_def
      Detect_slurm_def env_is_set_def)

lemma job_collector:
  "NewDetectedCollector flat_nvml (\<lambda>f. f = nvidiaDevPath) () = Inr \<lparr>nvml_world = (), driverVersion = ''550.54''\<rparr>"
  by (simp add: NewDetectedCollector_def detectVendor_def NewCollectorForVendor_def NewCollector_def flat_nvml_def
      demo_nvml_def VendorNVIDIA_def VendorAMD_def VendorUnknown_def)

lemma gpu_metrics_collecting:
  assumes "\<not> Requested (showVersion_flag fl) (other_args fl)" "\<not> dryRun_flag fl" "NewDetectedCollector nv exists w = Inr c"
    and "interval_flag fl \<le> 0" "collect (nvml_ops nv) (device_flag fl) (FromType p (Parse_env p (env_flag fl))) c = (Inr ms, c')"
  shows "gpu_metrics_main build quoted show_duration p exists nv es fl w =
    (Printed (output_metrics ms (format_flag fl) (FromType p (Parse_env p (env_flag fl))) (driverVersion c')),
     Some (snd (run_state (nvml_Close nv) (nvml_world c'))))"
  using assms by (simp add: gpu_metrics_main_def Let_def on_world_def case_prod_beta)

section \<open>Properties\<close>

text \<open>C27
  A job's report, from the driver to the printed text.  For a SLURM or Flux job whose list holds indices,
  with a driver that answers the same throughout and has a handle for each of them, one run of the
  command prints CSV that reads back as one snapshot per assigned GPU, in the order of the list, with the
  driver's readings; each line carries the job's environment and the driver version, and the
  library is closed.\<close>

theorem job_report_exact:
  assumes "NewDetectedCollector nv exists w0 = Inr c" "quiet nv (nvml_world c)"
    and "is0 \<noteq> []" "length is0 = length pads" "\<forall>i \<in> set is0. in_int64 i"
    and "list = str_join '','' (map2 (\<lambda>i (a, b). blanks a @ itoa i @ blanks b) is0 pads)"
    and "t = Parse_env p (env_flag fl)" "t = SLURM \<and> slurmGPUs p = list \<or> t = Flux \<and> fluxGPUs p = list"
    and "\<forall>i \<in> set is0. fst (run_state (DeviceGetHandleByIndex nv i) (nvml_world c)) = Inr (h i)"
    and "device_flag fl < 0" "interval_flag fl \<le> 0" "format_flag fl = ''csv''" "\<not> dryRun_flag fl"
    and "\<not> Requested (showVersion_flag fl) (other_args fl)"
  shows "\<exists>ms hdr rows. gpu_metrics_main build quoted show_duration p exists nv es fl w0 =
      (Printed (Csv (hdr # rows)), Some (snd (run_state (nvml_Close nv) (nvml_world c)))) \<and>
    list_all2 (\<lambda>i. snapshot_of nv (nvml_world c) i (h i)) is0 ms \<and>
    map (\<lambda>l. metrics_of_row (drop 5 (read_record l))) rows = map printed ms \<and>
    (\<forall>l \<in> set rows. take 5 (read_record l) = Row_env (FromType p t) @ [driverVersion c])"
proof -
  have "visibleDevices (FromType p t) = is0 \<and> migUUIDs (FromType p t) = []"
    using assms(8) slurm.indices_read_back [OF assms(4,5), of "FromEnv_slurm p"]
      flux.indices_read_back [OF assms(4,5), of "FromEnv_flux p"] assms(6)
    by (auto simp: job_gpus)
  then obtain ms where ms: "collect (nvml_ops nv) (device_flag fl) (FromType p t) c = (Inr ms, c)"
    "list_all2 (\<lambda>i. snapshot_of nv (nvml_world c) i (h i)) is0 ms"
    using collect_job [OF assms(2,9,10) _ _ assms(3)] by blast
  then have "\<forall>m \<in> set ms. in_int64 (Index m) \<and> in_int64 (ParentIndex m)"
    using assms(5) by (fastforce simp: list_all2_conv_all_nth in_set_conv_nth [of _ ms] snapshot_of_def identity_of_def
        in_int64_def min_int64_def max_int64_def)
  from csv_lines_back [OF this, of "FromType p t" "driverVersion c"] obtain hdr rows where
    "outputCSV ms (FromType p t) (driverVersion c) = hdr # rows"
    "\<forall>l \<in> set rows. take 5 (read_record l) = Row_env (FromType p t) @ [driverVersion c]"
    "map (\<lambda>l. metrics_of_row (drop 5 (read_record l))) rows = map printed ms" by blast
  moreover have "output_metrics ms (format_flag fl) (FromType p t) (driverVersion c) = Csv (outputCSV ms (FromType p t) (driverVersion c))"
    using assms(12) by (simp add: output_metrics_def)
  ultimately show ?thesis
    using gpu_metrics_collecting [OF assms(14,13,1,11) ms(1) [unfolded assms(7)], of build quoted show_duration es] ms(2)
    by (simp add: assms(7)) blast
qed

lemma job_report_exact_witness:
  "\<exists>ms rows hdr s. gpu_metrics_main job_build id (\<lambda>_. []) job_process (\<lambda>f. f = nvidiaDevPath) flat_nvml [] job_flags () =
     (Printed (Csv (hdr # rows)), s) \<and> map Index ms = [1, 0] \<and>
     map (\<lambda>l. metrics_of_row (drop 5 (read_record l))) rows = map printed ms"
proof -
  let ?c = "\<lparr>nvml_world = (), driverVersion = ''550.54''\<rparr>"
  have l: "''1,0'' = str_join '','' (map2 (\<lambda>i (a, b). blanks a @ itoa i @ blanks b) [1, 0] [(0, 0), (0, 0)])" by code_simp
  have f: "device_flag job_flags < 0" "interval_flag job_flags \<le> 0" "format_flag job_flags = ''csv''" "\<not> dryRun_flag job_flags"
    "\<not> Requested (showVersion_flag job_flags) (other_args job_flags)" "env_flag job_flags = ''auto''"
    by (simp_all add: job_flags_def Requested_def)
  have h: "\<forall>i \<in> set [1, 0]. fst (run_state (DeviceGetHandleByIndex flat_nvml i) (nvml_world ?c)) = Inr (nat i)"
    by (simp add: flat_nvml_def)
  have q: "quiet flat_nvml (nvml_world ?c)" by (simp add: flat_node)
  have t: "SLURM = SLURM \<and> slurmGPUs job_process = ''1,0'' \<or> SLURM = Flux \<and> fluxGPUs job_process = ''1,0''"
    by (simp add: job_list)
  obtain ms hdr rows where r: "gpu_metrics_main job_build id (\<lambda>_. []) job_process (\<lambda>f. f = nvidiaDevPath) flat_nvml [] job_flags () =
      (Printed (Csv (hdr # rows)), Some (snd (run_state (nvml_Close flat_nvml) (nvml_world ?c))))"
    "list_all2 (\<lambda>i. snapshot_of flat_nvml (nvml_world ?c) i (nat i)) [1, 0] ms"
    "map (\<lambda>l. metrics_of_row (drop 5 (read_record l))) rows = map printed ms"
    using job_report_exact [OF job_collector q _ _ _ l _ t h f(1-5), of job_build id "\<lambda>_. []" "[]"] f(6) job_list(2)
    by (auto simp: in_int64_def min_int64_def max_int64_def)
  have "map Index ms = [1, 0]"
    using r(2) by (auto simp: list_all2_Cons1 snapshot_of_def identity_of_def)
  then show ?thesis using r(1,3) by (intro exI conjI)
qed

text \<open>C33
  How the command ends, with a driver that refuses MIG handles from some index on.  It exits with
  status 1 exactly if it has to collect and there is no collector, or its only collection fails;
  failures never end a continuous run, which is over exactly after a signal.  The library is closed
  exactly if the command has collected and ends with status 0: after a failed collection it is left
  open.\<close>

theorem cli_ends:
  assumes "refuses_from nv N"
  shows "(let out = gpu_metrics_main build quoted show_duration p exists nv es fl w;
        collecting = (\<not> Requested (showVersion_flag fl) (other_args fl) \<and> \<not> dryRun_flag fl);
        start = NewDetectedCollector nv exists w;
        failed = (\<exists>e. fst (collect (nvml_ops nv) (device_flag fl) (FromType p (Parse_env p (env_flag fl))) (ok_of start)) = Inl e)
    in (exit_status (fst out) = Some 1 \<longleftrightarrow> collecting \<and> ((\<exists>e. start = Inl e) \<or> interval_flag fl \<le> 0 \<and> failed)) \<and>
       (exit_status (fst out) = None \<longleftrightarrow> collecting \<and> is_ok start \<and> 0 < interval_flag fl \<and> Signal \<notin> set es) \<and>
       (snd out \<noteq> None \<longleftrightarrow> collecting \<and> exit_status (fst out) = Some 0))"
proof -
  let ?ctx = "FromType p (Parse_env p (env_flag fl))"
  have ended: "fst (snd (runContinuous (nvml_ops nv) (device_flag fl) ?ctx (format_flag fl) d es c)) \<longleftrightarrow> Signal \<in> set es" for d c
    by (simp add: runContinuous_collects case_prod_beta del: nvml_ops_simps)
  show ?thesis
  proof (cases "NewDetectedCollector nv exists w")
    case (Inr c)
    then show ?thesis
      using ended collect_ends [OF assms, of "device_flag fl" ?ctx c] by (cases "fst (collect (nvml_ops nv) (device_flag fl) ?ctx c)")
        (auto simp: gpu_metrics_main_def Let_def case_prod_beta simp del: nvml_ops_simps split: sum.split)
  qed (simp add: gpu_metrics_main_def Let_def)
qed

text \<open>A one-shot run for a device that has no handle.\<close>

lemma cli_ends_witness:
  "let out = gpu_metrics_main job_build id (\<lambda>_. []) job_process (\<lambda>f. f = nvidiaDevPath) demo_nvml [] (job_flags\<lparr>device_flag := 2\<rparr>) ()
   in exit_status (fst out) = Some 1 \<and> snd out = None"
proof -
  let ?fl = "job_flags\<lparr>device_flag := 2\<rparr>"
  let ?out = "gpu_metrics_main job_build id (\<lambda>_. []) job_process (\<lambda>f. f = nvidiaDevPath) demo_nvml [] ?fl ()"
  have s: "NewDetectedCollector demo_nvml (\<lambda>f. f = nvidiaDevPath) () = Inr \<lparr>nvml_world = (), driverVersion = ''550.54''\<rparr>"
    by (simp add: NewDetectedCollector_def detectVendor_def NewCollectorForVendor_def NewCollector_def demo_nvml_def)
  have f: "\<not> Requested (showVersion_flag ?fl) (other_args ?fl)" "\<not> dryRun_flag ?fl" "interval_flag ?fl \<le> 0" "device_flag ?fl = 2"
    by (simp_all add: job_flags_def Requested_def)
  have "\<exists>e. fst (collect (nvml_ops demo_nvml) 2 ctx \<lparr>nvml_world = (), driverVersion = ''550.54''\<rparr>) = Inl e" for ctx
    by (simp add: collect_def on_world_def nvml_CollectDevice_def collectDevice_def demo_nvml_def)
  then have "exit_status (fst ?out) = Some 1" "snd ?out \<noteq> None \<longleftrightarrow> exit_status (fst ?out) = Some 0"
    using cli_ends [OF demo_refuses, of job_build id "\<lambda>_. []" job_process "\<lambda>f. f = nvidiaDevPath" "[]" ?fl "()"] f s
    by (simp_all add: Let_def del: exit_status.simps)
  then show ?thesis by (cases "snd ?out") (simp_all add: Let_def)
qed

end
