(* ===== verification/Web.thy ===== *)
theory Web
  imports Service
begin

text \<open>
  The HTTP exchange behind a scrape.  Both clients are a plain \<open>http.Client\<close> with a timeout: its
  \<open>Get\<close> follows redirects, asks ten URLs at most, and gives up when the time is over, also while the
  body arrives.  The web is a parameter: what a URL answers, and after how many nanoseconds.
\<close>

section \<open>The web and the client\<close>

datatype answer =
    Refused string
  | Redirect string
  | Response int "(nat \<times> string) list" "string option"

type_synonym web = "string \<Rightarrow> nat \<times> answer"

definition timeout_error :: string where
  "timeout_error = ''Client.Timeout exceeded''"

text \<open>The pieces of a body, each after some time, and the error after them.\<close>

fun read_body :: "nat \<Rightarrow> (nat \<times> string) list \<Rightarrow> string option \<Rightarrow> string \<times> string option \<times> nat" where
  "read_body t [] rerr = ([], rerr, 0)"
| "read_body t ((d, piece) # ps) rerr =
     (if t < d then ([], Some timeout_error, t)
      else case read_body (t - d) ps rerr of (body, e, used) \<Rightarrow> (piece @ body, e, d + used))"

text \<open>An exchange: the reply, the time it takes and the URLs asked, with \<open>k\<close> redirects left.\<close>

fun exchange :: "web \<Rightarrow> nat \<Rightarrow> nat \<Rightarrow> string \<Rightarrow> http_reply \<times> nat \<times> string list" where
  "exchange w t k u = (case w u of (d, a) \<Rightarrow>
     if t < d then (TransportError timeout_error, t, [u])
     else case a of
       Refused e \<Rightarrow> (TransportError e, d, [u])
     | Response status ps rerr \<Rightarrow>
         (case read_body (t - d) ps rerr of (body, e, used) \<Rightarrow> (Reply status body e, d + used, [u]))
     | Redirect v \<Rightarrow>
         (case k of
            0 \<Rightarrow> (TransportError ''stopped after 10 redirects'', d, [u])
          | Suc k' \<Rightarrow> (case exchange w (t - d) k' v of (r, used, us) \<Rightarrow> (r, d + used, u # us))))"

declare exchange.simps [simp del]

definition max_redirects :: nat where
  "max_redirects = 9"

text \<open>The timeout both \<open>NewClient\<close>s set, and the replies their clients get.\<close>

definition client_timeout :: duration where
  "client_timeout = seconds 5"

definition Get_http :: "web \<Rightarrow> string \<Rightarrow> http_reply \<times> nat \<times> string list" where
  "Get_http w u = exchange w (nat client_timeout) max_redirects u"

definition web_env :: "web \<Rightarrow> gotime \<Rightarrow> gotime \<Rightarrow> call_env" where
  "web_env w scraped cooled = \<lparr>http_get = \<lambda>u. fst (Get_http w u), scrape_now = scraped, cooldown_now = cooled\<rparr>"

section \<open>Facts\<close>

lemma client_timeout_ns: "nat client_timeout = 5000000000"
  by (simp add: client_timeout_def seconds_max nanos_per_second_def)

lemma nine: "max_redirects = Suc 8"
  by (simp add: max_redirects_def)

lemma exchange_redirect:
  "w u = (d, Redirect v) \<Longrightarrow> d \<le> t \<Longrightarrow>
     exchange w t (Suc k) u = (case exchange w (t - d) k v of (r, used, us) \<Rightarrow> (r, d + used, u # us))"
  by (subst exchange.simps) simp

lemma exchange_response:
  "w u = (d, Response status [(d', body)] None) \<Longrightarrow> d + d' \<le> t \<Longrightarrow>
     exchange w t k u = (Reply status body None, d + d', [u])"
  by (subst exchange.simps) simp

text \<open>One redirect to a URL that answers in time.\<close>

lemma Get_http_redirect:
  assumes "w u = (d, Redirect v)" "w v = (d', Response status [(d'', body)] None)" "d + d' + d'' \<le> 5 * 10 ^ 9"
  shows "Get_http w u = (Reply status body None, d + (d' + d''), [u, v])"
  unfolding Get_http_def client_timeout_ns nine
  by (subst exchange_redirect [of w u d v]) (use assms in \<open>simp_all add: exchange_response\<close>)

lemma read_body_time: "read_body t ps rerr = (body, e, used) \<Longrightarrow> used \<le> t"
  by (induction t ps rerr arbitrary: body e used rule: read_body.induct) (force split: if_splits prod.splits)+

text \<open>The URLs of an exchange: each after the first is named by the answer of the one before it.\<close>

fun redirected :: "web \<Rightarrow> string list \<Rightarrow> bool" where
  "redirected w (u # v # us) \<longleftrightarrow> snd (w u) = Redirect v \<and> redirected w (v # us)"
| "redirected w us \<longleftrightarrow> True"

lemma exchange_bounds:
  assumes "exchange w t k u = (r, used, us)"
  shows "used \<le> t \<and> length us \<le> Suc k \<and> (\<exists>vs. us = u # vs) \<and> redirected w us"
  using assms
proof (induction w t k u arbitrary: r used us rule: exchange.induct)
  case (1 w t k u)
  obtain d a where a: "w u = (d, a)" by (cases "w u")
  show ?case
  proof (cases "t < d")
    case False
    then have d: "d \<le> t" by simp
    show ?thesis
    proof (cases a)
      case (Redirect v)
      show ?thesis
      proof (cases k)
        case (Suc k')
        obtain r' used' us' where x: "exchange w (t - d) k' v = (r', used', us')" by (cases "exchange w (t - d) k' v")
        have "used' \<le> t - d \<and> length us' \<le> Suc k' \<and> (\<exists>vs. us' = v # vs) \<and> redirected w us'"
          by (rule "1.IH" [OF a [symmetric] False Redirect Suc x])
        then show ?thesis using "1.prems" a d Redirect Suc x by (auto simp: exchange.simps [of w t])
      qed (use "1.prems" a d Redirect in \<open>auto simp: exchange.simps [of w t]\<close>)
    next
      case (Response status ps rerr)
      then show ?thesis using "1.prems" a d
        by (auto simp: exchange.simps [of w t] split: prod.splits dest!: read_body_time)
    qed (use "1.prems" a d in \<open>auto simp: exchange.simps [of w t]\<close>)
  qed (use "1.prems" a in \<open>auto simp: exchange.simps [of w t]\<close>)
qed

text \<open>The URLs a request for a URL may come to ask: those that redirects lead to.\<close>

inductive led_to :: "web \<Rightarrow> string \<Rightarrow> string \<Rightarrow> bool" for w u where
  itself: "led_to w u u"
| redirect: "led_to w u v \<Longrightarrow> snd (w v) = Redirect x \<Longrightarrow> led_to w u x"

lemma led_to_step: "snd (w u) = Redirect v \<Longrightarrow> led_to w v x \<Longrightarrow> led_to w u x"
  by (rotate_tac, induction rule: led_to.induct) (auto intro: led_to.intros)

lemma exchange_asks: "exchange w t k u = (r, used, us) \<Longrightarrow> x \<in> set us \<Longrightarrow> led_to w u x"
proof -
  assume e: "exchange w t k u = (r, used, us)" "x \<in> set us"
  have "redirected w vs \<Longrightarrow> x \<in> set vs \<Longrightarrow> led_to w (hd vs) x" for vs
    by (induction w vs rule: redirected.induct) (auto intro: led_to.itself led_to_step)
  then show ?thesis using exchange_bounds [OF e(1)] e(2) by (metis list.sel(1))
qed

text \<open>An exchange depends on the answers of these URLs only.\<close>

lemma exchange_local:
  assumes "\<And>x. led_to w u x \<Longrightarrow> w x = w' x"
  shows "exchange w t k u = exchange w' t k u"
  using assms
proof (induction w t k u rule: exchange.induct)
  case (1 w t k u)
  obtain d a where a: "w u = (d, a)" by (cases "w u")
  have a': "w' u = (d, a)" using 1(2) [OF led_to.itself] a by simp
  show ?case
  proof (cases "\<exists>v k'. a = Redirect v \<and> k = Suc k' \<and> \<not> t < d")
    case True
    then obtain v k' where v: "a = Redirect v" "k = Suc k'" "\<not> t < d" by blast
    have "exchange w (t - d) k' v = exchange w' (t - d) k' v"
      by (rule "1.IH" [OF a [symmetric] v(3,1,2)], rule "1.prems", rule led_to_step [of w u v]) (simp_all add: a v)
    then show ?thesis using a a' v by (simp add: exchange.simps [of _ t "Suc k'"])
  qed (auto simp: exchange.simps [of _ t k u] a a' split: answer.split nat.split)
qed

text \<open>Webs that agree on what the URLs answer that requests for vetted URLs may come to ask.\<close>

definition same_reachable_web :: "web \<Rightarrow> web \<Rightarrow> bool" where
  "same_reachable_web w w' \<longleftrightarrow> (\<forall>u x. vetted u \<longrightarrow> led_to w u x \<longrightarrow> w x = w' x)"

lemma same_reachable_world:
  "same_reachable_web w w' \<Longrightarrow> same_vetted_world (web_env w scraped cooled) (web_env w' scraped cooled)"
  by (auto simp: same_vetted_world_def web_env_def Get_http_def same_reachable_web_def intro!: arg_cong [of _ _ fst] exchange_local)

text \<open>The endpoint of a configuration whose metric an engine reports.\<close>

definition engine_endpoint :: "scaler_config \<Rightarrow> string" where
  "engine_endpoint cfg = (if IsVLLMMetric (metricType cfg) then vllmEndpoint cfg else tritonEndpoint cfg)"

lemma engine_read_asks_endpoint:
  assumes "scaler_reachable C s" "IsVLLMMetric (metricType cfg) \<or> IsTritonMetric (metricType cfg)"
    and "http_get env (engine_endpoint cfg) = http_get env' (engine_endpoint cfg)" "scrape_now env = scrape_now env'"
  shows "getMetricValue C env cfg s = getMetricValue C env' cfg s"
  using assms(2-4) getVLLMClient_endpoint [OF reachable_vetted [OF assms(1)], of "vllmEndpoint cfg"]
    getTritonClient_endpoint [OF reachable_vetted [OF assms(1)], of "tritonEndpoint cfg"]
  by (auto simp: getMetricValue_def engine_endpoint_def getVLLMMetricValue_def getTritonMetricValue_def case_prod_beta Let_def)

section \<open>A sample web\<close>

text \<open>A web in which the engine sends its readers on to the metadata address.\<close>

definition metadata_url :: string where
  "metadata_url = ''http://169.254.169.254/latest''"

definition demo_web :: web where
  "demo_web u = (if u = ''http://v:80'' then (1000, Redirect metadata_url)
     else (500, Response 200 [(0, sample_line MetricQueueDepth ''model=a'' 7)] None))"

lemma vllm_config_sel: "metricType vllm_config = MetricVLLMQueueDepth" "engine_endpoint vllm_config = ''http://v:80''"
  "IsVLLMMetric MetricVLLMQueueDepth"
  by (simp_all add: vllm_config_def engine_endpoint_def IsVLLMMetric_def)

section \<open>Properties\<close>

text \<open>C12
  What one reading costs.  In a reachable state an engine metric is read by one exchange: within
  five seconds, of at most ten requests, the first of which goes to the object's own, vetted endpoint
  and each later one to the URL the answer before it names.  The value depends on its reply only.\<close>

theorem engine_read_bounds:
  assumes "scaler_reachable C s" "parseMetadata md = Inr cfg"
    and "IsVLLMMetric (metricType cfg) \<or> IsTritonMetric (metricType cfg)"
  shows "\<exists>r used urls. Get_http w (engine_endpoint cfg) = (r, used, engine_endpoint cfg # urls) \<and>
    validateVLLMEndpoint (engine_endpoint cfg) = Inr () \<and>
    used \<le> 5 * 10 ^ 9 \<and> length urls \<le> 9 \<and> redirected w (engine_endpoint cfg # urls) \<and>
    getMetricValue C (web_env w scraped cooled) cfg s =
      getMetricValue C \<lparr>http_get = \<lambda>_. r, scrape_now = scraped, cooldown_now = cooled\<rparr> cfg s"
proof -
  obtain r used us where x: "Get_http w (engine_endpoint cfg) = (r, used, us)" by (cases "Get_http w (engine_endpoint cfg)")
  then obtain urls where b: "us = engine_endpoint cfg # urls" "used \<le> 5 * 10 ^ 9" "length urls \<le> 9" "redirected w us"
    using exchange_bounds [of w "nat client_timeout" max_redirects "engine_endpoint cfg" r used us]
    by (auto simp: Get_http_def client_timeout_ns max_redirects_def)
  have "vetted (engine_endpoint cfg)"
    using assms(3) endpoints_ok_vetted [OF parse_endpoints_ok [OF assms(2)]] by (auto simp: engine_endpoint_def)
  moreover have "getMetricValue C (web_env w scraped cooled) cfg s =
      getMetricValue C \<lparr>http_get = \<lambda>_. r, scrape_now = scraped, cooldown_now = cooled\<rparr> cfg s"
    by (rule engine_read_asks_endpoint [OF assms(1,3)]) (simp_all add: web_env_def x)
  ultimately show ?thesis using x b by (auto simp: vetted_def)
qed

lemma engine_read_bounds_witness:
  "\<exists>r used urls. Get_http demo_web ''http://v:80'' = (r, used, ''http://v:80'' # urls) \<and> used \<le> 5 * 10 ^ 9 \<and> length urls \<le> 9"
  using engine_read_bounds [OF demo_reachable parse_vllm_md, of demo_web zero_time zero_time] by (auto simp: vllm_config_sel)

text \<open>C10
  The guard bounds what a scaler reads up to redirects.  In a reachable state the values and decisions
  for any object depend on no answer but those of URLs the guard accepts and of the URLs that redirects
  lead to from them: webs that agree on these give the same results and next states.  And the URLs that
  are asked for an object whose metadata parse are all of this kind.\<close>

theorem only_led_to_answers_matter:
  assumes "scaler_reachable C s" "same_reachable_web w w'"
  shows "GetMetrics C (web_env w scraped cooled) (Some ref) s = GetMetrics C (web_env w' scraped cooled) (Some ref) s \<and>
    IsActive C (web_env w scraped cooled) ref s = IsActive C (web_env w' scraped cooled) ref s \<and>
    (\<forall>cfg x. parseMetadata (scalerMetadata ref) = Inr cfg \<longrightarrow> IsVLLMMetric (metricType cfg) \<or> IsTritonMetric (metricType cfg) \<longrightarrow>
       x \<in> set (snd (snd (Get_http w (engine_endpoint cfg)))) \<longrightarrow> (\<exists>u. vetted u \<and> led_to w u x))"
proof (cases "parseMetadata (scalerMetadata ref)")
  case (Inr cfg)
  let ?env = "web_env w scraped cooled" and ?env' = "web_env w' scraped cooled"
  have "getMetricValue C ?env cfg s = getMetricValue C ?env' cfg s"
    by (rule read_same_world [OF reachable_vetted [OF assms(1)] parse_endpoints_ok [OF Inr] same_reachable_world [OF assms(2)]])
  moreover have "cooldown_now ?env = cooldown_now ?env'" by (simp add: web_env_def)
  moreover have "led_to w (engine_endpoint cfg) x" if "x \<in> set (snd (snd (Get_http w (engine_endpoint cfg))))" for x
    using that exchange_asks [of w _ _ "engine_endpoint cfg" _ _ _ x] by (metis Get_http_def prod.collapse)
  moreover have "vetted (engine_endpoint cfg)" if "IsVLLMMetric (metricType cfg) \<or> IsTritonMetric (metricType cfg)"
    using that endpoints_ok_vetted [OF parse_endpoints_ok [OF Inr]] by (auto simp: engine_endpoint_def)
  ultimately show ?thesis using Inr
    by (cases "getMetricValue C ?env' cfg s"; cases "fst (getMetricValue C ?env' cfg s)") (auto simp: GetMetrics_def IsActive_def)
qed (simp add: GetMetrics_def IsActive_def)

text \<open>What another path of the metadata address would answer is of no effect, although the engine redirects to one.\<close>

definition credentials_url :: string where
  "credentials_url = ''http://169.254.169.254/credentials''"

lemma only_led_to_answers_matter_witness:
  "GetMetrics mock_ops (web_env demo_web zero_time zero_time) (Some (demo_ref vllm_md)) demo_scaler =
   GetMetrics mock_ops (web_env (demo_web(credentials_url := (0, Refused ''closed''))) zero_time zero_time) (Some (demo_ref vllm_md)) demo_scaler"
proof -
  have l: "validateVLLMEndpoint credentials_url \<noteq> Inr ()" unfolding credentials_url_def by code_simp
  have d: "credentials_url \<noteq> metadata_url" by (simp add: credentials_url_def metadata_url_def)
  have asks: "x = u \<or> x = metadata_url" if "led_to demo_web u x" for u x
    using that by (induction rule: led_to.induct) (auto simp: demo_web_def split: if_splits)
  have "x \<noteq> credentials_url" if "vetted u" "led_to demo_web u x" for u x
    using asks [OF that(2)] that(1) l d by (auto simp: vetted_def)
  then have "same_reachable_web demo_web (demo_web(credentials_url := (0, Refused ''closed'')))"
    by (simp add: same_reachable_web_def)
  from only_led_to_answers_matter [OF demo_reachable this, of zero_time zero_time "demo_ref vllm_md"] show ?thesis by (rule conjunct1)
qed

text \<open>C11
  The guard looks at the first URL only.  If a vetted endpoint answers with a redirect, to any URL
  whatever, also one the guard rejects, and that URL answers 200 in time, then the object is
  scaled on the body of that URL.\<close>

theorem redirect_escapes_guard:
  assumes "scaler_reachable C s" "parseMetadata md = Inr cfg" "IsVLLMMetric (metricType cfg)"
    and "w (vllmEndpoint cfg) = (d, Redirect v)" "w v = (d', Response 200 [(d'', body)] None)"
    and "d + d' + d'' \<le> 5 * 10 ^ 9"
  shows "snd (snd (Get_http w (vllmEndpoint cfg))) = [vllmEndpoint cfg, v] \<and>
    fst (getMetricValue C (web_env w scraped cooled) cfg s) =
      res_bind (map_err VllmFailed (Scrape_vllm (Reply 200 body None))) (vllm_value cfg)"
proof -
  have "Get_http w (vllmEndpoint cfg) = (Reply 200 body None, d + (d' + d''), [vllmEndpoint cfg, v])"
    by (rule Get_http_redirect [OF assms(4-6)])
  then show ?thesis
    using assms(3) getVLLMClient_endpoint [OF reachable_vetted [OF assms(1)], of "vllmEndpoint cfg"]
    by (simp add: getMetricValue_def getVLLMMetricValue_def case_prod_beta web_env_def)
qed

lemma redirect_escapes_guard_witness:
  "validateVLLMEndpoint ''http://v:80'' = Inr () \<and> validateVLLMEndpoint metadata_url \<noteq> Inr () \<and>
   snd (snd (Get_http demo_web ''http://v:80'')) = [''http://v:80'', metadata_url] \<and>
   fst (getMetricValue mock_ops (web_env demo_web zero_time zero_time) vllm_config demo_scaler) = Inr (f64_of_nat 7)"
proof -
  have e: "vllmEndpoint vllm_config = ''http://v:80''" by (simp add: vllm_config_def)
  have m: "validateVLLMEndpoint metadata_url \<noteq> Inr ()" unfolding metadata_url_def by code_simp
  have "snd (snd (Get_http demo_web (vllmEndpoint vllm_config))) = [vllmEndpoint vllm_config, metadata_url] \<and>
    fst (getMetricValue mock_ops (web_env demo_web zero_time zero_time) vllm_config demo_scaler) =
      res_bind (map_err VllmFailed (Scrape_vllm (Reply 200 (sample_line MetricQueueDepth ''model=a'' 7) None))) (vllm_value vllm_config)"
    by (rule redirect_escapes_guard [OF demo_reachable parse_vllm_md, of _ 1000 _ 500 0])
      (simp_all add: vllm_config_sel e demo_web_def metadata_url_def)
  moreover have "res_bind (map_err VllmFailed (Scrape_vllm (Reply 200 (sample_line MetricQueueDepth ''model=a'' 7) None))) (vllm_value vllm_config) =
      Inr (f64_of_nat 7)"
    using vllm_env_scrape [of "[]"] by (auto simp: vllm_env_def vllm_value_def vllm_config_sel)
  ultimately show ?thesis using m e demo_endpoint by simp
qed

end
