(* ===== verification/ClientMap.thy ===== *)
theory ClientMap
  imports Service
begin

text \<open>
  The scaler's maps of clients as they are in memory.  A map holds pointers; \<open>getVLLMClient\<close> and
  \<open>getTritonClient\<close> read it and, on a miss, extend it, with no lock held.  First the calls one at a time,
  over a store of objects: they refine the map of values that the handlers are modelled with, and what
  a Triton reading reports after any sequence of them follows from the replies alone.  Then
  the calls side by side, an access to the map being a stretch of time: Go leaves an access that
  overlaps a write undefined, and its runtime ends the process when it notices one.
\<close>

section \<open>One call at a time\<close>

record 'c client_store =
  directory :: "string \<rightharpoonup> nat"
  objects :: "'c list"

definition empty_store :: "'c client_store" where
  "empty_store = \<lparr>directory = Map.empty, objects = []\<rparr>"

definition get_client :: "(string \<Rightarrow> 'c) \<Rightarrow> string \<Rightarrow> 'c client_store \<Rightarrow> nat \<times> 'c client_store" where
  "get_client new e st = (case directory st e of
     Some a \<Rightarrow> (a, st)
   | None \<Rightarrow> (length (objects st),
       \<lparr>directory = (directory st)(e \<mapsto> length (objects st)), objects = objects st @ [new e]\<rparr>))"

text \<open>A method with a pointer receiver changes the object in place.\<close>

definition update_client :: "nat \<Rightarrow> 'c \<Rightarrow> 'c client_store \<Rightarrow> 'c client_store" where
  "update_client a c st = st\<lparr>objects := (objects st)[a := c]\<rparr>"

text \<open>The map of values the pointers stand for, while no two entries share an object.\<close>

definition look :: "'c client_store \<Rightarrow> string \<rightharpoonup> 'c" where
  "look st e = map_option ((!) (objects st)) (directory st e)"

definition store_ok :: "'c client_store \<Rightarrow> bool" where
  "store_ok st \<longleftrightarrow> ran (directory st) \<subseteq> {..<length (objects st)} \<and> inj_on (directory st) (dom (directory st))"

text \<open>The reading of a Triton metric through pointers.\<close>

definition read_triton ::
  "call_env \<Rightarrow> scaler_config \<Rightarrow> triton_client client_store \<Rightarrow>
     (metric_error, f64) result \<times> triton_client client_store" where
  "read_triton env cfg st =
     (let (a, st1) = get_client NewClient_triton (tritonEndpoint cfg) st;
          c = objects st1 ! a;
          (r, c') = Scrape_triton (http_get env (endpoint_t c)) (scrape_now env) c
      in (res_bind (map_err TritonFailed r) (\<lambda>m. Inr (triton_value cfg m)), update_client a c' st1))"

lemma store_okD: "store_ok st \<Longrightarrow> directory st e = Some a \<Longrightarrow> a < length (objects st)"
  by (auto simp: store_ok_def ran_def)

lemma store_ok_same: "store_ok st \<Longrightarrow> directory st e = Some a \<Longrightarrow> directory st e' = Some a \<Longrightarrow> e = e'"
  by (auto simp: store_ok_def inj_on_def dom_def)

lemma get_client_store:
  assumes "store_ok st" "get_client new e st = (a, st')"
  shows "store_ok st'" "directory st' e = Some a"
proof -
  show "directory st' e = Some a" using assms(2) by (auto simp: get_client_def split: option.splits)
  show "store_ok st'"
  proof (cases "directory st e")
    case None
    then have st': "st' = \<lparr>directory = (directory st)(e \<mapsto> length (objects st)), objects = objects st @ [new e]\<rparr>"
      using assms(2) by (auto simp: get_client_def)
    have "ran (directory st) \<subseteq> {..<length (objects st)}" using assms(1) by (simp add: store_ok_def)
    then show ?thesis
      using None assms(1) by (fastforce simp: st' store_ok_def inj_on_def ran_def split: if_splits)
  qed (use assms in \<open>simp add: get_client_def\<close>)
qed

lemma update_client_store:
  "store_ok st \<Longrightarrow> store_ok (update_client a c st)" "directory (update_client a c st) = directory st"
  by (simp_all add: update_client_def store_ok_def)

lemma look_update:
  assumes "store_ok st" "directory st e = Some a"
  shows "look (update_client a c st) = (look st)(e \<mapsto> c)"
proof
  fix e'
  show "look (update_client a c st) e' = ((look st)(e \<mapsto> c)) e'"
    using store_okD [OF assms] store_ok_same [OF assms(1,2), of e'] assms(2)
    by (cases "directory st e'") (auto simp: look_def update_client_def nth_list_update)
qed

context client_cache
begin

lemma heap_get:
  assumes "store_ok st" "get_client fresh e st = (a, st')"
  shows "get e (look st) = (objects st' ! a, look st')"
proof (cases "directory st e")
  case None
  then have st': "st' = \<lparr>directory = (directory st)(e \<mapsto> length (objects st)), objects = objects st @ [fresh e]\<rparr>"
    "a = length (objects st)" using assms(2) by (auto simp: get_client_def)
  have "look st' = (look st)(e \<mapsto> fresh e)"
  proof
    fix x show "look st' x = ((look st)(e \<mapsto> fresh e)) x"
      using store_okD [OF assms(1), of x] by (cases "directory st x") (auto simp: look_def st' nth_append)
  qed
  then show ?thesis using None miss [of "look st" e] by (simp add: look_def st'(2)) (simp add: st'(1))
next
  case (Some b)
  then show ?thesis using assms(2) hit [of "look st" e] by (simp add: get_client_def look_def)
qed

end

section \<open>Calls side by side\<close>

text \<open>A call that looks its endpoint up, has missed it, is storing a new client, or holds one.\<close>

datatype task_state =
    Looking string
  | Missed string
  | Storing string nat
  | Holding string nat

record 'c sharing =
  store :: "'c client_store"
  tasks :: "task_state list"
  crashed :: bool

fun reads_map :: "task_state \<Rightarrow> bool" where
  "reads_map (Looking e) = True"
| "reads_map _ = False"

fun writes_map :: "task_state \<Rightarrow> bool" where
  "writes_map (Storing e a) = True"
| "writes_map _ = False"

text \<open>The steps of calls for endpoints in \<open>E\<close>; \<open>upd\<close> says how a use changes a client.\<close>

inductive map_step :: "(string \<Rightarrow> 'c) \<Rightarrow> ('c \<Rightarrow> 'c \<Rightarrow> bool) \<Rightarrow> string set \<Rightarrow> 'c sharing \<Rightarrow> 'c sharing \<Rightarrow> bool"
  for new upd E where
  look_up: "e \<in> E \<Longrightarrow> \<not> crashed w \<Longrightarrow>
     map_step new upd E w (w\<lparr>tasks := tasks w @ [Looking e], crashed := list_ex writes_map (tasks w)\<rparr>)"
| found: "i < length (tasks w) \<Longrightarrow> tasks w ! i = Looking e \<Longrightarrow> \<not> crashed w \<Longrightarrow> directory (store w) e = Some a \<Longrightarrow>
     map_step new upd E w (w\<lparr>tasks := (tasks w)[i := Holding e a]\<rparr>)"
| missing: "i < length (tasks w) \<Longrightarrow> tasks w ! i = Looking e \<Longrightarrow> \<not> crashed w \<Longrightarrow> directory (store w) e = None \<Longrightarrow>
     map_step new upd E w (w\<lparr>tasks := (tasks w)[i := Missed e]\<rparr>)"
| create: "i < length (tasks w) \<Longrightarrow> tasks w ! i = Missed e \<Longrightarrow> \<not> crashed w \<Longrightarrow>
     map_step new upd E w (w\<lparr>store := (store w)\<lparr>objects := objects (store w) @ [new e]\<rparr>,
       tasks := (tasks w)[i := Storing e (length (objects (store w)))],
       crashed := list_ex (\<lambda>t. reads_map t \<or> writes_map t) (tasks w)\<rparr>)"
| stored: "i < length (tasks w) \<Longrightarrow> tasks w ! i = Storing e a \<Longrightarrow> \<not> crashed w \<Longrightarrow>
     map_step new upd E w (w\<lparr>store := (store w)\<lparr>directory := (directory (store w))(e \<mapsto> a)\<rparr>,
       tasks := (tasks w)[i := Holding e a]\<rparr>)"
| used: "i < length (tasks w) \<Longrightarrow> tasks w ! i = Holding e a \<Longrightarrow> \<not> crashed w \<Longrightarrow> upd (objects (store w) ! a) c \<Longrightarrow>
     map_step new upd E w (w\<lparr>store := update_client a c (store w), tasks := take i (tasks w) @ drop (Suc i) (tasks w)\<rparr>)"

inductive map_reaches :: "(string \<Rightarrow> 'c) \<Rightarrow> ('c \<Rightarrow> 'c \<Rightarrow> bool) \<Rightarrow> string set \<Rightarrow> 'c sharing \<Rightarrow> 'c sharing \<Rightarrow> bool"
  for new upd E w where
  here: "map_reaches new upd E w w"
| onward: "map_reaches new upd E w w' \<Longrightarrow> map_step new upd E w' w'' \<Longrightarrow> map_reaches new upd E w w''"

inductive_cases map_stepE: "map_step new upd E w w'"

text \<open>How the two kinds of clients change.\<close>

definition vllm_use :: "vllm_client \<Rightarrow> vllm_client \<Rightarrow> bool" where
  "vllm_use c c' \<longleftrightarrow> c' = c"

inductive triton_use :: "triton_client \<Rightarrow> triton_client \<Rightarrow> bool" where
  "triton_use c (snd (Scrape_triton reply now c))"

section \<open>Facts\<close>

text \<open>While every endpoint asked for is in the map, no call writes it.\<close>

definition only_reads :: "(string \<rightharpoonup> nat) \<Rightarrow> string set \<Rightarrow> 'c sharing \<Rightarrow> bool" where
  "only_reads d E w \<longleftrightarrow> \<not> crashed w \<and> directory (store w) = d \<and>
     (\<forall>t \<in> set (tasks w). case t of Looking e \<Rightarrow> e \<in> E | Holding e a \<Rightarrow> d e = Some a | _ \<Rightarrow> False)"

lemma only_reads_step:
  assumes "E \<subseteq> dom d" "only_reads d E w" "map_step new upd E w w'"
  shows "only_reads d E w'"
proof -
  have t: "case t of Looking e \<Rightarrow> e \<in> E | Holding e a \<Rightarrow> d e = Some a | _ \<Rightarrow> False" if "t \<in> set (tasks w)" for t
    using assms(2) that by (simp add: only_reads_def)
  from assms(3) show ?thesis
  proof cases
    case (look_up e)
    have "\<not> list_ex writes_map (tasks w)" using t by (fastforce simp: list_ex_iff elim!: writes_map.elims)
    then show ?thesis using assms(2) look_up by (auto simp: only_reads_def)
  next
    case (found i e a)
    then show ?thesis using assms(2) by (auto simp: only_reads_def dest!: set_update_subset_insert [THEN subsetD])
  next
    case (missing i e)
    then have "e \<in> E" "directory (store w) = d" using t [OF nth_mem [OF missing(2)]] missing(3) assms(2) by (auto simp: only_reads_def)
    then show ?thesis using missing assms(1) by auto
  next
    case (create i e)
    then show ?thesis using t [OF nth_mem [OF create(2)]] by simp
  next
    case (stored i e a)
    then show ?thesis using t [OF nth_mem [OF stored(2)]] by simp
  next
    case (used i e a c)
    then show ?thesis using assms(2)
      by (auto simp: only_reads_def update_client_store(2) dest: in_set_takeD in_set_dropD)
  qed
qed

lemma only_reads_reached:
  "map_reaches new upd E w w' \<Longrightarrow> E \<subseteq> dom d \<Longrightarrow> only_reads d E w \<Longrightarrow> only_reads d E w'"
  by (induction rule: map_reaches.induct) (auto intro: only_reads_step)

text \<open>Many readings in turn.\<close>

fun in_turn :: "('q \<Rightarrow> 's \<Rightarrow> 'r \<times> 's) \<Rightarrow> 'q list \<Rightarrow> 's \<Rightarrow> 'r list \<times> 's" where
  "in_turn f [] s = ([], s)"
| "in_turn f (q # qs) s = (case f q s of (r, s') \<Rightarrow> (case in_turn f qs s' of (rs, s'') \<Rightarrow> (r # rs, s'')))"

lemma read_triton_refines:
  assumes "store_ok st" "read_triton env cfg st = (r, st')"
  shows "store_ok st'" "getTritonMetricValue env cfg (s\<lparr>tritonClients := look st\<rparr>) = (r, s\<lparr>tritonClients := look st'\<rparr>)"
proof -
  obtain a st1 where g: "get_client NewClient_triton (tritonEndpoint cfg) st = (a, st1)"
    by (cases "get_client NewClient_triton (tritonEndpoint cfg) st")
  let ?c = "objects st1 ! a"
  obtain x c' where x: "Scrape_triton (http_get env (endpoint_t ?c)) (scrape_now env) ?c = (x, c')"
    by (cases "Scrape_triton (http_get env (endpoint_t ?c)) (scrape_now env) ?c")
  have r: "r = res_bind (map_err TritonFailed x) (\<lambda>m. Inr (triton_value cfg m))" "st' = update_client a c' st1"
    using assms(2) by (simp_all add: read_triton_def g x)
  note ok = get_client_store [OF assms(1) g]
  show "store_ok st'" using ok(1) by (simp add: r(2) update_client_store(1))
  show "getTritonMetricValue env cfg (s\<lparr>tritonClients := look st\<rparr>) = (r, s\<lparr>tritonClients := look st'\<rparr>)"
    using triton_cache.heap_get [OF assms(1) g] x
    by (simp add: getTritonMetricValue_def r look_update [OF ok])
qed

lemma in_turn_refines:
  "store_ok st \<Longrightarrow>
   in_turn (\<lambda>(env, cfg). getTritonMetricValue env cfg) qs (s\<lparr>tritonClients := look st\<rparr>) =
     (fst (in_turn (\<lambda>(env, cfg). read_triton env cfg) qs st),
      s\<lparr>tritonClients := look (snd (in_turn (\<lambda>(env, cfg). read_triton env cfg) qs st))\<rparr>)"
proof (induction qs arbitrary: st)
  case (Cons q qs)
  obtain env cfg where q: "q = (env, cfg)" by (cases q)
  obtain r st' where r: "read_triton env cfg st = (r, st')" by (cases "read_triton env cfg st")
  show ?case
    using Cons.IH [OF read_triton_refines(1) [OF Cons.prems r]] read_triton_refines(2) [OF Cons.prems r, of s]
    by (simp add: q r case_prod_beta)
qed simp

lemma in_turn_snoc: "snd (in_turn f (qs @ [q]) s) = snd (f q (snd (in_turn f qs s)))"
  by (induction qs arbitrary: s) (simp_all add: case_prod_beta)

text \<open>What one request to an endpoint yields when it succeeds: both counters as the body's lines add
  up to them, and the time.\<close>

definition success_of :: "call_env \<Rightarrow> string \<Rightarrow> (f64 \<times> f64 \<times> gotime) option" where
  "success_of env e = (case http_get env e of
     TransportError x \<Rightarrow> None
   | Reply status body rerr \<Rightarrow> (case scan_lines body rerr of
       (ls, None) \<Rightarrow> if status = 200
         then Some (total_of (samples parseLine_triton [''nv_inference_count''] ls),
           total_of (samples parseLine_triton [''nv_inference_queue_duration_us''] ls), scrape_now env)
         else None
     | (ls, Some err) \<Rightarrow> None))"

text \<open>The successes of the readings for an endpoint, among those for others.\<close>

definition successes :: "(call_env \<times> scaler_config) list \<Rightarrow> string \<Rightarrow> (f64 \<times> f64 \<times> gotime) list" where
  "successes qs e = List.map_filter (\<lambda>(env, cfg). if tritonEndpoint cfg = e then success_of env e else None) qs"

lemma successes_snoc: "successes [] e = []"
  "successes (qs @ [(env, cfg)]) e = successes qs e @
     (if tritonEndpoint cfg = e then (case success_of env e of None \<Rightarrow> [] | Some x \<Rightarrow> [x]) else [])"
  by (simp_all add: successes_def map_filter_simps map_filter_def split: option.split)

text \<open>A client that holds the last of the successes.\<close>

definition holds_last :: "(f64 \<times> f64 \<times> gotime) list \<Rightarrow> triton_client \<Rightarrow> bool" where
  "holds_last xs c \<longleftrightarrow> (if xs = [] then \<not> havePrev c
     else havePrev c \<and> (prevInferenceCnt c, prevQueueDurUs c, prevScrapeTime c) = last xs)"

lemma scrape_failed:
  "success_of env e = None \<Longrightarrow> \<exists>x. Scrape_triton (http_get env e) now c = (Inl x, c)"
  by (cases "http_get env e") (auto simp: success_of_def Scrape_triton_def parseMetrics_triton_def status_ok_def
      split: prod.splits option.splits if_splits)

lemma scrape_succeeded:
  assumes "success_of env e = Some (n, q, now)"
  shows "now = scrape_now env"
    "\<exists>raw. InferenceCount raw = n \<and> QueueDurationUs raw = q \<and> AvgQueueWaitUs raw = f64_of_nat 0 \<and>
      RequestRatePerSec raw = f64_of_nat 0 \<and> Scrape_triton (http_get env e) now c =
       (Inr (derive_fields c now raw), c\<lparr>prevInferenceCnt := n, prevQueueDurUs := q, prevScrapeTime := now, havePrev := True\<rparr>)"
proof -
  obtain body rerr ls where r: "http_get env e = Reply 200 body rerr" "scan_lines body rerr = (ls, None)"
    and v: "n = total_of (samples parseLine_triton [''nv_inference_count''] ls)"
      "q = total_of (samples parseLine_triton [''nv_inference_queue_duration_us''] ls)" "now = scrape_now env"
    using assms by (auto simp: success_of_def split: http_reply.splits prod.splits option.splits if_splits)
  then show "now = scrape_now env" by simp
  obtain raw where "triton_reads ls raw" "Scrape_triton (Reply 200 body rerr) now c = (let (m, c') = applyDerived now raw c in (Inr m, c'))"
    using scrape_reply [OF r(2), of now c] by blast
  then show "\<exists>raw. InferenceCount raw = n \<and> QueueDurationUs raw = q \<and> AvgQueueWaitUs raw = f64_of_nat 0 \<and>
      RequestRatePerSec raw = f64_of_nat 0 \<and> Scrape_triton (http_get env e) now c =
       (Inr (derive_fields c now raw), c\<lparr>prevInferenceCnt := n, prevQueueDurUs := q, prevScrapeTime := now, havePrev := True\<rparr>)"
    by (intro exI [of _ raw]) (simp add: r(1) v triton_reads_def applyDerived_def Let_def)
qed

text \<open>A reading goes through the client of its endpoint, old or new.\<close>

definition client_for :: "triton_client client_store \<Rightarrow> string \<Rightarrow> triton_client" where
  "client_for st e = (case look st e of None \<Rightarrow> NewClient_triton e | Some c \<Rightarrow> c)"

lemma read_triton_client:
  assumes "store_ok st" "read_triton env cfg st = (r, st')" "endpoint_t (client_for st (tritonEndpoint cfg)) = tritonEndpoint cfg"
    and "Scrape_triton (http_get env (tritonEndpoint cfg)) (scrape_now env) (client_for st (tritonEndpoint cfg)) = (x, c')"
  shows "r = res_bind (map_err TritonFailed x) (\<lambda>m. Inr (triton_value cfg m))"
    "store_ok st'" "look st' = (look st)(tritonEndpoint cfg \<mapsto> c')"
proof -
  have "getTritonClient e (look st) = (client_for st e, (look st)(e \<mapsto> client_for st e))" for e
    by (auto simp: getTritonClient_def client_for_def split: option.split)
  then have "getTritonMetricValue env cfg (s\<lparr>tritonClients := look st\<rparr>) =
      (res_bind (map_err TritonFailed x) (\<lambda>m. Inr (triton_value cfg m)), s\<lparr>tritonClients := (look st)(tritonEndpoint cfg \<mapsto> c')\<rparr>)"
    for s :: "unit scaler"
    using assms(3,4) by (simp add: getTritonMetricValue_def)
  with read_triton_refines(2) [OF assms(1,2), of undefined]
  show "r = res_bind (map_err TritonFailed x) (\<lambda>m. Inr (triton_value cfg m))" "look st' = (look st)(tritonEndpoint cfg \<mapsto> c')"
    by (metis Pair_inject, metis Pair_inject scaler.select_convs scaler.update_convs scaler.surjective)
  show "store_ok st'" by (rule read_triton_refines(1) [OF assms(1,2)])
qed

definition remembers :: "triton_client client_store \<Rightarrow> (call_env \<times> scaler_config) list \<Rightarrow> bool" where
  "remembers st qs \<longleftrightarrow> store_ok st \<and> (\<forall>e. endpoint_t (client_for st e) = e \<and> holds_last (successes qs e) (client_for st e))"

lemma read_remembers:
  assumes "remembers st qs"
  shows "remembers (snd (read_triton env cfg st)) (qs @ [(env, cfg)])"
proof -
  obtain r st' where st': "read_triton env cfg st = (r, st')" by (cases "read_triton env cfg st")
  let ?e = "tritonEndpoint cfg" and ?c = "client_for st (tritonEndpoint cfg)"
  obtain x c' where x: "Scrape_triton (http_get env ?e) (scrape_now env) ?c = (x, c')"
    by (cases "Scrape_triton (http_get env ?e) (scrape_now env) ?c")
  have ok: "store_ok st" "endpoint_t ?c = ?e" using assms by (auto simp: remembers_def)
  note rd = read_triton_client [OF ok(1) st' ok(2) x]
  have c: "client_for st' e = (if e = ?e then c' else client_for st e)" for e
    by (simp add: client_for_def rd(3))
  have "endpoint_t c' = ?e \<and> holds_last (successes (qs @ [(env, cfg)]) ?e) c'"
  proof (cases "success_of env ?e")
    case None
    then show ?thesis using scrape_failed [OF None, of "scrape_now env" ?c] x assms
      by (auto simp: successes_snoc remembers_def)
  next
    case (Some y)
    obtain n q now where y: "y = (n, q, now)" by (cases y)
    note ss = scrape_succeeded [OF Some [unfolded y]]
    show ?thesis using ss(1) ss(2) [of ?c] x ok(2)
      by (auto simp: successes_snoc Some y holds_last_def)
  qed
  moreover have "endpoint_t (client_for st e) = e \<and> holds_last (successes (qs @ [(env, cfg)]) e) (client_for st e)" if "e \<noteq> ?e" for e
    using assms that by (auto simp: remembers_def successes_snoc)
  ultimately show ?thesis using rd(2) by (simp add: remembers_def st' c)
qed

lemma in_turn_remembers: "remembers (snd (in_turn (\<lambda>(env, cfg). read_triton env cfg) qs empty_store)) qs"
proof (induction qs rule: rev_induct)
  case Nil
  then show ?case
    by (simp add: remembers_def store_ok_def empty_store_def client_for_def look_def NewClient_triton_def holds_last_def successes_snoc)
next
  case (snoc q qs)
  then show ?case using read_remembers by (cases q) (simp add: in_turn_snoc)
qed


text \<open>The derived value that the last success and a new one give.\<close>

lemma derived_nat:
  assumes "holds_last xs c" "xs \<noteq> []" "last xs = (f64_of_nat n0, f64_of_nat q0, t0)"
    and "InferenceCount raw = f64_of_nat n1" "QueueDurationUs raw = f64_of_nat q1"
    and "AvgQueueWaitUs raw = f64_of_nat 0" "RequestRatePerSec raw = f64_of_nat 0"
    and "n0 \<le> 2 ^ 53" "n1 \<le> 2 ^ 53" "q0 \<le> 2 ^ 53" "q1 \<le> 2 ^ 53"
  shows "AvgQueueWaitUs (derive_fields c now raw) =
      (if n0 < n1 \<and> q0 < q1 then f64_of_ratio (q1 - q0) (n1 - n0) else f64_of_nat 0)"
    "RequestRatePerSec (derive_fields c now raw) =
      (if n0 < n1 \<and> f64_lt (f64_of_nat 0) (in_seconds (time_sub now t0))
       then f64_div (f64_of_nat (n1 - n0)) (in_seconds (time_sub now t0)) else f64_of_nat 0)"
proof -
  have c: "havePrev c" "prevInferenceCnt c = f64_of_nat n0" "prevQueueDurUs c = f64_of_nat q0" "prevScrapeTime c = t0"
    using assms(1-3) by (simp_all add: holds_last_def)
  have diff: "f64_lt (f64_of_nat 0) (f64_sub (f64_of_nat b) (f64_of_nat a)) \<longleftrightarrow> a < b"
    "a < b \<Longrightarrow> f64_sub (f64_of_nat b) (f64_of_nat a) = f64_of_nat (b - a)" if "a \<le> 2 ^ 53" "b \<le> 2 ^ 53" for a b
    using that f64_sub_of_nat [of a b] f64_sub_not_pos [of "f64_of_nat a" "f64_of_nat b"] f64_of_nat_lt_iff [OF that]
    by (cases "a < b"; simp)+
  note n = diff [OF assms(8,9)] and q = diff [OF assms(10,11)]
  have "f64_div (f64_of_nat (q1 - q0)) (f64_of_nat (n1 - n0)) = f64_of_ratio (q1 - q0) (n1 - n0)" if "n0 < n1"
    by (rule f64_div_of_nat) (use assms(8-11) that in simp_all)
  then show "AvgQueueWaitUs (derive_fields c now raw) =
      (if n0 < n1 \<and> q0 < q1 then f64_of_ratio (q1 - q0) (n1 - n0) else f64_of_nat 0)"
    "RequestRatePerSec (derive_fields c now raw) =
      (if n0 < n1 \<and> f64_lt (f64_of_nat 0) (in_seconds (time_sub now t0))
       then f64_div (f64_of_nat (n1 - n0)) (in_seconds (time_sub now t0)) else f64_of_nat 0)"
    using n q by (simp_all add: derive_fields_def Let_def c assms(4-7))
qed

lemma calm:
  "\<not> crashed w \<Longrightarrow> w\<lparr>tasks := ts, crashed := False\<rparr> = w\<lparr>tasks := ts\<rparr>"
  "\<not> crashed w \<Longrightarrow> w\<lparr>store := st, tasks := ts, crashed := False\<rparr> = w\<lparr>store := st, tasks := ts\<rparr>"
  by (cases w; simp)+

text \<open>Two calls that both look up before either stores.\<close>

lemma two_calls_miss:
  assumes "tasks w = []" "\<not> crashed w" "e \<in> E" "e' \<in> E" "directory (store w) e = None" "directory (store w) e' = None"
  shows "map_reaches new upd E w (w\<lparr>tasks := [Missed e, Looking e']\<rparr>)"
    "map_reaches new upd E w (w\<lparr>tasks := [Missed e, Missed e']\<rparr>)"
proof -
  let ?w1 = "w\<lparr>tasks := [Looking e]\<rparr>" and ?w2 = "w\<lparr>tasks := [Missed e]\<rparr>"
    and ?w3 = "w\<lparr>tasks := [Missed e, Looking e']\<rparr>" and ?w4 = "w\<lparr>tasks := [Missed e, Missed e']\<rparr>"
  have c: "w\<lparr>crashed := False\<rparr> = w" using assms(2) by simp
  have 1: "map_step new upd E w ?w1" using map_step.look_up [OF assms(3,2)] assms(1,2) by (simp add: calm)
  have 2: "map_step new upd E ?w1 ?w2" using map_step.missing [of 0 ?w1 e] assms(2,5) by simp
  have 3: "map_step new upd E ?w2 ?w3" using map_step.look_up [OF assms(4), of ?w2] assms(2) by (simp add: calm)
  have 4: "map_step new upd E ?w3 ?w4" using map_step.missing [of 1 ?w3 e'] assms(2,6) by simp
  show three: "map_reaches new upd E w ?w3"
    by (rule map_reaches.onward [OF map_reaches.onward [OF map_reaches.onward [OF map_reaches.here 1] 2] 3])
  show "map_reaches new upd E w ?w4" by (rule map_reaches.onward [OF three 4])
qed

section \<open>Properties\<close>

text \<open>
  Pointers and values.  Any sequence of Triton readings, for any objects, gives the same results over
  the store of objects that pointers lead to as over the map of values the handlers are modelled with.\<close>

theorem pointers_refine_values:
  "fst (in_turn (\<lambda>(env, cfg). read_triton env cfg) qs empty_store) =
   fst (in_turn (\<lambda>(env, cfg). getTritonMetricValue env cfg) qs (NewGPUExternalScaler c))"
proof -
  have "NewGPUExternalScaler c = (NewGPUExternalScaler c)\<lparr>tritonClients := look empty_store\<rparr>"
    by (simp add: NewGPUExternalScaler_def look_def empty_store_def fun_eq_iff)
  moreover have "store_ok empty_store" by (simp add: store_ok_def empty_store_def)
  ultimately show ?thesis using in_turn_refines [of empty_store qs "NewGPUExternalScaler c"] by (metis fst_conv)
qed

text \<open>C35
  What a Triton reading reports after any sequence of readings of any endpoints, through the clients
  that the scaler's map points to.  It fails if its request fails.  Otherwise it compares the two
  counters, summed over the lines of the reply, with those of the last success for the same endpoint,
  whatever failed or was read elsewhere since, and reports 0 if there was none.  For counts up to 2^53
  the average wait is the correctly rounded quotient of the differences, over 1000 for milliseconds,
  and the rate the difference over the time between the two successes, each 0 where a difference or
  that time is not positive.\<close>

theorem triton_reading_exact:
  assumes "r = fst (read_triton env cfg (snd (in_turn (\<lambda>(env, cfg). read_triton env cfg) qs empty_store)))"
    and "IsTritonMetric (metricType cfg)"
  shows "(success_of env (tritonEndpoint cfg) = None \<longrightarrow> (\<exists>x. r = Inl (TritonFailed x))) \<and>
    (\<forall>y. success_of env (tritonEndpoint cfg) = Some y \<longrightarrow> successes qs (tritonEndpoint cfg) = [] \<longrightarrow> r = Inr (f64_of_nat 0)) \<and>
    (\<forall>n0 q0 t0 n1 q1 t1. success_of env (tritonEndpoint cfg) = Some (f64_of_nat n1, f64_of_nat q1, t1) \<longrightarrow>
       successes qs (tritonEndpoint cfg) \<noteq> [] \<longrightarrow> last (successes qs (tritonEndpoint cfg)) = (f64_of_nat n0, f64_of_nat q0, t0) \<longrightarrow>
       n0 \<le> 2 ^ 53 \<longrightarrow> n1 \<le> 2 ^ 53 \<longrightarrow> q0 \<le> 2 ^ 53 \<longrightarrow> q1 \<le> 2 ^ 53 \<longrightarrow>
       r = Inr (if metricType cfg = MetricTritonQueueWaitMs
         then (if n0 < n1 \<and> q0 < q1 then f64_div (f64_of_ratio (q1 - q0) (n1 - n0)) (f64_of_nat 1000) else f64_of_nat 0)
         else (if n0 < n1 \<and> f64_lt (f64_of_nat 0) (in_seconds (time_sub t1 t0))
           then f64_div (f64_of_nat (n1 - n0)) (in_seconds (time_sub t1 t0)) else f64_of_nat 0)))"
proof -
  let ?e = "tritonEndpoint cfg" and ?st = "snd (in_turn (\<lambda>(env, cfg). read_triton env cfg) qs empty_store)"
  let ?c = "client_for ?st ?e"
  have st: "store_ok ?st" "endpoint_t ?c = ?e" and h: "holds_last (successes qs ?e) ?c"
    using in_turn_remembers [of qs] by (auto simp: remembers_def)
  obtain st' where rd: "read_triton env cfg ?st = (r, st')" unfolding assms(1) by (cases "read_triton env cfg ?st") simp
  note r = read_triton_client(1) [OF st(1) rd st(2)]
  have z: "f64_div (f64_of_nat 0) (f64_of_nat 1000) = f64_of_nat 0"
    using f64_div_of_nat [of 0 1000] f64_of_ratio_nat [of 1000 0] by simp
  have fails: "\<exists>x. r = Inl (TritonFailed x)" if "success_of env ?e = None"
    using scrape_failed [OF that, of "scrape_now env" ?c] r by auto
  have first: "r = Inr (f64_of_nat 0)" if y: "success_of env ?e = Some y" and none: "successes qs ?e = []" for y
  proof -
    obtain n q now where y': "success_of env ?e = Some (n, q, now)" using y by (cases y) simp
    have "derive_fields ?c now raw = raw" for now raw using h none by (simp add: derive_fields_def holds_last_def)
    then show ?thesis using scrape_succeeded(1) [OF y'] scrape_succeeded(2) [OF y', of ?c] r
      by (auto simp: triton_value_def z)
  qed
  have exact: "r = Inr (if metricType cfg = MetricTritonQueueWaitMs
         then (if n0 < n1 \<and> q0 < q1 then f64_div (f64_of_ratio (q1 - q0) (n1 - n0)) (f64_of_nat 1000) else f64_of_nat 0)
         else (if n0 < n1 \<and> f64_lt (f64_of_nat 0) (in_seconds (time_sub t1 t0))
           then f64_div (f64_of_nat (n1 - n0)) (in_seconds (time_sub t1 t0)) else f64_of_nat 0))"
    if s: "success_of env ?e = Some (f64_of_nat n1, f64_of_nat q1, t1)"
      and l: "successes qs ?e \<noteq> []" "last (successes qs ?e) = (f64_of_nat n0, f64_of_nat q0, t0)"
      and b: "n0 \<le> 2 ^ 53" "n1 \<le> 2 ^ 53" "q0 \<le> 2 ^ 53" "q1 \<le> 2 ^ 53" for n0 q0 t0 n1 q1 t1
  proof -
    obtain raw where raw: "InferenceCount raw = f64_of_nat n1" "QueueDurationUs raw = f64_of_nat q1"
        "AvgQueueWaitUs raw = f64_of_nat 0" "RequestRatePerSec raw = f64_of_nat 0"
      and x: "fst (Scrape_triton (http_get env ?e) t1 ?c) = Inr (derive_fields ?c t1 raw)"
      using scrape_succeeded(2) [OF s, of ?c] by auto
    have "r = Inr (triton_value cfg (derive_fields ?c t1 raw))"
      using r [of "fst (Scrape_triton (http_get env ?e) t1 ?c)"] x scrape_succeeded(1) [OF s]
      by (metis map_err_simps(2) prod.collapse res_bind_simps(2))
    then show ?thesis
      using assms(2) unfolding IsTritonMetric_def derived_nat [OF h l raw b] triton_value_def
      by (elim disjE) (auto simp: z)
  qed
  show ?thesis using fails first exact by blast
qed


text \<open>Four seconds between an empty reply and the sample one, a failed request and one elsewhere in between.\<close>

definition wait_config :: scaler_config where
  "wait_config = default_config\<lparr>metricType := MetricTritonQueueWaitMs, tritonEndpoint := ''http://v:80''\<rparr>"

definition reply_at :: "int \<Rightarrow> http_reply \<Rightarrow> call_env" where
  "reply_at t reply = \<lparr>http_get = \<lambda>_. reply, scrape_now = \<lparr>wall = t, mono = Some t\<rparr>, cooldown_now = \<lparr>wall = t, mono = Some t\<rparr>\<rparr>"

lemma demo_totals:
  "total_of (samples parseLine_triton [''nv_inference_count''] (fst (scan_lines demo_body None))) = f64_of_nat 30"
  "total_of (samples parseLine_triton [''nv_inference_queue_duration_us''] (fst (scan_lines demo_body None))) = f64_of_nat 900"
proof -
  have "triton_reads (fst (scan_lines demo_body None)) (fst (parseMetrics_triton demo_body None))"
    using triton_fold_reads [of "fst (scan_lines demo_body None)"] by (simp add: parseMetrics_triton_def case_prod_beta Let_def)
  then show "total_of (samples parseLine_triton [''nv_inference_count''] (fst (scan_lines demo_body None))) = f64_of_nat 30"
    "total_of (samples parseLine_triton [''nv_inference_queue_duration_us''] (fst (scan_lines demo_body None))) = f64_of_nat 900"
    unfolding demo_metrics triton_reads_def by (simp_all add: zero_triton_metrics_def)
qed

lemma triton_reading_exact_witness:
  "fst (read_triton (reply_at 5000000000 (Reply 200 demo_body None)) wait_config (snd (in_turn (\<lambda>(env, cfg). read_triton env cfg)
     [(reply_at 1000000000 (Reply 200 [] None), wait_config),
      (reply_at 2000000000 (Reply 200 demo_body None), wait_config\<lparr>tritonEndpoint := ''http://u:80''\<rparr>),
      (reply_at 3000000000 (TransportError ''refused''), wait_config)] empty_store))) =
   Inr (f64_div (f64_of_ratio 900 30) (f64_of_nat 1000))"
  (is "fst (read_triton ?env ?cfg (snd (in_turn ?f ?qs empty_store))) = _")
proof -
  have c: "metricType ?cfg = MetricTritonQueueWaitMs" "tritonEndpoint ?cfg = ''http://v:80''" "IsTritonMetric (metricType ?cfg)"
    by (simp_all add: wait_config_def IsTritonMetric_def)
  have "success_of ?env ''http://v:80'' = Some (f64_of_nat 30, f64_of_nat 900, scrape_now ?env)"
    using demo_totals by (simp add: success_of_def reply_at_def demo_lines)
  moreover have none: "success_of (reply_at 3000000000 (TransportError ''refused'')) ''http://v:80'' = None"
    by (simp add: success_of_def reply_at_def)
  moreover have "success_of (reply_at 1000000000 (Reply 200 [] None)) ''http://v:80'' =
      Some (f64_of_nat 0, f64_of_nat 0, \<lparr>wall = 1000000000, mono = Some 1000000000\<rparr>)"
    by (simp add: success_of_def reply_at_def scan_lines_def max_token_def)
  moreover have "successes ?qs ''http://v:80'' = [(f64_of_nat 0, f64_of_nat 0, \<lparr>wall = 1000000000, mono = Some 1000000000\<rparr>)]"
    using calculation(3) by (simp add: successes_def List.map_filter_def c none)
  ultimately show ?thesis
    using triton_reading_exact [OF refl c(3), of ?env ?qs] by (simp add: c)
qed

text \<open>
  When the maps of clients are safe without a lock.  If all endpoints that calls ask for are in
  the map already, no interleaving of any number of calls races: nothing crashes, and the map stays as it is.\<close>

theorem cached_calls_never_race:
  assumes "tasks w = []" "\<not> crashed w" "E \<subseteq> dom (directory (store w))" "map_reaches new upd E w w'"
  shows "\<not> crashed w' \<and> directory (store w') = directory (store w)"
  using only_reads_reached [OF assms(4,3)] assms(1,2) by (simp add: only_reads_def)

text \<open>C37
  First calls race.  Two calls for endpoints that are not in the map yet, the same or two, can overlap
  so that one stores while the other looks up, which ends the process.  And two for the same
  endpoint that do not overlap there can get a client each; what the first then learns of the
  counters never reaches the map.\<close>

theorem first_calls_race:
  assumes "tasks w = []" "\<not> crashed w" "e \<in> E" "e' \<in> E" "directory (store w) e = None" "directory (store w) e' = None"
  shows "(\<exists>w'. map_reaches new upd E w w' \<and> crashed w') \<and>
    (\<exists>w' a b. map_reaches new upd E w w' \<and> \<not> crashed w' \<and> tasks w' = [Holding e a, Holding e b] \<and>
       (\<forall>c. look (update_client a c (store w')) e = look (store w') e))"
proof
  have "map_step new upd E (w\<lparr>tasks := [Missed e, Looking e']\<rparr>)
      (w\<lparr>store := (store w)\<lparr>objects := objects (store w) @ [new e]\<rparr>,
         tasks := [Storing e (length (objects (store w))), Looking e'], crashed := True\<rparr>)"
    using map_step.create [of 0 "w\<lparr>tasks := [Missed e, Looking e']\<rparr>" e] assms(2) by simp
  from map_reaches.onward [OF two_calls_miss(1) [OF assms] this]
  show "\<exists>w'. map_reaches new upd E w w' \<and> crashed w'" by fastforce
next
  obtain d os where st: "store w = \<lparr>directory = d, objects = os\<rparr>" by (cases "store w") simp
  define n where "n = length os"
  define w4 where "w4 = w\<lparr>tasks := [Missed e, Missed e]\<rparr>"
  define w5 where "w5 = w\<lparr>store := \<lparr>directory = d, objects = os @ [new e]\<rparr>, tasks := [Storing e n, Missed e]\<rparr>"
  define w6 where "w6 = w\<lparr>store := \<lparr>directory = d(e \<mapsto> n), objects = os @ [new e]\<rparr>, tasks := [Holding e n, Missed e]\<rparr>"
  define w7 where "w7 = w\<lparr>store := \<lparr>directory = d(e \<mapsto> n), objects = os @ [new e, new e]\<rparr>,
    tasks := [Holding e n, Storing e (Suc n)]\<rparr>"
  define w8 where "w8 = w\<lparr>store := \<lparr>directory = d(e \<mapsto> Suc n), objects = os @ [new e, new e]\<rparr>,
    tasks := [Holding e n, Holding e (Suc n)]\<rparr>"
  have 4: "map_reaches new upd E w w4"
    unfolding w4_def by (rule two_calls_miss(2) [OF assms(1-3,3,5,5)])
  have 5: "map_step new upd E w4 w5" using map_step.create [of 0 w4 e new upd E] assms(2) by (simp add: w4_def w5_def n_def st calm)
  have 6: "map_step new upd E w5 w6" using map_step.stored [of 0 w5 e n] assms(2) by (simp add: w5_def w6_def)
  have 7: "map_step new upd E w6 w7" using map_step.create [of 1 w6 e new upd E] assms(2) by (simp add: w6_def w7_def n_def calm)
  have 8: "map_step new upd E w7 w8" using map_step.stored [of 1 w7 e "Suc n"] assms(2) by (simp add: w7_def w8_def)
  have "map_reaches new upd E w w8"
    by (rule map_reaches.onward [OF map_reaches.onward [OF map_reaches.onward [OF map_reaches.onward [OF 4 5] 6] 7] 8])
  moreover have "look (update_client n c (store w8)) e = look (store w8) e" for c
    by (simp add: w8_def look_def update_client_def n_def nth_list_update nth_append)
  ultimately show "\<exists>w' a b. map_reaches new upd E w w' \<and> \<not> crashed w' \<and> tasks w' = [Holding e a, Holding e b] \<and>
       (\<forall>c. look (update_client a c (store w')) e = look (store w') e)"
    using assms(2) by (intro exI [of _ w8] exI [of _ n] exI [of _ "Suc n"]) (simp add: w8_def)
qed

text \<open>No clients yet, and one.\<close>

definition first_sharing :: "triton_client sharing" where
  "first_sharing = \<lparr>store = empty_store, tasks = [], crashed = False\<rparr>"

definition second_sharing :: "triton_client sharing" where
  "second_sharing = \<lparr>store = snd (get_client NewClient_triton ''http://t:80'' empty_store), tasks = [], crashed = False\<rparr>"

lemma cached_calls_never_race_witness:
  "\<not> crashed (second_sharing\<lparr>tasks := [Looking ''http://t:80'', Looking ''http://t:80'']\<rparr>)"
proof -
  let ?E = "{''http://t:80''}" and ?l = "Looking ''http://t:80''"
  have s: "tasks second_sharing = []" "\<not> crashed second_sharing" "?E \<subseteq> dom (directory (store second_sharing))"
    by (auto simp: second_sharing_def get_client_def empty_store_def)
  have 1: "map_step NewClient_triton triton_use ?E second_sharing (second_sharing\<lparr>tasks := [?l]\<rparr>)"
    using map_step.look_up [of "''http://t:80''" ?E second_sharing] by (simp add: second_sharing_def)
  have 2: "map_step NewClient_triton triton_use ?E (second_sharing\<lparr>tasks := [?l]\<rparr>) (second_sharing\<lparr>tasks := [?l, ?l]\<rparr>)"
    using map_step.look_up [of "''http://t:80''" ?E "second_sharing\<lparr>tasks := [?l]\<rparr>"] by (simp add: second_sharing_def)
  show ?thesis
    using cached_calls_never_race [OF s map_reaches.onward [OF map_reaches.onward [OF map_reaches.here 1] 2]] by blast
qed

lemma first_calls_race_witness:
  "\<exists>w'. map_reaches NewClient_triton triton_use UNIV first_sharing w' \<and> crashed w'"
  using first_calls_race [of first_sharing "''http://t:80''" UNIV "''http://u:80''"]
  by (simp add: first_sharing_def empty_store_def)

end
