(* ===== verification/Spec2Isabelle.thy ===== *)
theory Spec2Isabelle
  imports Logging NodeLog Concurrent MigReadings JobReport Web ClientMap
begin

text \<open>
  A verification library for keda-gpu-scaler: the KEDA external scaler that reports GPU
  metrics and the metrics of inference engines (\<open>cmd/keda-gpu-scaler\<close>), and the
  command line tool that prints GPU metrics for HPC jobs (\<open>cmd/gpu-metrics\<close>).

  \<^bold>\<open>The program.\<close>  KEDA calls the four handlers of \<open>GPUExternalScaler\<close>
  (\<open>pkg/scaler/server.go\<close>).  A handler parses the trigger metadata of the scaled object,
  reads one metric, from the collector (\<open>pkg/gpu\<close>) for a device metric or by HTTP from a
  vLLM or Triton server (\<open>pkg/vllm\<close>, \<open>pkg/triton\<close>), and compares or reports it;
  \<open>GetMetrics\<close> holds a falling value back for the object's cooldown.  The collector is a
  variable of an interface type with three implementations: NVML with MIG
  (\<open>pkg/gpu/nvml.go\<close>, \<open>mig.go\<close>), synthetic devices (\<open>mock.go\<close>), and a wrapper that keeps
  Prometheus metrics (\<open>pkg/metrics\<close>).  The daemon also serves a health status
  (\<open>pkg/healthcheck\<close>) and two probes (\<open>pkg/probes\<close>).  The tool finds out under which
  scheduler it runs (\<open>pkg/env\<close>, \<open>pkg/slurm\<close>, \<open>pkg/flux\<close>), reads the job's GPUs with the same
  collector, once or until a signal, and prints them.

  \<^bold>\<open>The standard library.\<close>
  \<^item> \<open>Prelude\<close>: results as sums (\<open>Inl\<close> the error), wrap-around of Go's integers, folds.
  \<^item> \<open>Float64\<close>: IEEE binary64 with round to nearest even, over naturals; \<open>GoStrings\<close>,
    \<open>GoUtf8\<close>, \<open>GoStrconv\<close>, \<open>GoNet\<close>, \<open>GoTime\<close>, \<open>GoOs\<close>: what the program uses of \<open>strings\<close>, \<open>bufio\<close>,
    \<open>unicode/utf8\<close>, \<open>strconv\<close>, \<open>net/url\<close>, \<open>net\<close>, \<open>time\<close> and \<open>os\<close>.  Strings are byte strings.

  \<^bold>\<open>The scaler.\<close>
  \<^item> \<open>Profiles\<close>: \<open>pkg/profiles\<close>.
  \<^item> \<open>Config\<close>: \<open>parseMetadata\<close>, one definition per block of the source.  Its theorems reduce
    it to a condition on each key and an effective configuration (\<open>parse_precedence\<close>), and give
    the invariant of a parsed configuration and the round trip with the text that spells it out.
  \<^item> \<open>Endpoint\<close>: \<open>validateVLLMEndpoint\<close>, what it accepts and what it lets pass.
  \<^item> \<open>Aggregate\<close>: \<open>extractMetric\<close>, \<open>aggregate\<close>, \<open>percentile\<close>; refinement of specifications on
    natural numbers, nearest-rank percentiles.
  \<^item> \<open>Cooldown\<close>: \<open>applyCooldown\<close> as a step on the map of baselines; spacing of scale-downs over
    any interleaving of series, by induction over the run.
  \<^item> \<open>PromText\<close>, \<open>Vllm\<close>, \<open>Triton\<close>, \<open>Engines\<close>: the two scrape clients.  The locale
    \<open>line_reader\<close> states what a line parser does with a line, \<open>client_cache\<close> what the scaler's
    maps of clients do; both clients interpret both.
  \<^item> \<open>Gpu\<close>: the snapshot \<open>metrics\<close>, the interface as the record \<open>metrics_collector\<close> of
    state-passing methods, its contract as the locale \<open>collector\<close>, and the mock collector.
  \<^item> \<open>Scaler\<close>: the scaler's state and its handlers; \<open>scaler_step\<close> and \<open>scaler_reachable\<close> are the
    runs of the service.  \<open>Service\<close>: traces of many calls, streams, and sample data.
  \<^item> \<open>Concurrent\<close>: the same handlers cut into steps where the source gives up a lock, as the
    relation \<open>conc_step\<close> in which calls interleave freely.  The atomic handlers are a special
    case of it; the cooldown holds for every interleaving, and two effects of sharing are shown:
    readings that overtake one another, and Triton readers that take each other's differences.
  \<^item> \<open>Web\<close>: the exchange behind a scrape, with its timeout and redirects, over a web that is a
    parameter: what one reading costs at most, which URLs' answers can matter, and what a redirect
    does to the guard.
  \<^item> \<open>ClientMap\<close>: the maps of clients as pointers into a store of objects, which refine the maps of
    values of \<open>Scaler\<close> while calls come one at a time; what a Triton reading reports after any sequence
    of them, from the replies (\<open>triton_reading_exact\<close>); and calls side by side, with the race on the map.

  \<^bold>\<open>The collectors.\<close>
  \<^item> \<open>Nvml\<close>: over a record of the NVML library's calls, each a computation in the state monad on
    a state of the library's own; the collector interprets \<open>collector\<close>.  The loop over MIG
    instances has no bound in the source: it is a \<open>partial_function\<close>, \<open>None\<close> is a loop that
    never ends, shown as the error \<open>CollectionHangs\<close> of a call that does not return (\<open>exit_status\<close>
    gives a command that does so none), and \<open>collect_all_returns\<close> proves that it ends once handles are
    refused.  \<open>device_answers\<close>, \<open>chip_answers\<close> and \<open>own_share\<close> say of a snapshot that its fields are what
    the driver answered of one handle.
  \<^item> \<open>NodeLog\<close>: \<open>CollectAll\<close> with the warnings it logs, which name exactly the GPUs it leaves out,
    while every entry of the list is tied to the driver's answers for its GPU.
  \<^item> \<open>NodeReadings\<close>: from the driver's answers to the value the scaler reports, on natural numbers, and
    what becomes of answers the driver refuses.
  \<^item> \<open>MigReadings\<close>: the same for nodes with MIG, whose collections have one entry for each instance, and
    what summing chip-level metrics over these entries gives.
  \<^item> \<open>Factory\<close>: vendor detection.  \<open>Instrumented\<close>: the wrapper; its contract follows from the
    inner one's (a \<open>sublocale\<close>), and the locale \<open>collector_view\<close> carries every handler over it.

  \<^bold>\<open>The two commands.\<close>
  \<^item> \<open>Health\<close>: checker and probes.  \<open>Version\<close>: version strings.
  \<^item> \<open>Daemon\<close>: the interface variable as a sum of implementations (\<open>collector_pair\<close>), the start
    of the daemon, \<open>daemon_step\<close> for handler calls and health checks over one collector; and which
    GPU a device metric is read from, for the synthetic devices and for NVML.
    \<open>Shutdown\<close>: the signal, the wait for pending calls, and the deferred calls of \<open>main\<close>.
    \<open>Lifecycle\<close>: the whole process as the relation \<open>process_step\<close> over \<open>main\<close> and its goroutines, with
    fatal exits, panics of handlers and early signals; its first steps are \<open>daemon_main\<close>.
  \<^item> \<open>Logging\<close>: the lines \<open>main\<close> logs up to \<open>Serve\<close> and the handlers with their logger calls, with the
    level filter; the logged handlers compute what the plain ones do.
  \<^item> \<open>Schedulers\<close>, \<open>HpcEnv\<close>: job contexts, with the locale \<open>gpu_list_job\<close> for the list of GPUs
    that SLURM and Flux share, and detection.
  \<^item> \<open>CsvOutput\<close>, \<open>JsonOutput\<close>: both formats with a reader as their specification.  \<open>TableOutput\<close>: the
    table to the character, and where its columns stand.
  \<^item> \<open>GpuMetricsCli\<close>: which GPUs a job is shown, polling, dry run, choice of the output, exit status.
    \<open>JobReport\<close>: a job's report from the driver's answers to the lines that are printed, and how the
    tool ends.

  This theory holds the properties of the service as a whole.  Error values are constructors in
  place of messages.  No fuel is used anywhere.

  \<^bold>\<open>Parameters.\<close>  The NVML library is the record \<open>nvml\<close>; theorems about it assume of it only
  what they name (\<open>refuses_from\<close>: MIG handles are refused from some index on, which NVML documents
  with its maximal instance count; \<open>quiet\<close>: answers do not change meanwhile).  When the gRPC server's
  \<open>Serve\<close> returns is the argument \<open>ret\<close> of \<open>Shutdown\<close>, with its documented behaviour as \<open>graceful\<close>.  HTTP
  replies, clock readings, the process environment, device files, and the renderings \<open>%q\<close> and \<open>%s\<close> of a
  duration are arguments.  The Prometheus client, the gRPC health server and the logger of the
  checker are lists of the calls made to them.

  \<^bold>\<open>Not modelled.\<close>  An access to a map of clients that overlaps a write always counts as a crash,
  though Go's runtime only may notice it.  Interleaving within one collection, what the metrics
  listener serves, connections and name resolution below the HTTP client, the encoding of log lines,
  the lines of \<open>main\<close>'s goroutines and of \<open>gpu-metrics\<close>, the generated protobuf code, and
  tests are left out.
\<close>

section \<open>Properties of the service\<close>

text \<open>C2
  The values a scaler reports are those of the cooldown alone: for any sequence of calls of
  \<open>GetMetrics\<close>, of any objects, in any state and with any collector, the trace of what was read
  and reported is a run of the cooldown on the readings; failed reads leave no mark on it.\<close>

theorem service_refines_cooldown:
  "fst (cooldown_run (map fst (metrics_trace C calls s)) (cooldowns s)) = metrics_trace C calls s"
  by (rule trace_is_cooldown_run)

text \<open>C1
  The service never scales one series down twice within its window.  In the trace of any sequence of
  calls, take what is reported for one series whose calls carry one positive window: two
  reports that are each below the report before them lie at least the window apart.\<close>

theorem service_scale_downs_spaced:
  assumes "tr = metrics_trace C calls s" "steady k d (map fst tr)"
    and "rs = filter (\<lambda>(c, r). cc_key c = k) tr" "i < j" "scaled_down rs i" "scaled_down rs j"
  shows "clock_of (fst (rs ! i)) + d \<le> clock_of (fst (rs ! j))"
proof -
  have "rs = reports k (map fst tr) (cooldowns s)"
    using assms(1,3) by (simp add: reports_def trace_is_cooldown_run)
  then show ?thesis
    using drops_spaced [OF assms(2) _ assms(4), of "f64_of_nat 0" "cooldowns s"] assms(5,6)
    by (simp add: scaled_down_def drop_at_def)
qed

lemma service_scale_downs_spaced_witness:
  "clock_of (fst (demo_trace ! 1)) + seconds 60 \<le> clock_of (fst (demo_trace ! 3))"
  by (rule service_scale_downs_spaced [OF demo_trace_eq [symmetric], of demo_series])
    (simp_all add: demo_trace_def steady_def clock_ok_def is_zero_time_def seconds_max nanos_per_second_def
      scaled_down_def)

text \<open>
  A report goes out under the name that was announced and never below the value read.  When
  \<open>GetMetrics\<close> succeeds, \<open>GetMetricSpec\<close> succeeds for the same object with the same single metric
  name, and the value reported is not below the one read, and equals it when the cooldown is 0.\<close>

theorem report_matches_spec:
  assumes "GetMetrics C env (Some ref) s = (Inr vs, s')"
  shows "\<exists>cfg x v. parseMetadata (scalerMetadata ref) = Inr cfg \<and> fst (getMetricValue C env cfg s) = Inr x \<and>
    GetMetricSpec ref = Inr [(metricName cfg, targetValue cfg)] \<and> vs = [(metricName cfg, v)] \<and>
    \<not> f64_lt v x \<and> (cooldownSeconds cfg = 0 \<longrightarrow> v = x)"
proof (cases rule: GetMetrics_cases [where ref = ref and C = C and env = env and s = s])
  case (ok cfg x s1 v cds)
  let ?d = "seconds (cooldownSeconds cfg)"
  have "\<not> f64_lt v x"
    using step_tracks [of ?d "cooldown_now env" "newCooldownKey ref cfg" x "cooldowns s1"] ok(3)
      cd_off [of ?d "cooldown_now env" "newCooldownKey ref cfg" x "cooldowns s1"]
    by (cases "0 < ?d") auto
  moreover have "v = x" if "cooldownSeconds cfg = 0"
    using that ok(3) cd_off [of ?d "cooldown_now env" "newCooldownKey ref cfg" x "cooldowns s1"]
    by (simp add: seconds_max)
  ultimately show ?thesis using ok assms by (simp add: GetMetricSpec_def)
qed (use assms in simp_all)

lemma report_matches_spec_witness:
  "\<exists>cfg x v. parseMetadata (scalerMetadata (demo_ref Map.empty)) = Inr cfg \<and>
     fst (getMetricValue mock_ops (demo_env 1) cfg demo_scaler) = Inr x \<and>
     GetMetricSpec (demo_ref Map.empty) = Inr [(metricName cfg, targetValue cfg)] \<and>
     [(''keda_gpu_metric'', f64_of_nat 80)] = [(metricName cfg, v)] \<and> \<not> f64_lt v x \<and> (cooldownSeconds cfg = 0 \<longrightarrow> v = x)"
  by (rule report_matches_spec [where s' = "snd (GetMetrics mock_ops (demo_env 1) (Some (demo_ref Map.empty)) demo_scaler)"])
    (simp add: GetMetrics_def demo_ref_def parse_empty demo_read demo_cooldown applyCooldown_def
      seconds_max nanos_per_second_def demo_state)

text \<open>
  Errors leave no trace in the cooldown.  A \<open>GetMetrics\<close> call that fails leaves every baseline as it
  was; one that succeeds changes no series but its own.\<close>

theorem failed_call_keeps_cooldowns:
  "(case GetMetrics C env (Some ref) s of
      (Inl e, s') \<Rightarrow> cooldowns s' = cooldowns s
    | (Inr vs, s') \<Rightarrow> (\<exists>cfg. parseMetadata (scalerMetadata ref) = Inr cfg \<and>
        (\<forall>k. k \<noteq> newCooldownKey ref cfg \<longrightarrow> cooldowns s' k = cooldowns s k)))"
proof (cases rule: GetMetrics_cases [where ref = ref and C = C and env = env and s = s])
  case (metric cfg e s')
  then show ?thesis by (simp add: getMetricValue_cooldownsD)
next
  case (ok cfg x s' v cds)
  then show ?thesis
    using applyCooldown_other [of _ "newCooldownKey ref cfg" "cooldown_now env" x "seconds (cooldownSeconds cfg)" "cooldowns s"]
    by (auto simp: getMetricValue_cooldownsD)
qed simp

lemma failed_call_keeps_cooldowns_witness:
  "cooldowns (snd (GetMetrics mock_ops (demo_env 1) (Some (demo_ref [''profile'' \<mapsto> ''nope''])) demo_scaler)) = Map.empty"
proof -
  have "parseMetadata [''profile'' \<mapsto> ''nope''] = Inl (UnknownProfile ''nope'')"
    by (simp add: parseMetadata_def set_profile_def Get_def builtin_profiles_def)
  then have "GetMetrics mock_ops (demo_env 1) (Some (demo_ref [''profile'' \<mapsto> ''nope''])) demo_scaler
      = (Inl (ParseFailed (UnknownProfile ''nope'')), demo_scaler)"
    by (simp add: GetMetrics_def demo_ref_def)
  then show ?thesis
    using failed_call_keeps_cooldowns [where C = mock_ops and env = "demo_env 1" and s = demo_scaler
        and ref = "demo_ref [''profile'' \<mapsto> ''nope'']"]
    by (simp add: demo_state)
qed

text \<open>
  The index panic of the percentile cannot happen: no read of a metric, with any configuration, any
  collector and any replies, ends in it.\<close>

theorem percentile_never_panics:
  "fst (getMetricValue C env cfg s) \<noteq> Inl PercentilePanic"
  by (rule getMetricValue_no_panic)

text \<open>C14
  Requests go to vetted endpoints only.  In any state the service can reach, by any interleaving
  of calls and stream ticks, every cached client is filed under the endpoint it asks, and that
  endpoint has passed the guard.\<close>

theorem reachable_clients_vetted:
  assumes "scaler_reachable C s"
  shows "(\<forall>e c. vllmClients s e = Some c \<longrightarrow> endpoint c = e \<and> validateVLLMEndpoint e = Inr ()) \<and>
    (\<forall>e c. tritonClients s e = Some c \<longrightarrow> endpoint_t c = e \<and> validateVLLMEndpoint e = Inr ())"
  using reachable_vetted [OF assms] by (simp add: clients_vetted_def vetted_def)

lemma reachable_clients_vetted_witness:
  "vllmClients demo_vllm_scaler ''http://v:80'' = Some (NewClient_vllm ''http://v:80'') \<and>
     endpoint (NewClient_vllm ''http://v:80'') = ''http://v:80'' \<and> validateVLLMEndpoint ''http://v:80'' = Inr ()"
  using reachable_clients_vetted [OF demo_vllm_reachable] demo_vllm_client by blast

text \<open>
  A stream is a poll.  With a positive interval, what \<open>StreamIsActive\<close> sends over a sequence of
  ticks is exactly what as many calls of \<open>IsActive\<close> would return, errors left out, and it leaves the
  same state; a failed read does not end it.\<close>

theorem stream_is_poll:
  assumes "parseMetadata (scalerMetadata ref) = Inr cfg" "0 < seconds (pollIntervalSeconds cfg)"
  shows "StreamIsActive C ref (map (\<lambda>env. Tick env None) envs) s =
    (fst (poll_active C ref envs s), None, snd (poll_active C ref envs s))"
  using assms by (simp add: StreamIsActive_def stream_loop_polls)

lemma stream_is_poll_witness:
  "StreamIsActive mock_ops (demo_ref Map.empty) (map (\<lambda>env. Tick env None) [demo_env 1, demo_env 2]) demo_scaler =
    ([True, True], None, demo_scaler)"
proof -
  have "pollIntervalSeconds default_config = 10" "activationThreshold default_config = f64_of_nat 0"
    by (simp_all add: default_config_def)
  then show ?thesis
    using stream_is_poll [of "demo_ref Map.empty" default_config mock_ops "[demo_env 1, demo_env 2]" demo_scaler]
    by (simp add: demo_ref_def parse_empty seconds_max nanos_per_second_def IsActive_def demo_read)
qed

text \<open>C8
  A vLLM value is never made up.  In a reachable state, a queue depth that is read is the value of
  the last queue depth sample of a complete response with status 200 of the configured endpoint,
  and a cache usage is 100 times that of its last sample; with no such sample, a failed
  request or a broken body the read is an error, not a zero.\<close>

theorem vllm_value_has_sample:
  assumes "scaler_reachable C s" "getMetricValue C env cfg s = (Inr v, s')" "IsVLLMMetric (metricType cfg)"
  shows "\<exists>body rerr ls. http_get env (vllmEndpoint cfg) = Reply 200 body rerr \<and> scan_lines body rerr = (ls, None) \<and>
    (metricType cfg = MetricVLLMQueueDepth \<and> samples parseLine_vllm [MetricQueueDepth] ls \<noteq> [] \<and>
       v = last (samples parseLine_vllm [MetricQueueDepth] ls) \<or>
     metricType cfg = MetricVLLMKVCacheUsage \<and> samples parseLine_vllm [MetricKVCacheUsage, MetricKVCacheUsageOld] ls \<noteq> [] \<and>
       v = f64_mul (last (samples parseLine_vllm [MetricKVCacheUsage, MetricKVCacheUsageOld] ls)) (f64_of_nat 100))"
proof -
  obtain m where m: "Scrape_vllm (http_get env (vllmEndpoint cfg)) = Inr m" "vllm_value cfg m = Inr v"
    using assms(2,3) getVLLMClient_endpoint [OF reachable_vetted [OF assms(1)], of "vllmEndpoint cfg"]
    by (auto simp: getMetricValue_def getVLLMMetricValue_def case_prod_beta Let_def elim!: res_bind_InrE)
  obtain body rerr ls where ls: "http_get env (vllmEndpoint cfg) = Reply 200 body rerr"
      "scan_lines body rerr = (ls, None)" "vllm_reads ls m"
    using scrape_vllm_success [OF m(1)] by blast
  have "metricType cfg = MetricVLLMQueueDepth \<or> metricType cfg = MetricVLLMKVCacheUsage"
    using assms(3) by (auto simp: IsVLLMMetric_def)
  moreover have "MetricVLLMQueueDepth \<noteq> MetricVLLMKVCacheUsage" by (simp add: metric_type_defs)
  ultimately show ?thesis
    using ls m(2) by (auto simp: vllm_value_def vllm_reads_def Let_def last_or_zero_def split: if_splits)
qed

lemma vllm_value_has_sample_witness:
  "\<exists>body rerr ls. http_get vllm_env ''http://v:80'' = Reply 200 body rerr \<and> scan_lines body rerr = (ls, None) \<and>
     f64_of_nat 7 = last (samples parseLine_vllm [MetricQueueDepth] ls)"
proof -
  obtain s' where "getMetricValue mock_ops vllm_env vllm_config demo_scaler = (Inr (f64_of_nat 7), s')"
    using vllm_env_read by (metis prod.collapse)
  from vllm_value_has_sample [OF demo_reachable this] show ?thesis
    by (auto simp: vllm_config_def IsVLLMMetric_def metric_type_defs)
qed

text \<open>
  End to end on device metrics.  For an object on all GPUs, with any metric but the memory
  percentage, the value read is the exact aggregation of the natural numbers the devices
  report, as long as their sum fits into 2^53.\<close>

theorem device_metric_exact:
  assumes "\<not> IsVLLMMetric (metricType cfg)" "\<not> IsTritonMetric (metricType cfg)"
    and "metricType cfg \<noteq> MetricMemoryUsedPercent" "gpuIndex cfg < 0"
    and "CollectAll C (coll s) = (Inr ms, k)" "ms \<noteq> []" "length ms \<le> 2 ^ 40"
    and "sum_list (map (device_reading (metricType cfg)) ms) \<le> 2 ^ 53"
  shows "getMetricValue C env cfg s =
    (Inr (aggregate_spec (map (device_reading (metricType cfg)) ms) (aggregation cfg)), s\<lparr>coll := k\<rparr>)"
proof -
  let ?ns = "map (device_reading (metricType cfg)) ms"
  have "map (\<lambda>m. extractMetric m (metricType cfg)) ms = map f64_of_nat ?ns"
    using assms(3) by (simp add: extract_reading)
  moreover have "aggregate (map f64_of_nat ?ns) (aggregation cfg) = Some (aggregate_spec ?ns (aggregation cfg))"
    by (rule aggregate_nat) (use assms(6-8) in simp_all)
  ultimately have "aggregate (map (\<lambda>m. extractMetric m (metricType cfg)) ms) (aggregation cfg)
      = Some (aggregate_spec ?ns (aggregation cfg))" by (simp only:)
  then show ?thesis by (simp add: read_all_devices [OF assms(1,2,4,5,6)])
qed

lemma device_metric_exact_witness:
  "getMetricValue mock_ops (demo_env 1) (default_config\<lparr>aggregation := ''sum''\<rparr>) demo_scaler = (Inr (f64_of_nat 160), demo_scaler)"
proof -
  have "unat (80 :: u32) = 80" by simp
  then show ?thesis
    using device_metric_exact [of "default_config\<lparr>aggregation := ''sum''\<rparr>" mock_ops demo_scaler
        "map (mock_device 80) [0..<2]" "coll demo_scaler" "demo_env 1"]
    by (simp add: default_config_def IsVLLMMetric_def IsTritonMetric_def metric_type_defs demo_scaler_def
        NewGPUExternalScaler_def NewMockCollector_def mock_CollectAll_def device_reading_def mock_device_def
        zero_metrics_def aggregate_spec_def upt_rec)
qed

text \<open>
  A device index means that device.  With the mock collector in a state where every device carries its
  own position, a value read for a configured index comes from the device with that index, and
  the state stays such.\<close>

theorem indexed_device_read:
  assumes "mock_inv (coll s)" "0 \<le> gpuIndex cfg" "\<not> IsVLLMMetric (metricType cfg)" "\<not> IsTritonMetric (metricType cfg)"
    and "getMetricValue mock_ops env cfg s = (Inr v, s')"
  shows "mock_inv (coll s') \<and> (\<exists>m. Index m = gpuIndex cfg \<and> v = extractMetric m (metricType cfg))"
  using mock.read_device [OF assms] mock.read_keeps_inv [OF assms(1), of env cfg] assms(5) by simp

lemma indexed_device_read_witness:
  "\<exists>m. Index m = 1 \<and> f64_of_nat 80 = extractMetric m MetricGPUUtilization"
proof -
  have u: "unat (80 :: u32) = 80" by simp
  have "mock_inv (coll demo_scaler)"
    by (simp add: demo_scaler_def NewGPUExternalScaler_def mock_inv_def NewMockCollector_def mock_device_def)
  moreover have "getMetricValue mock_ops (demo_env 1) (default_config\<lparr>gpuIndex := 1\<rparr>) demo_scaler = (Inr (f64_of_nat 80), demo_scaler)"
    using u by (simp add: getMetricValue_def default_config_def demo_scaler_def NewGPUExternalScaler_def
        NewMockCollector_def mock_CollectDevice_def IsVLLMMetric_def IsTritonMetric_def metric_type_defs
        extractMetric_def mock_device_def u_float_def)
  ultimately show ?thesis
    using indexed_device_read [of demo_scaler "default_config\<lparr>gpuIndex := 1\<rparr>" "demo_env 1"]
    by (simp add: default_config_def IsVLLMMetric_def IsTritonMetric_def metric_type_defs)
qed

text \<open>
  Engines and devices are separate worlds.  Reading an engine metric leaves the collector's state
  alone, reading a device metric leaves both client caches alone, and a vLLM read does not
  touch Triton's clients nor the other way round.\<close>

theorem reads_are_separate:
  "(IsVLLMMetric (metricType cfg) \<longrightarrow> coll (snd (getMetricValue C env cfg s)) = coll s \<and>
      tritonClients (snd (getMetricValue C env cfg s)) = tritonClients s) \<and>
   (IsTritonMetric (metricType cfg) \<longrightarrow> coll (snd (getMetricValue C env cfg s)) = coll s \<and>
      vllmClients (snd (getMetricValue C env cfg s)) = vllmClients s) \<and>
   (\<not> IsVLLMMetric (metricType cfg) \<and> \<not> IsTritonMetric (metricType cfg) \<longrightarrow>
      vllmClients (snd (getMetricValue C env cfg s)) = vllmClients s \<and>
      tritonClients (snd (getMetricValue C env cfg s)) = tritonClients s)"
  using engine_metrics_disjoint [of "metricType cfg"]
  by (simp add: getMetricValue_def getVLLMMetricValue_def getTritonMetricValue_def case_prod_beta Let_def)

lemma reads_are_separate_witness:
  "coll (snd (getMetricValue mock_ops vllm_env vllm_config demo_scaler)) = coll demo_scaler"
  using reads_are_separate [of vllm_config mock_ops vllm_env demo_scaler]
  by (simp add: vllm_config_def IsVLLMMetric_def)

text \<open>
  An interval that is zero or negative is accepted and then panics.  Metadata that names it parses,
  and \<open>StreamIsActive\<close> ends in the panic of \<open>time.NewTicker\<close> before it waits for anything.\<close>

theorem nonpositive_interval_panics:
  assumes "-9223372036 \<le> i" "i \<le> 0" "scalerMetadata ref = [''pollIntervalSeconds'' \<mapsto> itoa i]"
  shows "parseMetadata (scalerMetadata ref) = Inr (default_config\<lparr>pollIntervalSeconds := i\<rparr>) \<and>
    StreamIsActive C ref es s = ([], Some (Inl NonPositiveTicker), s)"
proof -
  have i: "in_int64 i" "in_int64 (i * nanos_per_second)"
    using assms(1,2) by (simp_all add: in_int64_def min_int64_def max_int64_def nanos_per_second_def)
  have p: "parseMetadata (scalerMetadata ref) = Inr (default_config\<lparr>pollIntervalSeconds := i\<rparr>)"
    using i(1) by (simp add: assms(3) parse_Inr_iff well_formed_keys_def key_ok_def effective_config_def key_or_def
      from_profile_def default_config_def endpoints_ok_def IsVLLMMetric_def IsTritonMetric_def metric_type_defs atoi_itoa)
  moreover have "seconds i \<le> 0" using assms(2) i(2) by (simp add: seconds_exact nanos_per_second_def)
  ultimately show ?thesis by (simp add: StreamIsActive_def)
qed

lemma nonpositive_interval_panics_witness:
  "StreamIsActive mock_ops (demo_ref [''pollIntervalSeconds'' \<mapsto> itoa 0]) [ContextDone] demo_scaler =
     ([], Some (Inl NonPositiveTicker), demo_scaler)"
  using nonpositive_interval_panics [of 0 "demo_ref [''pollIntervalSeconds'' \<mapsto> itoa 0]" mock_ops "[ContextDone]" demo_scaler]
  by (simp add: demo_ref_def)

text \<open>
  A very long cooldown is none.  For a cooldown of 9223372037 to 18446744073 seconds the product with
  a second wraps to a negative duration: the metadata parses, every value is reported as it is
  read, and no baseline is ever recorded.\<close>

theorem huge_cooldown_is_off:
  assumes "9223372037 \<le> n" "n \<le> 18446744073" "scalerMetadata ref = [''cooldownSeconds'' \<mapsto> itoa n]"
    and "GetMetrics C env (Some ref) s = (Inr vs, s')"
  shows "cooldowns s' = cooldowns s \<and>
    (\<exists>x. fst (getMetricValue C env (default_config\<lparr>cooldownSeconds := n\<rparr>) s) = Inr x \<and> vs = [(''keda_gpu_metric'', x)])"
proof -
  have n: "in_int64 n" using assms(1,2) by (simp add: in_int64_def min_int64_def max_int64_def)
  have p: "parseMetadata (scalerMetadata ref) = Inr (default_config\<lparr>cooldownSeconds := n\<rparr>)"
    using n assms(1) by (simp add: assms(3) parse_Inr_iff well_formed_keys_def key_ok_def effective_config_def key_or_def
      from_profile_def default_config_def endpoints_ok_def IsVLLMMetric_def IsTritonMetric_def metric_type_defs atoi_itoa)
  have "seconds n \<le> 0" using assms(1,2) by (rule seconds_negative)
  then show ?thesis
  proof (cases rule: GetMetrics_cases [where ref = ref and C = C and env = env and s = s])
    case (ok cfg x s1 v cds)
    then have cfg: "cfg = default_config\<lparr>cooldownSeconds := n\<rparr>" using p by simp
    then have "v = x" "cds = cooldowns s1"
      using ok(3) cd_off [OF \<open>seconds n \<le> 0\<close>, of "cooldown_now env" "newCooldownKey ref cfg" x "cooldowns s1"] by simp_all
    then show ?thesis
      using ok assms(4) cfg by (simp add: getMetricValue_cooldownsD default_config_def)
  qed (use assms(4) in simp_all)
qed

lemma huge_cooldown_is_off_witness:
  "cooldowns (snd (GetMetrics mock_ops (demo_env 1) (Some (demo_ref [''cooldownSeconds'' \<mapsto> itoa 10000000000])) demo_scaler)) = Map.empty"
proof -
  let ?ref = "demo_ref [''cooldownSeconds'' \<mapsto> itoa 10000000000]"
  have p: "parseMetadata (scalerMetadata ?ref) = Inr (default_config\<lparr>cooldownSeconds := 10000000000\<rparr>)"
    by (simp add: demo_ref_def parse_Inr_iff well_formed_keys_def key_ok_def effective_config_def key_or_def
      from_profile_def default_config_def endpoints_ok_def IsVLLMMetric_def IsTritonMetric_def metric_type_defs
      atoi_itoa in_int64_def min_int64_def max_int64_def)
  have "getMetricValue mock_ops (demo_env 1) (default_config\<lparr>cooldownSeconds := 10000000000\<rparr>) demo_scaler = (Inr (f64_of_nat 80), demo_scaler)"
    using demo_read [of "demo_env 1"] by (simp add: read_ignores_cooldown)
  then obtain vs s' where g: "GetMetrics mock_ops (demo_env 1) (Some ?ref) demo_scaler = (Inr vs, s')"
    using p by (simp add: GetMetrics_def case_prod_beta Let_def)
  have "scalerMetadata ?ref = [''cooldownSeconds'' \<mapsto> itoa 10000000000]" by (simp add: demo_ref_def)
  then have "cooldowns s' = cooldowns demo_scaler" using huge_cooldown_is_off [OF _ _ _ g, of 10000000000] by simp
  then show ?thesis unfolding g by (simp add: demo_state)
qed

text \<open>
  Triton's metrics lack the guard of vLLM's: a complete response without a single sample of the
  two counters is read as the value 0, not as an error, whatever the client saw before.\<close>

theorem triton_missing_is_zero:
  assumes "scaler_reachable C s" "IsTritonMetric (metricType cfg)"
    and "http_get env (tritonEndpoint cfg) = Reply 200 body rerr" "scan_lines body rerr = (ls, None)"
    and "samples parseLine_triton [''nv_inference_count''] ls = []"
    and "case tritonClients s (tritonEndpoint cfg) of None \<Rightarrow> True | Some c \<Rightarrow> \<not> f64_lt (prevInferenceCnt c) (f64_of_nat 0)"
  shows "fst (getMetricValue C env cfg s) = Inr (f64_of_nat 0)"
proof -
  let ?e = "tritonEndpoint cfg"
  obtain c cs where c: "getTritonClient ?e (tritonClients s) = (c, cs)" by (cases "getTritonClient ?e (tritonClients s)")
  have e: "endpoint_t c = ?e" using getTritonClient_endpoint [OF reachable_vetted [OF assms(1)], of ?e] c by simp
  obtain raw where raw: "triton_reads ls raw" "Scrape_triton (Reply 200 body rerr) (scrape_now env) c =
      (let (m, c') = applyDerived (scrape_now env) raw c in (Inr m, c'))"
    using scrape_reply [OF assms(4), of "scrape_now env" c] by blast
  have "\<not> f64_lt (prevInferenceCnt c) (f64_of_nat 0)"
    using assms(6) c by (auto simp: getTritonClient_def NewClient_triton_def split: option.splits)
  then have "derive_fields c (scrape_now env) raw = raw"
    using raw(1) assms(5) by (intro derive_fields_safe(3)) (simp_all add: triton_reads_def)
  then have "AvgQueueWaitUs (derive_fields c (scrape_now env) raw) = f64_of_nat 0"
    "RequestRatePerSec (derive_fields c (scrape_now env) raw) = f64_of_nat 0"
    using raw(1) by (simp_all add: triton_reads_def)
  moreover have "f64_div (f64_of_nat 0) (f64_of_nat 1000) = f64_of_nat 0"
    using f64_div_of_nat [of 0 1000] f64_of_ratio_nat [of 1000 0] by simp
  ultimately show ?thesis
    using assms(2,3) engine_metrics_disjoint [of "metricType cfg"] raw(2)
    by (simp add: getMetricValue_def getTritonMetricValue_def c e applyDerived_def triton_value_def)
qed

lemma triton_missing_is_zero_witness:
  "fst (getMetricValue mock_ops ((demo_env 1)\<lparr>http_get := \<lambda>_. Reply 200 [] None\<rparr>)
     (default_config\<lparr>metricType := MetricTritonRequestRate, tritonEndpoint := ''http://t:80''\<rparr>) demo_scaler) = Inr (f64_of_nat 0)"
  by (rule triton_missing_is_zero [OF demo_reachable, where body = "[]" and rerr = None and ls = "[]"])
    (simp_all add: IsTritonMetric_def default_config_def scan_lines_def max_token_def demo_scaler_def NewGPUExternalScaler_def)

end
